theory Spec2Isabelle
  imports Complex_Main "HOL-Library.AList"
begin

section \<open>Conventions\<close>

text \<open>
  The development embeds the timeline interaction engine of \<^verbatim>\<open>src/base.js\<close>.
  JavaScript numbers are modelled by \<^typ>\<open>rat\<close>: finite values with exact arithmetic.
  Where a claim depends on \<^verbatim>\<open>NaN\<close>, \<^verbatim>\<open>undefined\<close> or an infinity, the
  value is a constructor of a datatype of its own. Mutation of the global objects is
  explicit state passing. A JavaScript function that can raise returns a
  \<open>completion\<close>: either it finished normally in a state, or an exception with a message
  left it in a state. \<^verbatim>\<open>console.warn\<close> and \<^verbatim>\<open>console.error\<close> append to a console
  field; the \<^verbatim>\<open>console.log\<close> tracing of the source is not represented.
\<close>

datatype 'a completion = Normal 'a | Thrown string 'a

datatype logEntry = LogWarn string | LogError string

text \<open>\<^verbatim>\<open>try { body } catch (error) { handler }\<close>\<close>

definition try_catch ::
  "('s \<Rightarrow> 's completion) \<Rightarrow> (string \<Rightarrow> 's \<Rightarrow> 's completion) \<Rightarrow> 's \<Rightarrow> 's completion" where
  "try_catch body handler s =
     (case body s of Normal s' \<Rightarrow> Normal s' | Thrown err s' \<Rightarrow> handler err s')"

text \<open>\<^verbatim>\<open>try { body } finally { cleanup }\<close>: the cleanup runs on both paths and an
  exception of the body propagates after it.\<close>

definition try_finally ::
  "('s \<Rightarrow> 's completion) \<Rightarrow> ('s \<Rightarrow> 's) \<Rightarrow> 's \<Rightarrow> 's completion" where
  "try_finally body cleanup s =
     (case body s of Normal s' \<Rightarrow> Normal (cleanup s') | Thrown err s' \<Rightarrow> Thrown err (cleanup s'))"

text \<open>\<^verbatim>\<open>Array.prototype.forEach\<close>: an exception of the callback leaves the loop.\<close>

fun forEach :: "('a \<Rightarrow> 's \<Rightarrow> 's completion) \<Rightarrow> 'a list \<Rightarrow> 's \<Rightarrow> 's completion" where
  "forEach f [] s = Normal s"
| "forEach f (x # xs) s =
     (case f x s of Normal s' \<Rightarrow> forEach f xs s' | Thrown err s' \<Rightarrow> Thrown err s')"

section \<open>Overlay Store: \<^verbatim>\<open>OverlayState\<close>\<close>

text \<open>A store record. The empty string stands for an absent (falsy) \<^verbatim>\<open>id\<close> or
  \<^verbatim>\<open>label\<close>. The fields \<open>start\<close> and \<open>end_compat\<close> are the compatibility keys
  \<^verbatim>\<open>start\<close> and \<^verbatim>\<open>end\<close> that the drag handlers write next to \<^verbatim>\<open>startTime\<close>.\<close>

record overlay =
  oid :: string
  label :: string
  startTime :: rat
  duration :: rat
  position :: string
  osize :: rat
  opacity :: rat
  image :: string
  start :: "rat option"
  end_compat :: "rat option"

text \<open>The partial object handed to \<^verbatim>\<open>updateOverlay(id, data)\<close>: a key that is present
  carries \<open>Some\<close> value.\<close>

record overlayChanges =
  c_id :: "string option"
  c_label :: "string option"
  c_startTime :: "rat option"
  c_duration :: "rat option"
  c_position :: "string option"
  c_size :: "rat option"
  c_opacity :: "rat option"
  c_image :: "string option"
  c_start :: "rat option"
  c_end :: "rat option"

text \<open>An entry of \<^verbatim>\<open>currentProject.overlays\<close>. \<open>p_other\<close> holds the properties of the
  entry that \<^verbatim>\<open>syncWithProject\<close> never writes.\<close>

record projectOverlay =
  p_id :: string
  p_label :: string
  p_start :: rat
  p_duration :: rat
  p_position :: string
  p_size :: rat
  p_opacity :: rat
  p_imageFile :: string
  p_other :: "(string \<times> string) list"

record videoState =
  isReady :: bool
  vs_duration :: rat
  vs_currentTime :: rat

text \<open>The payload of the \<^verbatim>\<open>overlayUpdated\<close> event.\<close>

record overlayEvent =
  ev_id :: string
  ev_overlay :: overlay
  ev_oldData :: overlay
  ev_changes :: overlayChanges

text \<open>A subscriber is a callback over the subscriber's own world \<open>'e\<close> (in the
  repository: the overlay manager with its debounce timer). It returns normally or raises,
  and what it wrote before raising stays written.\<close>

type_synonym 'e listener = "overlayEvent \<Rightarrow> 'e \<Rightarrow> 'e completion"

text \<open>\<open>currentProject_overlays\<close> is \<open>None\<close> when \<^verbatim>\<open>currentProject\<close> is null or has no
  \<^verbatim>\<open>overlays\<close> array.\<close>

record 'e overlayState =
  overlays :: "overlay list"
  activeOverlay :: "overlay option"
  videoState :: videoState
  eventListeners :: "(string \<times> 'e listener list) list"
  currentProject_overlays :: "projectOverlay list option"
  console :: "logEntry list"
  env :: 'e

subsection \<open>Events\<close>

definition invoke :: "'e listener \<Rightarrow> overlayEvent \<Rightarrow> 'e overlayState \<Rightarrow> 'e overlayState completion" where
  "invoke callback data s =
     (case callback data (env s) of
        Normal e' \<Rightarrow> Normal (s\<lparr>env := e'\<rparr>)
      | Thrown err e' \<Rightarrow> Thrown err (s\<lparr>env := e'\<rparr>))"

definition console_error :: "string \<Rightarrow> 'e overlayState \<Rightarrow> 'e overlayState" where
  "console_error msg s = s\<lparr>console := console s @ [LogError msg]\<rparr>"

definition console_warn :: "string \<Rightarrow> 'e overlayState \<Rightarrow> 'e overlayState" where
  "console_warn msg s = s\<lparr>console := console s @ [LogWarn msg]\<rparr>"

definition emit :: "string \<Rightarrow> overlayEvent \<Rightarrow> 'e overlayState \<Rightarrow> 'e overlayState completion" where
  "emit event data s =
     (case map_of (eventListeners s) event of
        None \<Rightarrow> Normal s
      | Some listeners \<Rightarrow>
          forEach (\<lambda>callback. try_catch (invoke callback data)
                                 (\<lambda>err t. Normal (console_error err t)))
                  listeners s)"

subsection \<open>Derived projection\<close>

definition overlayData :: "overlay \<Rightarrow> projectOverlay" where
  "overlayData overlay =
     \<lparr>p_id = oid overlay,
      p_label = (if label overlay \<noteq> [] then label overlay else ''Overlay '' @ oid overlay),
      p_start = startTime overlay,
      p_duration = duration overlay,
      p_position = position overlay,
      p_size = osize overlay,
      p_opacity = opacity overlay,
      p_imageFile = image overlay,
      p_other = []\<rparr>"

text \<open>\<^verbatim>\<open>Object.assign(projectOverlay, overlayData)\<close>: the eight keys of the source
  object are written into the target, which keeps everything else.\<close>

definition assignProject :: "projectOverlay \<Rightarrow> projectOverlay \<Rightarrow> projectOverlay" where
  "assignProject target source =
     target\<lparr>p_id := p_id source, p_label := p_label source, p_start := p_start source,
            p_duration := p_duration source, p_position := p_position source,
            p_size := p_size source, p_opacity := p_opacity source,
            p_imageFile := p_imageFile source\<rparr>"

text \<open>\<^verbatim>\<open>new Map(currentProject.overlays.map(o => [o.id, o]))\<close>. The value stored for an
  id is a reference to the array element, modelled by its index; a later entry with the
  same id replaces the value and keeps the key's place.\<close>

definition currentOverlaysMap :: "projectOverlay list \<Rightarrow> (string \<times> nat) list" where
  "currentOverlaysMap po = fold (\<lambda>(i, p) m. AList.update (p_id p) i m) (enumerate 0 po) []"

text \<open>The body of the \<^verbatim>\<open>forEach\<close> over the store's records.\<close>

definition syncOverlay ::
  "overlay \<Rightarrow> projectOverlay list \<times> (string \<times> nat) list
           \<Rightarrow> projectOverlay list \<times> (string \<times> nat) list" where
  "syncOverlay overlay = (\<lambda>(po, m).
     case map_of m (oid overlay) of
       Some i \<Rightarrow> (po[i := assignProject (po ! i) (overlayData overlay)],
                  AList.delete (oid overlay) m)
     | None \<Rightarrow> (po @ [overlayData overlay], m))"

definition syncWithProject :: "'e overlayState \<Rightarrow> 'e overlayState" where
  "syncWithProject s =
     (case currentProject_overlays s of
        None \<Rightarrow> s
      | Some po \<Rightarrow>
          (case fold syncOverlay (overlays s) (po, currentOverlaysMap po) of
             (po', m') \<Rightarrow>
               let removedIds = map fst m' in
               s\<lparr>currentProject_overlays :=
                    Some (if length removedIds > 0
                          then filter (\<lambda>p. p_id p \<notin> set removedIds) po'
                          else po')\<rparr>))"

subsection \<open>Mutations\<close>

text \<open>\<open>generated\<close> is what \<^verbatim>\<open>OverlayUtils.generateOverlayId()\<close> returns at this call
  (it is built from the clock and a random number).\<close>

definition addOverlay :: "string \<Rightarrow> overlay \<Rightarrow> 'e overlayState \<Rightarrow> 'e overlayState" where
  "addOverlay generated overlay s =
     (let overlay' = (if oid overlay = [] then overlay\<lparr>oid := generated\<rparr> else overlay)
      in syncWithProject (s\<lparr>overlays := overlays s @ [overlay']\<rparr>))"

definition removeOverlay :: "string \<Rightarrow> 'e overlayState \<Rightarrow> 'e overlayState" where
  "removeOverlay ident s =
     syncWithProject (s\<lparr>overlays := filter (\<lambda>ov. oid ov \<noteq> ident) (overlays s)\<rparr>)"

definition assignOverlay :: "overlay \<Rightarrow> overlayChanges \<Rightarrow> overlay" where
  "assignOverlay overlay data =
     overlay\<lparr>oid := (case c_id data of Some v \<Rightarrow> v | None \<Rightarrow> oid overlay),
             label := (case c_label data of Some v \<Rightarrow> v | None \<Rightarrow> label overlay),
             startTime := (case c_startTime data of Some v \<Rightarrow> v | None \<Rightarrow> startTime overlay),
             duration := (case c_duration data of Some v \<Rightarrow> v | None \<Rightarrow> duration overlay),
             position := (case c_position data of Some v \<Rightarrow> v | None \<Rightarrow> position overlay),
             osize := (case c_size data of Some v \<Rightarrow> v | None \<Rightarrow> osize overlay),
             opacity := (case c_opacity data of Some v \<Rightarrow> v | None \<Rightarrow> opacity overlay),
             image := (case c_image data of Some v \<Rightarrow> v | None \<Rightarrow> image overlay),
             start := (case c_start data of Some v \<Rightarrow> Some v | None \<Rightarrow> start overlay),
             end_compat := (case c_end data of Some v \<Rightarrow> Some v | None \<Rightarrow> end_compat overlay)\<rparr>"

text \<open>\<^verbatim>\<open>overlays.find(o => o.id === id)\<close> yields the first match, which
  \<^verbatim>\<open>Object.assign\<close> then mutates where it sits in the array.\<close>

fun assignFirst :: "string \<Rightarrow> overlayChanges \<Rightarrow> overlay list \<Rightarrow> overlay list" where
  "assignFirst ident data [] = []"
| "assignFirst ident data (ov # ovs) =
     (if oid ov = ident then assignOverlay ov data # ovs else ov # assignFirst ident data ovs)"

definition getOverlay :: "string \<Rightarrow> 'e overlayState \<Rightarrow> overlay option" where
  "getOverlay ident s = find (\<lambda>ov. oid ov = ident) (overlays s)"

definition updateOverlay ::
  "string \<Rightarrow> overlayChanges \<Rightarrow> 'e overlayState \<Rightarrow> 'e overlayState completion" where
  "updateOverlay ident data s =
     (case find (\<lambda>ov. oid ov = ident) (overlays s) of
        Some overlay \<Rightarrow>
          let oldData = overlay;
              s1 = syncWithProject (s\<lparr>overlays := assignFirst ident data (overlays s)\<rparr>)
          in emit ''overlayUpdated''
               \<lparr>ev_id = ident, ev_overlay = assignOverlay overlay data,
                ev_oldData = oldData, ev_changes = data\<rparr> s1
      | None \<Rightarrow> Normal (console_warn ''overlay not found'' s))"

definition clear :: "'e overlayState \<Rightarrow> 'e overlayState" where
  "clear s = s\<lparr>overlays := [], activeOverlay := None,
               videoState := \<lparr>isReady = False, vs_duration = 0, vs_currentTime = 0\<rparr>\<rparr>"

text \<open>A call of the store's mutating interface, and a sequence of calls. An exception
  would end the sequence where it is raised.\<close>

datatype storeCall =
    AddOverlay string overlay
  | UpdateOverlay string overlayChanges
  | RemoveOverlay string

fun call :: "storeCall \<Rightarrow> 'e overlayState \<Rightarrow> 'e overlayState completion" where
  "call (AddOverlay generated overlay) s = Normal (addOverlay generated overlay s)"
| "call (UpdateOverlay ident data) s = updateOverlay ident data s"
| "call (RemoveOverlay ident) s = Normal (removeOverlay ident s)"

fun calls :: "storeCall list \<Rightarrow> 'e overlayState \<Rightarrow> 'e overlayState completion" where
  "calls [] s = Normal s"
| "calls (c # cs) s =
     (case call c s of Normal s' \<Rightarrow> calls cs s' | Thrown err s' \<Rightarrow> Thrown err s')"

subsection \<open>Reference notions for the store's properties\<close>

text \<open>The subscribers registered for an event (none when the event has no list).\<close>

definition listeners_of :: "string \<Rightarrow> 'e overlayState \<Rightarrow> 'e listener list" where
  "listeners_of event s = (case map_of (eventListeners s) event of None \<Rightarrow> [] | Some ls \<Rightarrow> ls)"

text \<open>What the subscribers' world looks like when every subscriber of the list has run
  once, in order, whether or not it raised; and the errors they raised, in order.\<close>

fun all_listeners_run :: "'e listener list \<Rightarrow> overlayEvent \<Rightarrow> 'e \<Rightarrow> 'e" where
  "all_listeners_run [] data e = e"
| "all_listeners_run (l # ls) data e =
     all_listeners_run ls data (case l data e of Normal e' \<Rightarrow> e' | Thrown err e' \<Rightarrow> e')"

fun raised_errors :: "'e listener list \<Rightarrow> overlayEvent \<Rightarrow> 'e \<Rightarrow> logEntry list" where
  "raised_errors [] data e = []"
| "raised_errors (l # ls) data e =
     (case l data e of
        Normal e' \<Rightarrow> raised_errors ls data e'
      | Thrown err e' \<Rightarrow> LogError err # raised_errors ls data e')"

text \<open>The state a completion ends in.\<close>

fun final_state :: "'a completion \<Rightarrow> 'a" where
  "final_state (Normal s) = s"
| "final_state (Thrown err s) = s"

text \<open>Every id of the store names one record.\<close>

definition unique_ids :: "'e overlayState \<Rightarrow> bool" where
  "unique_ids s = distinct (map oid (overlays s))"

text \<open>The projection exists, holds exactly one entry per store id and no other entry, and
  each entry carries the start and the duration of the store record of its id.\<close>

definition projection_consistent :: "'e overlayState \<Rightarrow> bool" where
  "projection_consistent s =
     (case currentProject_overlays s of
        None \<Rightarrow> False
      | Some po \<Rightarrow>
          distinct (map p_id po) \<and> set (map p_id po) = set (map oid (overlays s)) \<and>
          (\<forall>ov \<in> set (overlays s). \<forall>p \<in> set po.
             p_id p = oid ov \<longrightarrow> p_start p = startTime ov \<and> p_duration p = duration ov))"

text \<open>The reconciliation as the specification words it, an id-based diff of the old
  projection against the store: an entry whose id is still in the store is updated where
  it stands, an entry whose id is gone is removed, and the records with a new id are
  appended in store order.\<close>

definition reconcile :: "overlay list \<Rightarrow> projectOverlay list \<Rightarrow> projectOverlay list" where
  "reconcile ovs po =
     concat (map (\<lambda>p. case find (\<lambda>ov. oid ov = p_id p) ovs of
                         Some ov \<Rightarrow> [assignProject p (overlayData ov)]
                       | None \<Rightarrow> []) po)
     @ map overlayData (filter (\<lambda>ov. oid ov \<notin> p_id ` set po) ovs)"

text \<open>A full clear-and-rebuild would instead produce this.\<close>

definition rebuild :: "overlay list \<Rightarrow> projectOverlay list" where
  "rebuild ovs = map overlayData ovs"

text \<open>A call that keeps ids unique: an add whose id (given, or generated when absent) is not
  in the store yet, an update that does not rewrite the id, any remove.\<close>

fun keeps_ids_unique :: "storeCall \<Rightarrow> 'e overlayState \<Rightarrow> bool" where
  "keeps_ids_unique (AddOverlay generated overlay) s =
     ((if oid overlay = [] then generated else oid overlay) \<notin> oid ` set (overlays s))"
| "keeps_ids_unique (UpdateOverlay ident data) s = (c_id data = None)"
| "keeps_ids_unique (RemoveOverlay ident) s = True"

fun admissible :: "storeCall list \<Rightarrow> 'e overlayState \<Rightarrow> bool" where
  "admissible [] s = True"
| "admissible (c # cs) s =
     (keeps_ids_unique c s \<and> admissible cs (final_state (call c s)))"

text \<open>The store at program start: no records, and the untitled project with its empty
  \<^verbatim>\<open>overlays\<close> array.\<close>

definition initialState :: "'e \<Rightarrow> 'e overlayState" where
  "initialState e =
     \<lparr>overlays = [], activeOverlay = None,
      videoState = \<lparr>isReady = False, vs_duration = 0, vs_currentTime = 0\<rparr>,
      eventListeners = [], currentProject_overlays = Some [],
      console = [], env = e\<rparr>"

subsection \<open>Auxiliary notions for the reconciliation loop\<close>

text \<open>The state of the \<^verbatim>\<open>forEach\<close> of \<open>syncWithProject\<close> after the store records
  \<open>seen\<close>: the old entries with the seen ids updated, the seen records with a new id
  appended, and the seen ids gone from the lookup map.\<close>

definition synced :: "overlay list \<Rightarrow> projectOverlay \<Rightarrow> projectOverlay" where
  "synced seen p = (case find (\<lambda>ov. oid ov = p_id p) seen of
                      Some ov \<Rightarrow> assignProject p (overlayData ov) | None \<Rightarrow> p)"

definition appended :: "projectOverlay list \<Rightarrow> overlay list \<Rightarrow> projectOverlay list" where
  "appended po seen = map overlayData (filter (\<lambda>ov. oid ov \<notin> p_id ` set po) seen)"

definition loop_inv ::
  "projectOverlay list \<Rightarrow> overlay list \<Rightarrow> projectOverlay list \<times> (string \<times> nat) list \<Rightarrow> bool" where
  "loop_inv po seen st =
     (fst st = map (synced seen) po @ appended po seen \<and>
      map_of (snd st) = (\<lambda>k. if k \<in> oid ` set seen then None else map_of (currentOverlaysMap po) k) \<and>
      fst ` set (snd st) = p_id ` set po - oid ` set seen)"

subsection \<open>Sample data\<close>

definition sampleOverlay :: "string \<Rightarrow> rat \<Rightarrow> rat \<Rightarrow> overlay" where
  "sampleOverlay ident t d =
     \<lparr>oid = ident, label = [], startTime = t, duration = d, position = ''center'',
      osize = 50, opacity = 1, image = ''img.png'', start = None, end_compat = None\<rparr>"

definition noChanges :: overlayChanges where
  "noChanges = \<lparr>c_id = None, c_label = None, c_startTime = None, c_duration = None,
                c_position = None, c_size = None, c_opacity = None, c_image = None,
                c_start = None, c_end = None\<rparr>"

definition sampleEntry :: "string \<Rightarrow> projectOverlay" where
  "sampleEntry ident =
     \<lparr>p_id = ident, p_label = ''old'', p_start = 0, p_duration = 1, p_position = ''center'',
      p_size = 50, p_opacity = 1, p_imageFile = ''img.png'', p_other = [(''end'', ''1'')]\<rparr>"

definition sampleCalls :: "storeCall list" where
  "sampleCalls =
     [AddOverlay ''g1'' (sampleOverlay [] 10 5),
      AddOverlay ''g2'' (sampleOverlay ''b'' 20 5),
      UpdateOverlay ''g1'' (noChanges\<lparr>c_startTime := Some 30, c_start := Some 30\<rparr>),
      RemoveOverlay ''b'']"

definition sampleProjection :: "projectOverlay list" where
  "sampleProjection = [sampleEntry ''b'', sampleEntry ''z'', sampleEntry ''a'']"

definition sampleState :: "unit overlayState" where
  "sampleState = (initialState ())
     \<lparr>overlays := [sampleOverlay ''a'' 10 5, sampleOverlay ''b'' 20 5, sampleOverlay ''c'' 30 5],
      currentProject_overlays := Some sampleProjection\<rparr>"

section \<open>Time formatting\<close>

text \<open>A JavaScript number as the formatting functions can receive it, and the argument
  \<^verbatim>\<open>seconds\<close>, which a caller may leave \<^verbatim>\<open>undefined\<close>. A finite value is an exact
  rational: the rounding of binary floating point is not represented, so a digit computed
  from a fraction such as 0.009 can differ from the one the program prints.\<close>

datatype jsnumber = Num rat | NaN | PosInfinity | NegInfinity

datatype jsvalue = Undefined | Number jsnumber

fun ToNumber :: "jsvalue \<Rightarrow> jsnumber" where
  "ToNumber Undefined = NaN"
| "ToNumber (Number n) = n"

text \<open>\<^verbatim>\<open>x / c\<close>, \<^verbatim>\<open>x % c\<close> and \<^verbatim>\<open>x * c\<close> for a positive finite constant \<open>c\<close>. The
  remainder has the sign of the dividend; the remainder of an infinity is \<^verbatim>\<open>NaN\<close>.\<close>

fun js_div :: "jsnumber \<Rightarrow> rat \<Rightarrow> jsnumber" where
  "js_div (Num x) c = Num (x / c)"
| "js_div NaN c = NaN"
| "js_div PosInfinity c = PosInfinity"
| "js_div NegInfinity c = NegInfinity"

definition js_trunc :: "rat \<Rightarrow> int" where
  "js_trunc x = (if 0 \<le> x then \<lfloor>x\<rfloor> else \<lceil>x\<rceil>)"

fun js_rem :: "jsnumber \<Rightarrow> rat \<Rightarrow> jsnumber" where
  "js_rem (Num x) c = Num (x - c * of_int (js_trunc (x / c)))"
| "js_rem NaN c = NaN"
| "js_rem PosInfinity c = NaN"
| "js_rem NegInfinity c = NaN"

fun js_mul :: "jsnumber \<Rightarrow> rat \<Rightarrow> jsnumber" where
  "js_mul (Num x) c = Num (x * c)"
| "js_mul NaN c = NaN"
| "js_mul PosInfinity c = PosInfinity"
| "js_mul NegInfinity c = NegInfinity"

fun js_sub :: "jsnumber \<Rightarrow> jsnumber \<Rightarrow> jsnumber" where
  "js_sub (Num x) (Num y) = Num (x - y)"
| "js_sub NaN b = NaN"
| "js_sub a NaN = NaN"
| "js_sub PosInfinity PosInfinity = NaN"
| "js_sub NegInfinity NegInfinity = NaN"
| "js_sub PosInfinity b = PosInfinity"
| "js_sub NegInfinity b = NegInfinity"
| "js_sub (Num x) PosInfinity = NegInfinity"
| "js_sub (Num x) NegInfinity = PosInfinity"

fun Math_floor :: "jsnumber \<Rightarrow> jsnumber" where
  "Math_floor (Num x) = Num (of_int \<lfloor>x\<rfloor>)"
| "Math_floor NaN = NaN"
| "Math_floor PosInfinity = PosInfinity"
| "Math_floor NegInfinity = NegInfinity"

fun isFinite :: "jsvalue \<Rightarrow> bool" where
  "isFinite (Number (Num x)) = True"
| "isFinite v = False"

text \<open>\<^verbatim>\<open>!seconds\<close>: \<^verbatim>\<open>undefined\<close>, \<^verbatim>\<open>NaN\<close> and zero are falsy.\<close>

fun falsy :: "jsvalue \<Rightarrow> bool" where
  "falsy Undefined = True"
| "falsy (Number NaN) = True"
| "falsy (Number (Num x)) = (x = 0)"
| "falsy (Number n) = False"

text \<open>Decimal digits of a natural number.\<close>

fun digits :: "nat \<Rightarrow> string" where
  "digits n = (if n < 10 then [''0123456789'' ! n]
               else digits (n div 10) @ [''0123456789'' ! (n mod 10)])"

declare digits.simps [simp del]

text \<open>\<^verbatim>\<open>String(n)\<close> where \<open>n\<close> is the result of \<^verbatim>\<open>Math.floor\<close>: an integer below
  \<open>10\<^sup>2\<^sup>1\<close> in magnitude prints as its decimal digits.\<close>

fun String_of :: "jsnumber \<Rightarrow> string" where
  "String_of (Num x) = (if x < 0 then ''-'' @ digits (nat (- \<lfloor>x\<rfloor>)) else digits (nat \<lfloor>x\<rfloor>))"
| "String_of NaN = ''NaN''"
| "String_of PosInfinity = ''Infinity''"
| "String_of NegInfinity = ''-Infinity''"

definition padStart :: "nat \<Rightarrow> char \<Rightarrow> string \<Rightarrow> string" where
  "padStart n c s = replicate (n - length s) c @ s"

text \<open>The global \<^verbatim>\<open>formatTime(seconds, includeMilliseconds = true)\<close>.\<close>

definition formatTime :: "jsvalue \<Rightarrow> bool \<Rightarrow> string" where
  "formatTime seconds includeMilliseconds =
     (let minutes = Math_floor (js_div (ToNumber seconds) 60);
          remainingSeconds = js_rem (ToNumber seconds) 60;
          baseTime = padStart 2 CHR ''0'' (String_of minutes) @ '':''
                     @ padStart 2 CHR ''0'' (String_of (Math_floor remainingSeconds))
      in if includeMilliseconds
         then let milliseconds =
                    Math_floor (js_mul (js_sub remainingSeconds (Math_floor remainingSeconds)) 1000)
              in baseTime @ ''.'' @ padStart 3 CHR ''0'' (String_of milliseconds)
         else baseTime)"

text \<open>\<^verbatim>\<open>OverlayUtils.formatTime\<close> and \<^verbatim>\<open>OverlayUtils.formatTimeWithMilliseconds\<close>.\<close>

definition OverlayUtils_formatTime :: "jsvalue \<Rightarrow> string" where
  "OverlayUtils_formatTime seconds =
     (if falsy seconds \<or> \<not> isFinite seconds then ''0:00''
      else let mins = Math_floor (js_div (ToNumber seconds) 60);
               secs = Math_floor (js_rem (ToNumber seconds) 60)
           in String_of mins @ '':'' @ padStart 2 CHR ''0'' (String_of secs))"

definition OverlayUtils_formatTimeWithMilliseconds :: "jsvalue \<Rightarrow> string" where
  "OverlayUtils_formatTimeWithMilliseconds seconds =
     (if falsy seconds \<or> \<not> isFinite seconds then ''0:00.000''
      else let mins = Math_floor (js_div (ToNumber seconds) 60);
               secs = Math_floor (js_rem (ToNumber seconds) 60);
               ms = Math_floor (js_mul (js_rem (ToNumber seconds) 1) 1000)
           in padStart 2 CHR ''0'' (String_of mins) @ '':''
              @ padStart 2 CHR ''0'' (String_of secs) @ ''.''
              @ padStart 3 CHR ''0'' (String_of ms))"

text \<open>The shapes \<^verbatim>\<open>MM:SS\<close> and \<^verbatim>\<open>MM:SS.mmm\<close>: decimal digits around the separators.\<close>

definition is_digit :: "char \<Rightarrow> bool" where
  "is_digit c = (c \<in> set ''0123456789'')"

fun shape_MM_SS :: "string \<Rightarrow> bool" where
  "shape_MM_SS [m1, m2, c, s1, s2] =
     (is_digit m1 \<and> is_digit m2 \<and> c = CHR '':'' \<and> is_digit s1 \<and> is_digit s2)"
| "shape_MM_SS s = False"

fun shape_MM_SS_mmm :: "string \<Rightarrow> bool" where
  "shape_MM_SS_mmm [m1, m2, c, s1, s2, d, k1, k2, k3] =
     (shape_MM_SS [m1, m2, c, s1, s2] \<and> d = CHR ''.'' \<and> is_digit k1 \<and> is_digit k2 \<and> is_digit k3)"
| "shape_MM_SS_mmm s = False"

section \<open>Selection/Trim Controller: \<^verbatim>\<open>VideoEditor\<close>\<close>

text \<open>Arithmetic and comparison of the numbers the editor holds. Finite values are exact
  rationals; \<^verbatim>\<open>NaN\<close> passes through every operation and makes every comparison false.
  Zero carries no sign here: a quotient by zero takes the sign of the dividend, as for the
  positive zero a bounding rectangle reports.\<close>

definition js_quot :: "rat \<Rightarrow> rat \<Rightarrow> jsnumber" where
  "js_quot x y =
     (if y = 0 then (if x = 0 then NaN else if 0 < x then PosInfinity else NegInfinity)
      else Num (x / y))"

fun js_times :: "jsnumber \<Rightarrow> jsnumber \<Rightarrow> jsnumber" where
  "js_times (Num x) (Num y) = Num (x * y)"
| "js_times NaN b = NaN"
| "js_times a NaN = NaN"
| "js_times PosInfinity (Num y) =
     (if y = 0 then NaN else if 0 < y then PosInfinity else NegInfinity)"
| "js_times NegInfinity (Num y) =
     (if y = 0 then NaN else if 0 < y then NegInfinity else PosInfinity)"
| "js_times (Num x) PosInfinity =
     (if x = 0 then NaN else if 0 < x then PosInfinity else NegInfinity)"
| "js_times (Num x) NegInfinity =
     (if x = 0 then NaN else if 0 < x then NegInfinity else PosInfinity)"
| "js_times PosInfinity PosInfinity = PosInfinity"
| "js_times PosInfinity NegInfinity = NegInfinity"
| "js_times NegInfinity PosInfinity = NegInfinity"
| "js_times NegInfinity NegInfinity = PosInfinity"

fun Math_max :: "jsnumber \<Rightarrow> jsnumber \<Rightarrow> jsnumber" where
  "Math_max (Num x) (Num y) = Num (max x y)"
| "Math_max NaN b = NaN"
| "Math_max a NaN = NaN"
| "Math_max PosInfinity b = PosInfinity"
| "Math_max a PosInfinity = PosInfinity"
| "Math_max NegInfinity b = b"
| "Math_max a NegInfinity = a"

text \<open>\<^verbatim>\<open>a < b\<close>, \<^verbatim>\<open>a > b\<close> and \<^verbatim>\<open>a >= b\<close>\<close>

fun js_less :: "jsnumber \<Rightarrow> jsnumber \<Rightarrow> bool" where
  "js_less (Num x) (Num y) = (x < y)"
| "js_less NaN b = False"
| "js_less a NaN = False"
| "js_less a NegInfinity = False"
| "js_less PosInfinity b = False"
| "js_less NegInfinity b = True"
| "js_less (Num x) PosInfinity = True"

definition js_greater :: "jsnumber \<Rightarrow> jsnumber \<Rightarrow> bool" where
  "js_greater a b = js_less b a"

definition js_greater_eq :: "jsnumber \<Rightarrow> jsnumber \<Rightarrow> bool" where
  "js_greater_eq a b = (js_less b a \<or> (a = b \<and> a \<noteq> NaN))"

text \<open>The fields of the editor that the selection workflow reads and writes. A bound is
  \<open>None\<close> when the source holds \<^verbatim>\<open>null\<close>. \<open>videoPlayer_duration\<close> is what the media
  element reports: \<^verbatim>\<open>NaN\<close> until the metadata of its source is loaded.
  \<open>notifications\<close> collects the messages passed to \<^verbatim>\<open>showNotification\<close> and
  \<open>trimRequests\<close> the arguments of the calls of \<^verbatim>\<open>window.electronAPI.trimVideo\<close>.\<close>

record videoEditor =
  ve_startTime :: "jsnumber option"
  ve_endTime :: "jsnumber option"
  isSelectionModeActive :: bool
  videoPlayer_duration :: jsnumber
  notifications :: "string list"
  trimRequests :: "(string \<times> jsnumber option \<times> jsnumber option) list"

text \<open>\<^verbatim>\<open>markSelectionEnd(e)\<close>, with \<^verbatim>\<open>e.clientX\<close> and the timeline's bounding rectangle
  (finite numbers, the width not negative). The redraw of the selection and the activation
  of the handles are left to the visual components.\<close>

definition markSelectionEnd :: "rat \<Rightarrow> rat \<Rightarrow> rat \<Rightarrow> videoEditor \<Rightarrow> videoEditor" where
  "markSelectionEnd clientX rect_left rect_width s =
     (case ve_startTime s of
        None \<Rightarrow> s
      | Some startTime' \<Rightarrow>
          if \<not> isSelectionModeActive s then s
          else let x = clientX - rect_left;
                   percentage = js_quot x rect_width;
                   clickTime = js_times percentage (videoPlayer_duration s)
               in s\<lparr>ve_endTime := Some (Math_max startTime' clickTime)\<rparr>)"

definition showNotification :: "string \<Rightarrow> videoEditor \<Rightarrow> videoEditor" where
  "showNotification msg s = s\<lparr>notifications := notifications s @ [msg]\<rparr>"

definition validateSelection :: "videoEditor \<Rightarrow> bool \<times> videoEditor" where
  "validateSelection s =
     (case (ve_startTime s, ve_endTime s) of
        (Some startTime', Some endTime') \<Rightarrow>
          if js_greater_eq startTime' endTime'
          then (False, showNotification ''start must be before end'' s)
          else if js_less startTime' (Num 0) \<or> js_greater endTime' (videoPlayer_duration s)
          then (False, showNotification ''selection outside the video'' s)
          else if js_less (js_sub endTime' startTime') (Num (1 / 2))
          then (False, showNotification ''selection shorter than 0.5 seconds'' s)
          else (True, s)
      | _ \<Rightarrow> (False, showNotification ''select a range first'' s))"

text \<open>How a promise that \<^verbatim>\<open>cut()\<close> awaits settles.\<close>

datatype 'a settled = Fulfilled 'a | Rejected string

text \<open>What \<^verbatim>\<open>cut()\<close> meets outside the editor: the \<^verbatim>\<open>videoPaths\<close> entry of the current
  video (\<open>None\<close> when there is none), whether the current URL is a blob URL, whether
  \<^verbatim>\<open>getVideoBlob\<close> yields a blob (it resolves to \<^verbatim>\<open>null\<close> otherwise and never rejects),
  how \<^verbatim>\<open>videoBlob.arrayBuffer()\<close> and \<^verbatim>\<open>saveTempFile\<close> settle, and what the handlers
  that run while \<^verbatim>\<open>cut()\<close> is suspended at each \<^verbatim>\<open>await\<close> of the blob branch do to the
  editor.\<close>

record cutContext =
  videoPath :: "string option"
  urlIsBlob :: bool
  blobAvailable :: bool
  arrayBuffer :: "unit settled"
  tempFileResult :: "string option settled"
  during_getVideoBlob :: "videoEditor \<Rightarrow> videoEditor"
  during_arrayBuffer :: "videoEditor \<Rightarrow> videoEditor"
  during_saveTempFile :: "videoEditor \<Rightarrow> videoEditor"

text \<open>\<^verbatim>\<open>!inputPath\<close>: \<^verbatim>\<open>undefined\<close>, \<^verbatim>\<open>null\<close> and the empty string are falsy.\<close>

definition no_path :: "string option \<Rightarrow> bool" where
  "no_path p = (p = None \<or> p = Some [])"

text \<open>The call of \<^verbatim>\<open>window.electronAPI.trimVideo\<close>, whose argument reads the bounds the
  editor holds at that moment.\<close>

definition requestTrim :: "string option \<Rightarrow> videoEditor \<Rightarrow> videoEditor" where
  "requestTrim inputPath s =
     (case inputPath of
        None \<Rightarrow> showNotification ''video path not found'' s
      | Some path \<Rightarrow>
          if path = [] then showNotification ''video path not found'' s
          else s\<lparr>trimRequests := trimRequests s @ [(path, ve_startTime s, ve_endTime s)]\<rparr>)"

text \<open>\<^verbatim>\<open>cut()\<close> up to the request to the transcoding service; hiding the playhead and the
  progress bar is left to the visual components. A rejection of an awaited promise outside
  the \<^verbatim>\<open>try\<close> block leaves \<^verbatim>\<open>cut()\<close> as an exception.\<close>

definition cut_selection :: "cutContext \<Rightarrow> videoEditor \<Rightarrow> videoEditor completion" where
  "cut_selection ctx s =
     (case validateSelection s of
        (valid, s1) \<Rightarrow>
          if \<not> valid then Normal s1
          else if no_path (videoPath ctx) \<and> urlIsBlob ctx
          then
            let s2 = during_getVideoBlob ctx s1
            in if \<not> blobAvailable ctx
               then Normal (showNotification ''could not get the video blob'' s2)
               else
                 let s3 = during_arrayBuffer ctx s2
                 in case arrayBuffer ctx of
                      Rejected err \<Rightarrow> Thrown err s3
                    | Fulfilled buffer \<Rightarrow>
                        let s4 = during_saveTempFile ctx s3
                        in case tempFileResult ctx of
                             Rejected err \<Rightarrow> Thrown err s4
                           | Fulfilled tempFile \<Rightarrow>
                               if no_path tempFile
                               then Normal (showNotification
                                              ''could not save the temporary file'' s4)
                               else Normal (requestTrim tempFile s4)
          else Normal (requestTrim (videoPath ctx) s1))"

text \<open>The effective \<open>cancelSelection\<close> of the editor (the later of the two methods of that
  name in the class), without its redraw.\<close>

definition cancelSelection :: "videoEditor \<Rightarrow> videoEditor" where
  "cancelSelection s =
     (if \<not> isSelectionModeActive s then s
      else s\<lparr>ve_startTime := Some (Num 0), ve_endTime := Some (Num 0),
             isSelectionModeActive := False\<rparr>)"

text \<open>A selection whose start was marked at 20 s of a 100 s video, the same after the
  player's source was replaced and before the new metadata arrived, and two contexts of
  \<^verbatim>\<open>cut()\<close>: a video with a known path, and a blob video during whose download the user
  presses Escape.\<close>

definition sampleEditor :: videoEditor where
  "sampleEditor = \<lparr>ve_startTime = Some (Num 20), ve_endTime = None, isSelectionModeActive = True,
                    videoPlayer_duration = Num 100, notifications = [], trimRequests = []\<rparr>"

definition reloadingEditor :: videoEditor where
  "reloadingEditor = sampleEditor\<lparr>videoPlayer_duration := NaN\<rparr>"

definition knownPath :: cutContext where
  "knownPath = \<lparr>videoPath = Some ''in.mp4'', urlIsBlob = False, blobAvailable = False,
                 arrayBuffer = Fulfilled (), tempFileResult = Fulfilled None,
                 during_getVideoBlob = (\<lambda>s. s),
                 during_arrayBuffer = (\<lambda>s. s), during_saveTempFile = (\<lambda>s. s)\<rparr>"

definition blobCancelled :: cutContext where
  "blobCancelled = \<lparr>videoPath = None, urlIsBlob = True, blobAvailable = True,
                     arrayBuffer = Fulfilled (), tempFileResult = Fulfilled (Some ''tmp.mp4''),
                     during_getVideoBlob = cancelSelection,
                     during_arrayBuffer = (\<lambda>s. s), during_saveTempFile = (\<lambda>s. s)\<rparr>"

section \<open>Visual State Manager: \<^verbatim>\<open>VisualStateManager\<close>\<close>

text \<open>The values held by the sections of the visual state, and a section as an object:
  an association list with one pair per own key. \<^verbatim>\<open>obj[key]\<close> of a missing key is
  \<^verbatim>\<open>undefined\<close>; \<^verbatim>\<open>a !== b\<close> holds for different values and for \<^verbatim>\<open>NaN\<close> against
  itself.\<close>

datatype jsval = JUndefined | JBool bool | JNum rat | JNaN | JStr string

type_synonym jsobject = "(string \<times> jsval) list"

definition getProp :: "jsobject \<Rightarrow> string \<Rightarrow> jsval" where
  "getProp obj key = (case map_of obj key of None \<Rightarrow> JUndefined | Some v \<Rightarrow> v)"

definition strict_neq :: "jsval \<Rightarrow> jsval \<Rightarrow> bool" where
  "strict_neq a b = (a \<noteq> b \<or> a = JNaN)"

definition Object_keys :: "jsobject \<Rightarrow> string list" where
  "Object_keys obj = map fst obj"

definition Object_assign :: "jsobject \<Rightarrow> jsobject \<Rightarrow> jsobject" where
  "Object_assign target source = fold (\<lambda>(key, v) t. AList.update key v t) source target"

record dirtyFlags =
  d_playhead :: bool
  d_progress :: bool
  d_selection :: bool
  d_timeline :: bool
  d_body :: bool
  d_markers :: bool
  d_overlays :: bool

record performance =
  updateCount :: nat
  skippedUpdates :: nat
  lastUpdateTime :: nat

text \<open>The argument of \<open>setState\<close>: a section that is present carries \<open>Some\<close> object, the
  two map sections \<open>Some\<close> list of pairs of an id and an object.\<close>

record updates =
  u_playhead :: "jsobject option"
  u_progress :: "jsobject option"
  u_selection :: "jsobject option"
  u_timeline :: "jsobject option"
  u_body :: "jsobject option"
  u_markers :: "(string \<times> jsobject) list option"
  u_overlays :: "(string \<times> jsobject) list option"

text \<open>The manager. \<open>pendingFrames\<close> counts the callbacks handed to
  \<^verbatim>\<open>requestAnimationFrame\<close> that have not run yet; \<open>dom\<close> is whatever the apply steps
  render into.\<close>

record 'd vsm =
  st_playhead :: jsobject
  st_progress :: jsobject
  st_selection :: jsobject
  st_timeline :: jsobject
  st_body :: jsobject
  st_markers :: "(string \<times> jsobject) list"
  st_overlays :: "(string \<times> jsobject) list"
  dirtyFlags :: dirtyFlags
  performance :: performance
  batchUpdatePending :: bool
  isApplyingState :: bool
  pendingFrames :: nat
  vsm_console :: "logEntry list"
  dom :: 'd

datatype stateSection = Playhead | Progress | Selection | Timeline | Body | Markers | Overlays

text \<open>The per-section apply functions (\<^verbatim>\<open>applyPlayheadState\<close> to
  \<^verbatim>\<open>applyOverlayStates\<close>) are a parameter: a step may render, call back into the manager
  synchronously, or raise.\<close>

type_synonym 'd applier = "stateSection \<Rightarrow> 'd vsm \<Rightarrow> 'd vsm completion"

text \<open>\<open>hasObjectChanged\<close>; both arguments are objects here, so the guard
  \<^verbatim>\<open>!current || !incoming\<close> is false.\<close>

definition hasObjectChanged :: "jsobject \<Rightarrow> jsobject \<Rightarrow> bool" where
  "hasObjectChanged current incoming =
     list_ex (\<lambda>key. strict_neq (getProp current key) (getProp incoming key)) (Object_keys incoming)"

fun dirty :: "stateSection \<Rightarrow> 'd vsm \<Rightarrow> bool" where
  "dirty Playhead s = d_playhead (dirtyFlags s)"
| "dirty Progress s = d_progress (dirtyFlags s)"
| "dirty Selection s = d_selection (dirtyFlags s)"
| "dirty Timeline s = d_timeline (dirtyFlags s)"
| "dirty Body s = d_body (dirtyFlags s)"
| "dirty Markers s = d_markers (dirtyFlags s)"
| "dirty Overlays s = d_overlays (dirtyFlags s)"

fun setDirty :: "stateSection \<Rightarrow> bool \<Rightarrow> 'd vsm \<Rightarrow> 'd vsm" where
  "setDirty Playhead b s = s\<lparr>dirtyFlags := (dirtyFlags s)\<lparr>d_playhead := b\<rparr>\<rparr>"
| "setDirty Progress b s = s\<lparr>dirtyFlags := (dirtyFlags s)\<lparr>d_progress := b\<rparr>\<rparr>"
| "setDirty Selection b s = s\<lparr>dirtyFlags := (dirtyFlags s)\<lparr>d_selection := b\<rparr>\<rparr>"
| "setDirty Timeline b s = s\<lparr>dirtyFlags := (dirtyFlags s)\<lparr>d_timeline := b\<rparr>\<rparr>"
| "setDirty Body b s = s\<lparr>dirtyFlags := (dirtyFlags s)\<lparr>d_body := b\<rparr>\<rparr>"
| "setDirty Markers b s = s\<lparr>dirtyFlags := (dirtyFlags s)\<lparr>d_markers := b\<rparr>\<rparr>"
| "setDirty Overlays b s = s\<lparr>dirtyFlags := (dirtyFlags s)\<lparr>d_overlays := b\<rparr>\<rparr>"

text \<open>One block of \<open>detectChanges\<close> for an object section: when the section is present,
  diff it, store the outcome in its dirty flag and accumulate it.\<close>

definition detectObject ::
  "stateSection \<Rightarrow> jsobject \<Rightarrow> jsobject option \<Rightarrow> bool \<times> 'd vsm \<Rightarrow> bool \<times> 'd vsm" where
  "detectObject sec current incoming = (\<lambda>(hasChanges, s).
     case incoming of
       None \<Rightarrow> (hasChanges, s)
     | Some inc \<Rightarrow>
         let changed = hasObjectChanged current inc
         in (changed \<or> hasChanges, setDirty sec changed s))"

text \<open>One block of \<open>detectChanges\<close> for a map section: when present, always dirty.\<close>

definition detectMap ::
  "stateSection \<Rightarrow> (string \<times> jsobject) list option \<Rightarrow> bool \<times> 'd vsm \<Rightarrow> bool \<times> 'd vsm" where
  "detectMap sec incoming = (\<lambda>(hasChanges, s).
     case incoming of
       None \<Rightarrow> (hasChanges, s)
     | Some inc \<Rightarrow> (True, setDirty sec True s))"

definition detectChanges :: "updates \<Rightarrow> 'd vsm \<Rightarrow> bool \<times> 'd vsm" where
  "detectChanges upd s =
     (detectMap Overlays (u_overlays upd)
       (detectMap Markers (u_markers upd)
         (detectObject Body (st_body s) (u_body upd)
           (detectObject Timeline (st_timeline s) (u_timeline upd)
             (detectObject Selection (st_selection s) (u_selection upd)
               (detectObject Progress (st_progress s) (u_progress upd)
                 (detectObject Playhead (st_playhead s) (u_playhead upd) (False, s))))))))"

definition assignOpt :: "jsobject \<Rightarrow> jsobject option \<Rightarrow> jsobject" where
  "assignOpt target incoming =
     (case incoming of None \<Rightarrow> target | Some inc \<Rightarrow> Object_assign target inc)"

text \<open>\<^verbatim>\<open>map.set(id, { ...map.get(id), ...data })\<close> for every pair of the incoming map.\<close>

definition mergeMap ::
  "(string \<times> jsobject) list \<Rightarrow> (string \<times> jsobject) list option \<Rightarrow> (string \<times> jsobject) list" where
  "mergeMap target incoming =
     (case incoming of
        None \<Rightarrow> target
      | Some inc \<Rightarrow>
          fold (\<lambda>(ident, data) m.
                  AList.update ident
                    (Object_assign
                       (Object_assign [] (case map_of m ident of None \<Rightarrow> [] | Some old \<Rightarrow> old))
                       data) m)
               inc target)"

definition updateState :: "updates \<Rightarrow> 'd vsm \<Rightarrow> 'd vsm" where
  "updateState upd s =
     s\<lparr>st_playhead := assignOpt (st_playhead s) (u_playhead upd),
       st_progress := assignOpt (st_progress s) (u_progress upd),
       st_selection := assignOpt (st_selection s) (u_selection upd),
       st_timeline := assignOpt (st_timeline s) (u_timeline upd),
       st_body := assignOpt (st_body s) (u_body upd),
       st_markers := mergeMap (st_markers s) (u_markers upd),
       st_overlays := mergeMap (st_overlays s) (u_overlays upd)\<rparr>"

definition resetDirtyFlags :: "'d vsm \<Rightarrow> 'd vsm" where
  "resetDirtyFlags s =
     s\<lparr>dirtyFlags := \<lparr>d_playhead = False, d_progress = False, d_selection = False,
                       d_timeline = False, d_body = False, d_markers = False,
                       d_overlays = False\<rparr>\<rparr>"

definition vsm_warn :: "string \<Rightarrow> 'd vsm \<Rightarrow> 'd vsm" where
  "vsm_warn msg s = s\<lparr>vsm_console := vsm_console s @ [LogWarn msg]\<rparr>"

definition sections :: "stateSection list" where
  "sections = [Playhead, Progress, Selection, Timeline, Body, Markers, Overlays]"

text \<open>The body of the \<^verbatim>\<open>try\<close> block of \<open>applyState\<close>; \<open>now\<close> is \<^verbatim>\<open>Date.now()\<close>.\<close>

definition applyDirty :: "'d applier \<Rightarrow> nat \<Rightarrow> 'd vsm \<Rightarrow> 'd vsm completion" where
  "applyDirty step now s =
     (case forEach (\<lambda>sec t. if dirty sec t then step sec t else Normal t) sections
             (s\<lparr>performance := (performance s)\<lparr>updateCount := updateCount (performance s) + 1,
                                               lastUpdateTime := now\<rparr>\<rparr>) of
        Normal t \<Rightarrow> Normal (resetDirtyFlags t)
      | Thrown err t \<Rightarrow> Thrown err t)"

definition applyState :: "'d applier \<Rightarrow> nat \<Rightarrow> 'd vsm \<Rightarrow> 'd vsm completion" where
  "applyState step now s =
     (if isApplyingState s
      then Normal (vsm_warn ''applyState already running - recursive call ignored'' s)
      else try_finally (applyDirty step now) (\<lambda>t. t\<lparr>isApplyingState := False\<rparr>)
             (s\<lparr>isApplyingState := True\<rparr>))"

definition scheduleBatchUpdate :: "'d vsm \<Rightarrow> 'd vsm" where
  "scheduleBatchUpdate s =
     (if batchUpdatePending s then s
      else s\<lparr>batchUpdatePending := True, pendingFrames := pendingFrames s + 1\<rparr>)"

text \<open>The callback that \<open>scheduleBatchUpdate\<close> hands to \<^verbatim>\<open>requestAnimationFrame\<close>.\<close>

definition animationFrame :: "'d applier \<Rightarrow> nat \<Rightarrow> 'd vsm \<Rightarrow> 'd vsm completion" where
  "animationFrame step now s =
     (case applyState step now (s\<lparr>pendingFrames := pendingFrames s - 1\<rparr>) of
        Normal t \<Rightarrow>
          Normal (t\<lparr>batchUpdatePending := False,
                    performance := (performance t)\<lparr>updateCount := updateCount (performance t) + 1,
                                                     lastUpdateTime := now\<rparr>\<rparr>)
      | Thrown err t \<Rightarrow> Thrown err t)"

definition setState :: "'d applier \<Rightarrow> nat \<Rightarrow> updates \<Rightarrow> bool \<Rightarrow> 'd vsm \<Rightarrow> 'd vsm completion" where
  "setState step now upd batch s =
     (if isApplyingState s
      then Normal (vsm_warn ''VisualStateManager is applying state - recursive call ignored'' s)
      else case detectChanges upd s of
             (hasChanges, s1) \<Rightarrow>
               if \<not> hasChanges
               then Normal (s1\<lparr>performance :=
                               (performance s1)\<lparr>skippedUpdates := skippedUpdates (performance s1) + 1\<rparr>\<rparr>)
               else let s2 = updateState upd s1
                    in if batch then Normal (scheduleBatchUpdate s2)
                       else applyState step now s2)"

subsection \<open>Reference notions for the manager's properties\<close>

text \<open>An apply step that calls \<open>setState\<close> synchronously, as a subscriber reacting to a
  render would.\<close>

definition reentrant :: "'d applier \<Rightarrow> nat \<Rightarrow> updates \<Rightarrow> bool \<Rightarrow> 'd applier" where
  "reentrant inner now upd batch = (\<lambda>sec. setState inner now upd batch)"

text \<open>An apply step that only renders: it completes normally and writes nothing but
  \<open>dom\<close>. The apply functions of the source are of this kind whenever they do not raise:
  they set CSS custom properties and toggle classes.\<close>

definition renders_only :: "'d applier \<Rightarrow> bool" where
  "renders_only step = (\<forall>sec s. \<exists>d. step sec s = Normal (s\<lparr>dom := d\<rparr>))"

text \<open>A payload without the two map sections, whose objects have one pair per key and no
  \<^verbatim>\<open>NaN\<close> value.\<close>

definition plain_object :: "jsobject \<Rightarrow> bool" where
  "plain_object obj = (distinct (map fst obj) \<and> JNaN \<notin> snd ` set obj)"

definition plain_opt :: "jsobject option \<Rightarrow> bool" where
  "plain_opt incoming = (case incoming of None \<Rightarrow> True | Some obj \<Rightarrow> plain_object obj)"

definition diffable :: "updates \<Rightarrow> bool" where
  "diffable upd =
     (u_markers upd = None \<and> u_overlays upd = None \<and> plain_opt (u_playhead upd)
      \<and> plain_opt (u_progress upd) \<and> plain_opt (u_selection upd)
      \<and> plain_opt (u_timeline upd) \<and> plain_opt (u_body upd))"

text \<open>The manager as the source initialises it, over a render target \<open>d\<close>.\<close>

definition initialVsm :: "'d \<Rightarrow> 'd vsm" where
  "initialVsm d =
     \<lparr>st_playhead = [(''position'', JNum 0), (''display'', JStr ''block''),
                     (''isDragging'', JBool False), (''isHidden'', JBool False),
                     (''cursor'', JStr ''grab'')],
      st_progress = [(''width'', JNum 0), (''display'', JStr ''block''),
                     (''isHidden'', JBool False)],
      st_selection = [(''left'', JNum 0), (''width'', JNum 0), (''display'', JStr ''none''),
                      (''isActive'', JBool False), (''isSelectionMode'', JBool False),
                      (''isMoving'', JBool False), (''startHandleVisible'', JBool False),
                      (''endHandleVisible'', JBool False)],
      st_timeline = [(''cursor'', JStr ''default''), (''isSelecting'', JBool False)],
      st_body = [(''cursor'', JStr ''default'')],
      st_markers = [], st_overlays = [],
      dirtyFlags = \<lparr>d_playhead = False, d_progress = False, d_selection = False,
                     d_timeline = False, d_body = False, d_markers = False,
                     d_overlays = False\<rparr>,
      performance = \<lparr>updateCount = 0, skippedUpdates = 0, lastUpdateTime = 0\<rparr>,
      batchUpdatePending = False, isApplyingState = False, pendingFrames = 0,
      vsm_console = [], dom = d\<rparr>"

definition emptyUpdates :: updates where
  "emptyUpdates = \<lparr>u_playhead = None, u_progress = None, u_selection = None,
                    u_timeline = None, u_body = None, u_markers = None, u_overlays = None\<rparr>"

text \<open>An apply step that does nothing, and one that appends the section to a render log.\<close>

definition noRender :: "'d applier" where
  "noRender = (\<lambda>sec s. Normal s)"

definition logRender :: "stateSection list applier" where
  "logRender = (\<lambda>sec s. Normal (s\<lparr>dom := dom s @ [sec]\<rparr>))"

definition failingRender :: "'d applier" where
  "failingRender = (\<lambda>sec s. Thrown ''TypeError'' s)"

text \<open>Whether a present object section differs from the current one, whether any does, and
  the dirty flag a section is left with by \<open>detectChanges\<close>.\<close>

definition changedOpt :: "jsobject \<Rightarrow> jsobject option \<Rightarrow> bool" where
  "changedOpt current incoming =
     (case incoming of None \<Rightarrow> False | Some inc \<Rightarrow> hasObjectChanged current inc)"

definition any_changed :: "updates \<Rightarrow> 'd vsm \<Rightarrow> bool" where
  "any_changed upd s =
     (changedOpt (st_playhead s) (u_playhead upd) \<or> changedOpt (st_progress s) (u_progress upd)
      \<or> changedOpt (st_selection s) (u_selection upd) \<or> changedOpt (st_timeline s) (u_timeline upd)
      \<or> changedOpt (st_body s) (u_body upd))"

definition flagAfter :: "bool \<Rightarrow> jsobject \<Rightarrow> jsobject option \<Rightarrow> bool" where
  "flagAfter old current incoming =
     (case incoming of None \<Rightarrow> old | Some inc \<Rightarrow> hasObjectChanged current inc)"

definition flagsAfter :: "updates \<Rightarrow> 'd vsm \<Rightarrow> dirtyFlags" where
  "flagsAfter upd s =
     \<lparr>d_playhead = flagAfter (d_playhead (dirtyFlags s)) (st_playhead s) (u_playhead upd),
      d_progress = flagAfter (d_progress (dirtyFlags s)) (st_progress s) (u_progress upd),
      d_selection = flagAfter (d_selection (dirtyFlags s)) (st_selection s) (u_selection upd),
      d_timeline = flagAfter (d_timeline (dirtyFlags s)) (st_timeline s) (u_timeline upd),
      d_body = flagAfter (d_body (dirtyFlags s)) (st_body s) (u_body upd),
      d_markers = d_markers (dirtyFlags s),
      d_overlays = d_overlays (dirtyFlags s)\<rparr>"

definition cleanFlags :: dirtyFlags where
  "cleanFlags = \<lparr>d_playhead = False, d_progress = False, d_selection = False,
                  d_timeline = False, d_body = False, d_markers = False, d_overlays = False\<rparr>"

text \<open>Sample states and payloads.\<close>

definition idleVsm :: "stateSection list vsm" where
  "idleVsm = initialVsm []"

definition busyVsm :: "stateSection list vsm" where
  "busyVsm = (initialVsm [])\<lparr>isApplyingState := True\<rparr>"

definition dirtyVsm :: "stateSection list vsm" where
  "dirtyVsm = setDirty Playhead True (initialVsm [])"

definition playheadAt50 :: updates where
  "playheadAt50 = emptyUpdates\<lparr>u_playhead := Some [(''position'', JNum 50)]\<rparr>"

definition progressAt7 :: updates where
  "progressAt7 = emptyUpdates\<lparr>u_progress := Some [(''width'', JNum 7)]\<rparr>"

definition markerSelected :: updates where
  "markerSelected = emptyUpdates\<lparr>u_markers := Some [(''A'', [(''selected'', JBool True)])]\<rparr>"

section \<open>Timeline elements and selection\<close>

text \<open>A marker or overlay element of the timeline. \<open>ref\<close> is the identity of the element
  object; \<open>parentNode\<close> tells whether it has a parent and \<open>inDocument\<close> whether
  \<^verbatim>\<open>document.querySelector\<close> can reach it. \<open>style_left\<close> and \<open>style_width\<close> are the
  percentages that \<^verbatim>\<open>parseFloat\<close> reads from \<^verbatim>\<open>style.left\<close> and \<^verbatim>\<open>style.width\<close>; the
  \<open>data_\<close> fields are the \<^verbatim>\<open>data-*\<close> attributes, an absent \<^verbatim>\<open>data-id\<close> being the empty
  string. The geometry is finite, so the \<^verbatim>\<open>isNaN\<close> guards of the keyboard handlers never
  fire.\<close>

record element =
  ref :: nat
  classList :: "string list"
  parentNode :: bool
  inDocument :: bool
  style_left :: rat
  style_width :: rat
  data_id :: string
  data_label :: string
  data_start :: rat
  data_duration :: rat
  data_time :: rat

record dragState =
  isDragging :: bool
  isDraggingPlayhead :: bool
  ds_element :: "nat option"
  initialX :: rat
  initialLeft :: rat
  initialWidth :: rat
  interactionType :: "string option"
  isResizing :: bool
  resizeHandle :: "string option"

text \<open>\<^verbatim>\<open>timelineState\<close> with the objects its handlers reach: the elements (those of the
  document in document order), the Overlay Store, the editor, and the duration of the
  video player, \<open>None\<close> when there is no player or its duration is falsy.\<close>

record 'e timeline =
  elements :: "element list"
  selectedOverlay :: "nat option"
  dragState :: dragState
  currentMarkers :: "(string \<times> rat) list"
  overlayState :: "'e overlayState"
  editor :: videoEditor
  videoDuration :: "rat option"
  tl_console :: "logEntry list"

definition contains :: "string \<Rightarrow> element \<Rightarrow> bool" where
  "contains c el = (c \<in> set (classList el))"

definition classList_add :: "string \<Rightarrow> element \<Rightarrow> element" where
  "classList_add c el = (if c \<in> set (classList el) then el else el\<lparr>classList := classList el @ [c]\<rparr>)"

definition classList_remove :: "string list \<Rightarrow> element \<Rightarrow> element" where
  "classList_remove cs el = el\<lparr>classList := filter (\<lambda>c. c \<notin> set cs) (classList el)\<rparr>"

text \<open>Dereferencing an element reference, and writing through one.\<close>

definition element_of :: "nat \<Rightarrow> 'e timeline \<Rightarrow> element option" where
  "element_of r w = find (\<lambda>el. ref el = r) (elements w)"

definition updateElement :: "nat \<Rightarrow> (element \<Rightarrow> element) \<Rightarrow> 'e timeline \<Rightarrow> 'e timeline" where
  "updateElement r f w = w\<lparr>elements := map (\<lambda>el. if ref el = r then f el else el) (elements w)\<rparr>"

text \<open>\<^verbatim>\<open>document.querySelectorAll('.overlay-segment.c')\<close> and
  \<^verbatim>\<open>document.querySelector\<close>, which yields the first match.\<close>

definition querySelectorAll :: "string list \<Rightarrow> 'e timeline \<Rightarrow> element list" where
  "querySelectorAll cs w =
     filter (\<lambda>el. inDocument el \<and> contains ''overlay-segment'' el \<and> (\<exists>c \<in> set cs. contains c el))
            (elements w)"

definition querySelector :: "string \<Rightarrow> 'e timeline \<Rightarrow> element option" where
  "querySelector c w = (case querySelectorAll [c] w of [] \<Rightarrow> None | el # rest \<Rightarrow> Some el)"

definition tl_warn :: "string \<Rightarrow> 'e timeline \<Rightarrow> 'e timeline" where
  "tl_warn msg w = w\<lparr>tl_console := tl_console w @ [LogWarn msg]\<rparr>"

definition tl_error :: "string \<Rightarrow> 'e timeline \<Rightarrow> 'e timeline" where
  "tl_error msg w = w\<lparr>tl_console := tl_console w @ [LogError msg]\<rparr>"

text \<open>\<open>getValidatedSelectedOverlay\<close>: the result and the state it leaves.\<close>

definition getValidatedSelectedOverlay :: "'e timeline \<Rightarrow> nat option \<times> 'e timeline" where
  "getValidatedSelectedOverlay w =
     (if (case selectedOverlay w of
            None \<Rightarrow> False
          | Some r \<Rightarrow> (case element_of r w of None \<Rightarrow> False | Some el \<Rightarrow> parentNode el))
      then (selectedOverlay w, w)
      else case querySelector ''selected'' w of
             Some selectedViaCSS \<Rightarrow>
               (Some (ref selectedViaCSS), w\<lparr>selectedOverlay := Some (ref selectedViaCSS)\<rparr>)
           | None \<Rightarrow>
               (case querySelector ''keyboard-active'' w of
                  Some keyboardActive \<Rightarrow>
                    (Some (ref keyboardActive),
                     (updateElement (ref keyboardActive) (classList_add ''selected'') w)
                       \<lparr>selectedOverlay := Some (ref keyboardActive)\<rparr>)
                | None \<Rightarrow> (None, tl_warn ''no selected overlay found'' w)))"

text \<open>\<open>syncSelectedOverlayStates\<close>. The \<^verbatim>\<open>forEach\<close> runs over the node list that
  \<^verbatim>\<open>querySelectorAll\<close> returned.\<close>

definition syncSelectedOverlayStates :: "nat option \<Rightarrow> 'e timeline \<Rightarrow> 'e timeline" where
  "syncSelectedOverlayStates overlayElement w =
     (case overlayElement of
        None \<Rightarrow>
          (let w1 = w\<lparr>selectedOverlay := None\<rparr>
           in fold (\<lambda>el. updateElement (ref el) (classList_remove [''selected'', ''keyboard-active'']))
                   (querySelectorAll [''selected'', ''keyboard-active''] w1) w1)
      | Some r \<Rightarrow>
          (let w1 = w\<lparr>selectedOverlay := Some r\<rparr>;
               w2 = updateElement r (classList_add ''selected'') w1;
               w3 = updateElement r (classList_add ''keyboard-active'') w2
           in fold (\<lambda>el w'. if ref el \<noteq> r
                              then updateElement (ref el)
                                     (classList_remove [''selected'', ''keyboard-active'']) w'
                              else w')
                   (querySelectorAll [''selected'', ''keyboard-active''] w3) w3))"

subsection \<open>Reference notions for the selection properties\<close>

text \<open>No overlay segment of the document other than \<open>keep\<close> carries a selection marker.\<close>

definition only_marked :: "nat option \<Rightarrow> 'e timeline \<Rightarrow> bool" where
  "only_marked keep w =
     (\<forall>el \<in> set (elements w).
        inDocument el \<and> contains ''overlay-segment'' el \<and> Some (ref el) \<noteq> keep \<longrightarrow>
        \<not> contains ''selected'' el \<and> \<not> contains ''keyboard-active'' el)"

definition distinct_refs :: "'e timeline \<Rightarrow> bool" where
  "distinct_refs w = distinct (map ref (elements w))"

definition attached :: "nat \<Rightarrow> 'e timeline \<Rightarrow> bool" where
  "attached r w = (case element_of r w of None \<Rightarrow> False | Some el \<Rightarrow> parentNode el)"

text \<open>Sample timelines: three overlay segments of which the second is selected and the
  third keyboard-active; and one whose only segment has been removed from the document.\<close>

definition sampleElement :: "nat \<Rightarrow> string list \<Rightarrow> element" where
  "sampleElement r cs =
     \<lparr>ref = r, classList = ''overlay-segment'' # cs, parentNode = True, inDocument = True,
      style_left = 10, style_width = 5, data_id = ''a'', data_label = ''Overlay 1'',
      data_start = 10, data_duration = 5, data_time = 0\<rparr>"

definition idleDrag :: dragState where
  "idleDrag = \<lparr>isDragging = False, isDraggingPlayhead = False, ds_element = None,
               initialX = 0, initialLeft = 0, initialWidth = 0, interactionType = None,
               isResizing = False, resizeHandle = None\<rparr>"

definition idleEditor :: videoEditor where
  "idleEditor = \<lparr>ve_startTime = Some (Num 0), ve_endTime = Some (Num 0),
                  isSelectionModeActive = False, videoPlayer_duration = Num 100,
                  notifications = [], trimRequests = []\<rparr>"

definition timelineWith :: "element list \<Rightarrow> overlay list \<Rightarrow> unit timeline" where
  "timelineWith els ovs =
     \<lparr>elements = els, selectedOverlay = None, dragState = idleDrag, currentMarkers = [],
      overlayState = (initialState ())\<lparr>overlays := ovs, currentProject_overlays := Some (map overlayData ovs)\<rparr>,
      editor = idleEditor, videoDuration = Some 100, tl_console = []\<rparr>"

definition sampleTimeline :: "unit timeline" where
  "sampleTimeline =
     timelineWith [sampleElement 1 [], sampleElement 2 [''selected''],
                   sampleElement 3 [''keyboard-active'']] []"

definition detachedTimeline :: "unit timeline" where
  "detachedTimeline =
     timelineWith [(sampleElement 1 [])\<lparr>parentNode := False, inDocument := False\<rparr>,
                   sampleElement 2 []] []"

section \<open>Marker and overlay drag/resize controller\<close>

text \<open>\<^verbatim>\<open>videoPlayer && videoPlayer.duration ? videoPlayer.duration : 100\<close>\<close>

definition duration_or_100 :: "'e timeline \<Rightarrow> rat" where
  "duration_or_100 w = (case videoDuration w of Some d \<Rightarrow> d | None \<Rightarrow> 100)"

text \<open>A call into the Overlay Store from a handler of the timeline.\<close>

definition withStore ::
  "('e overlayState \<Rightarrow> 'e overlayState completion) \<Rightarrow> 'e timeline \<Rightarrow> 'e timeline completion" where
  "withStore f w =
     (case f (overlayState w) of
        Normal s \<Rightarrow> Normal (w\<lparr>overlayState := s\<rparr>)
      | Thrown err s \<Rightarrow> Thrown err (w\<lparr>overlayState := s\<rparr>))"

text \<open>\<^verbatim>\<open>s.includes(sub)\<close>\<close>

fun str_includes :: "string \<Rightarrow> string \<Rightarrow> bool" where
  "str_includes sub [] = (sub = [])"
| "str_includes sub (c # cs) = (take (length sub) (c # cs) = sub \<or> str_includes sub cs)"

text \<open>The element a reference of the drag state points to; \<open>None\<close> for \<^verbatim>\<open>null\<close>.\<close>

definition deref :: "nat option \<Rightarrow> 'e timeline \<Rightarrow> element option" where
  "deref x w = (case x of None \<Rightarrow> None | Some r \<Rightarrow> element_of r w)"

definition resetDragState :: "'e timeline \<Rightarrow> 'e timeline" where
  "resetDragState w =
     w\<lparr>dragState := \<lparr>isDragging = False, isDraggingPlayhead = False, ds_element = None,
                      initialX = 0, initialLeft = 0, initialWidth = 0, interactionType = None,
                      isResizing = False, resizeHandle = None\<rparr>\<rparr>"

text \<open>\<open>restoreDefaultCursor\<close>, as far as it touches the overlay segments.\<close>

definition restoreDefaultCursor :: "'e timeline \<Rightarrow> 'e timeline" where
  "restoreDefaultCursor w =
     fold (\<lambda>el. updateElement (ref el) (classList_remove [''resizing-left'', ''resizing-right'', ''moving'']))
          (querySelectorAll [''overlay-segment''] w) w"

definition endCurrentInteraction :: "'e timeline \<Rightarrow> 'e timeline" where
  "endCurrentInteraction w =
     (if \<not> isDragging (dragState w) then w
      else case ds_element (dragState w) of
             None \<Rightarrow> w
           | Some r \<Rightarrow>
               let w1 = updateElement r
                          (classList_remove [''dragging'', ''moving'', ''resizing'',
                                             ''resizing-left'', ''resizing-right'']) w;
                   w2 = restoreDefaultCursor w1;
                   w3 = (case element_of r w2 of
                           None \<Rightarrow> w2
                         | Some el \<Rightarrow> if contains ''selected'' el
                                       then syncSelectedOverlayStates (Some r) w2 else w2)
               in resetDragState w3)"

text \<open>\<open>updateUnifiedCursor\<close>, as far as it touches the element.\<close>

definition updateUnifiedCursor :: "string \<Rightarrow> element \<Rightarrow> element" where
  "updateUnifiedCursor t el =
     (let el1 = classList_remove [''resizing-left'', ''resizing-right'', ''moving''] el
      in if t = ''resize-left'' then classList_add ''resizing-left'' el1
         else if t = ''resize-right'' then classList_add ''resizing-right'' el1
         else if t = ''move'' then classList_add ''moving'' el1
         else el1)"

text \<open>\<open>startOverlayInteraction(element, interactionType, clientX)\<close>\<close>

definition startOverlayInteraction :: "nat \<Rightarrow> string \<Rightarrow> rat \<Rightarrow> 'e timeline \<Rightarrow> 'e timeline" where
  "startOverlayInteraction r t clientX w =
     (let w1 = (if isDragging (dragState w) then endCurrentInteraction w else w)
      in case element_of r w1 of
           None \<Rightarrow> w1
         | Some el \<Rightarrow>
             let ds = (dragState w1)
                        \<lparr>isDragging := True, ds_element := Some r, initialX := clientX,
                         initialLeft := style_left el, initialWidth := style_width el,
                         interactionType := Some t, isResizing := str_includes ''resize'' t,
                         resizeHandle := (if str_includes ''resize'' t
                                          then Some (if t = ''resize-left'' then ''left'' else ''right'')
                                          else resizeHandle (dragState w1))\<rparr>;
                 decorate = (\<lambda>el. updateUnifiedCursor t
                               ((if t = ''move'' then classList_add ''moving''
                                 else if str_includes ''resize'' t then classList_add ''resizing''
                                 else (\<lambda>el. el))
                                  (classList_remove [''keyboard-active'']
                                     (classList_add ''dragging'' el))))
             in updateElement r decorate (w1\<lparr>dragState := ds\<rparr>))"

text \<open>The partial objects the handlers pass to \<open>updateOverlay\<close>.\<close>

definition startChanges :: "rat \<Rightarrow> overlayChanges" where
  "startChanges newTime = noChanges\<lparr>c_startTime := Some newTime, c_start := Some newTime\<rparr>"

definition resizeChanges :: "rat \<Rightarrow> rat \<Rightarrow> rat \<Rightarrow> overlayChanges" where
  "resizeChanges newStartTime newDuration newEndTime =
     noChanges\<lparr>c_startTime := Some newStartTime, c_duration := Some newDuration,
               c_start := Some newStartTime, c_end := Some newEndTime\<rparr>"

definition durationChanges :: "rat \<Rightarrow> overlayChanges" where
  "durationChanges newDuration = noChanges\<lparr>c_duration := Some newDuration\<rparr>"

text \<open>\<open>handleOverlayResize(resizeType, deltaPercent)\<close>; \<open>trackWidth\<close> is what
  \<^verbatim>\<open>dimensionCache.getTrackWidth()\<close> returns at this call. The time indicators it shows
  on the element are not represented.\<close>

definition handleOverlayResize ::
  "string \<Rightarrow> rat \<Rightarrow> rat \<Rightarrow> 'e timeline \<Rightarrow> 'e timeline completion" where
  "handleOverlayResize resizeType deltaPercent trackWidth w =
     (case deref (ds_element (dragState w)) w of
        None \<Rightarrow> Normal (tl_warn ''handleOverlayResize: invalid overlay element'' w)
      | Some element \<Rightarrow>
          if \<not> contains ''overlay-segment'' element
          then Normal (tl_warn ''handleOverlayResize: invalid overlay element'' w)
          else
            let duration' = duration_or_100 w;
                timelineWidth = trackWidth
            in if timelineWidth \<le> 0 then Normal (tl_error ''invalid timelineWidth'' w)
               else
                 let initialLeft' = initialLeft (dragState w);
                     initialWidth' = initialWidth (dragState w);
                     newLeft = (if resizeType = ''resize-left''
                                then max 0 (min (initialLeft' + (deltaPercent / 100) * 100)
                                                (initialLeft' + initialWidth' - 1))
                                else initialLeft');
                     newWidth = (if resizeType = ''resize-left''
                                 then initialWidth' - (newLeft - initialLeft')
                                 else if resizeType = ''resize-right''
                                 then max 1 (min (initialWidth' + deltaPercent) (100 - initialLeft'))
                                 else initialWidth');
                     newStartTime = (newLeft / 100) * duration';
                     newEndTime = ((newLeft + newWidth) / 100) * duration';
                     newDuration = newEndTime - newStartTime;
                     w1 = updateElement (ref element)
                            (\<lambda>el. el\<lparr>style_left := newLeft, style_width := newWidth,
                                      data_start := newStartTime, data_duration := newDuration\<rparr>) w;
                     overlayId = data_id element
                 in if overlayId \<noteq> []
                    then withStore (updateOverlay overlayId
                                      (resizeChanges newStartTime newDuration newEndTime)) w1
                    else Normal w1)"

text \<open>\<open>handleAdvancedMouseMove(e)\<close> with \<^verbatim>\<open>e.clientX\<close>. The playhead branch acts on the
  playhead's visual state only, which this record does not hold. Reading
  \<^verbatim>\<open>dragState.element.classList\<close> of a \<^verbatim>\<open>null\<close> element raises.\<close>

definition handleAdvancedMouseMove :: "rat \<Rightarrow> rat \<Rightarrow> 'e timeline \<Rightarrow> 'e timeline completion" where
  "handleAdvancedMouseMove clientX trackWidth w =
     (if \<not> isDragging (dragState w) then Normal w
      else if isDraggingPlayhead (dragState w) then Normal w
      else
        let deltaX = clientX - initialX (dragState w)
        in if trackWidth \<le> 0 then Normal (tl_error ''invalid trackWidth'' w)
           else
             let deltaPercent = (deltaX / trackWidth) * 100
             in case deref (ds_element (dragState w)) w of
                  None \<Rightarrow> Thrown ''TypeError'' w
                | Some element \<Rightarrow>
                    if contains ''marker-item'' element
                    then
                      let newPosition = max 0 (min 100 (initialLeft (dragState w) + deltaPercent));
                          newTime = (newPosition / 100) * duration_or_100 w;
                          w1 = updateElement (ref element)
                                 (\<lambda>el. el\<lparr>style_left := newPosition, data_time := newTime\<rparr>) w
                      in Normal (w1\<lparr>currentMarkers :=
                                      AList.update (data_label element) newTime (currentMarkers w1)\<rparr>)
                    else if contains ''overlay-segment'' element
                    then
                      (if interactionType (dragState w) = Some ''resize-left''
                          \<or> interactionType (dragState w) = Some ''resize-right''
                       then handleOverlayResize (case interactionType (dragState w) of
                                                   Some t \<Rightarrow> t | None \<Rightarrow> [])
                              deltaPercent trackWidth w
                       else
                         let newPosition = max 0 (min 100 (initialLeft (dragState w) + deltaPercent));
                             newTime = (newPosition / 100) * duration_or_100 w;
                             w1 = updateElement (ref element)
                                    (\<lambda>el. el\<lparr>style_left := newPosition, data_start := newTime\<rparr>) w;
                             overlayId = data_id element
                         in if overlayId \<noteq> []
                            then withStore (updateOverlay overlayId (startChanges newTime)) w1
                            else Normal w1)
                    else Normal w)"

text \<open>\<open>handleAdvancedMouseUp(e)\<close>\<close>

definition handleAdvancedMouseUp :: "'e timeline \<Rightarrow> 'e timeline completion" where
  "handleAdvancedMouseUp w =
     (if \<not> isDragging (dragState w) then Normal w
      else if isDraggingPlayhead (dragState w)
      then Normal (w\<lparr>dragState := (dragState w)\<lparr>isDraggingPlayhead := False\<rparr>\<rparr>)
      else case deref (ds_element (dragState w)) w of
             None \<Rightarrow> Thrown ''TypeError'' w
           | Some element \<Rightarrow>
               let synced =
                     (if contains ''overlay-segment'' element
                      then
                        let overlayId = data_id element;
                            finalStartTime = data_start element
                        in if overlayId \<noteq> []
                           then (case getOverlay overlayId (overlayState w) of
                                   Some overlayInState \<Rightarrow>
                                     withStore (updateOverlay overlayId (startChanges finalStartTime)) w
                                 | None \<Rightarrow> Normal (tl_warn ''overlay not found in OverlayState'' w))
                           else Normal w
                      else Normal w)
               in case synced of
                    Thrown err w1 \<Rightarrow> Thrown err w1
                  | Normal w1 \<Rightarrow>
                      let w2 = updateElement (ref element) (classList_remove [''dragging'']) w1
                      in Normal (w2\<lparr>dragState := (dragState w2)\<lparr>isDragging := False,
                                                                   ds_element := None\<rparr>\<rparr>))"

subsection \<open>Keyboard equivalents\<close>

text \<open>\<open>moveSelectedOverlay(direction, isLargeStep)\<close>; the playhead follows the overlay in
  the visual components.\<close>

definition moveSelectedOverlay :: "string \<Rightarrow> bool \<Rightarrow> 'e timeline \<Rightarrow> 'e timeline completion" where
  "moveSelectedOverlay direction isLargeStep w =
     (case getValidatedSelectedOverlay w of
        (None, w0) \<Rightarrow> Normal (tl_warn ''no selected overlay'' w0)
      | (Some r, w0) \<Rightarrow>
          (case element_of r w0 of
             None \<Rightarrow> Thrown ''TypeError'' w0
           | Some selectedOverlay' \<Rightarrow>
               let step = (if isLargeStep then 5 else 1);
                   currentPosition = style_left selectedOverlay';
                   currentWidth = style_width selectedOverlay';
                   newPosition = (if direction = ''left'' then max 0 (currentPosition - step)
                                  else min (100 - currentWidth) (currentPosition + step));
                   w1 = updateElement r (\<lambda>el. el\<lparr>style_left := newPosition\<rparr>) w0;
                   overlayId = data_id selectedOverlay'
               in if overlayId \<noteq> []
                  then withStore (updateOverlay overlayId
                                    (startChanges ((newPosition / 100) * duration_or_100 w0))) w1
                  else Normal (tl_warn ''could not update OverlayState'' w1)))"

text \<open>\<open>resizeSelectedOverlay(direction, isLargeStep)\<close>\<close>

definition resizeSelectedOverlay :: "string \<Rightarrow> bool \<Rightarrow> 'e timeline \<Rightarrow> 'e timeline completion" where
  "resizeSelectedOverlay direction isLargeStep w =
     (case getValidatedSelectedOverlay w of
        (None, w0) \<Rightarrow> Normal (tl_warn ''no selected overlay'' w0)
      | (Some r, w0) \<Rightarrow>
          (case element_of r w0 of
             None \<Rightarrow> Thrown ''TypeError'' w0
           | Some selectedOverlay' \<Rightarrow>
               let step = (if isLargeStep then 5 else 1);
                   currentWidth = style_width selectedOverlay';
                   currentPosition = style_left selectedOverlay';
                   newWidth = (if direction = ''left'' then max 5 (currentWidth - step)
                               else min (100 - currentPosition) (currentWidth + step));
                   w1 = updateElement r (\<lambda>el. el\<lparr>style_width := newWidth\<rparr>) w0;
                   overlayId = data_id selectedOverlay'
               in if overlayId \<noteq> []
                  then withStore (updateOverlay overlayId
                                    (durationChanges ((newWidth / 100) * duration_or_100 w0))) w1
                  else Normal (tl_warn ''could not update OverlayState'' w1)))"

subsection \<open>The Escape key\<close>

text \<open>A \<^verbatim>\<open>keydown\<close> of Escape on the document. The editor's keyboard handler is the only
  listener with a branch for this key besides those that close a modal dialog; it ignores
  keys typed into an input field.\<close>

definition handleEscapeKey :: "bool \<Rightarrow> 'e timeline \<Rightarrow> 'e timeline" where
  "handleEscapeKey targetIsInput w =
     (if targetIsInput then w
      else if isSelectionModeActive (editor w) then w\<lparr>editor := cancelSelection (editor w)\<rparr>
      else w)"

subsection \<open>Reference notions for the drag properties\<close>

text \<open>The geometry of the element a reference points to.\<close>

definition geometry :: "nat \<Rightarrow> 'e timeline \<Rightarrow> (rat \<times> rat) option" where
  "geometry r w = map_option (\<lambda>el. (style_left el, style_width el)) (element_of r w)"

text \<open>A drag of the given kind is in progress on an overlay segment with valid initial
  geometry: it lies within the track and is at least 1% wide.\<close>

definition dragging_overlay :: "nat \<Rightarrow> string \<Rightarrow> 'e timeline \<Rightarrow> bool" where
  "dragging_overlay r t w =
     (isDragging (dragState w) \<and> \<not> isDraggingPlayhead (dragState w)
      \<and> ds_element (dragState w) = Some r \<and> interactionType (dragState w) = Some t
      \<and> (case element_of r w of
            None \<Rightarrow> False
          | Some el \<Rightarrow> contains ''overlay-segment'' el \<and> \<not> contains ''marker-item'' el)
      \<and> 0 \<le> initialLeft (dragState w) \<and> 1 \<le> initialWidth (dragState w)
      \<and> initialLeft (dragState w) + initialWidth (dragState w) \<le> 100)"

text \<open>A drag of the given kind is in progress on an overlay segment, whatever its
  geometry.\<close>

definition dragging_segment :: "nat \<Rightarrow> string \<Rightarrow> 'e timeline \<Rightarrow> bool" where
  "dragging_segment r t w =
     (isDragging (dragState w) \<and> \<not> isDraggingPlayhead (dragState w)
      \<and> ds_element (dragState w) = Some r \<and> interactionType (dragState w) = Some t
      \<and> (case element_of r w of
            None \<Rightarrow> False
          | Some el \<Rightarrow> contains ''overlay-segment'' el \<and> \<not> contains ''marker-item'' el))"

text \<open>A timeline with one overlay of 20 s at 50 s of a 100 s video and its segment, and the
  same with the segment selected.\<close>

definition wideTimeline :: "unit timeline" where
  "wideTimeline =
     timelineWith [(sampleElement 1 [])\<lparr>style_left := 50, style_width := 20,
                                        data_start := 50, data_duration := 20\<rparr>]
                  [sampleOverlay ''a'' 50 20]"

definition selectedTimeline :: "unit timeline" where
  "selectedTimeline = syncSelectedOverlayStates (Some 1) wideTimeline"

definition nearEndTimeline :: "unit timeline" where
  "nearEndTimeline =
     syncSelectedOverlayStates (Some 1)
       (timelineWith [(sampleElement 1 [])\<lparr>style_left := 78, style_width := 20,
                                           data_start := 78, data_duration := 20\<rparr>]
                     [sampleOverlay ''a'' 78 20])"

text \<open>A timeline with one overlay of 5 s at 300 s of a 600 s video: its segment is less
  than 1% wide.\<close>

definition shortTimeline :: "unit timeline" where
  "shortTimeline =
     (timelineWith [(sampleElement 1 [])\<lparr>style_left := 50, style_width := 5 / 6,
                                         data_start := 300, data_duration := 5\<rparr>]
                   [sampleOverlay ''a'' 300 5])\<lparr>videoDuration := Some 600\<rparr>"

section \<open>Properties of the Overlay Store\<close>

subsection \<open>Event emission\<close>

lemma listener_step:
  "try_catch (invoke l data) (\<lambda>err t. Normal (console_error err t)) s =
     Normal (case l data (env s) of
               Normal e' \<Rightarrow> s\<lparr>env := e'\<rparr>
             | Thrown err e' \<Rightarrow> console_error err (s\<lparr>env := e'\<rparr>))"
  by (simp add: try_catch_def invoke_def split: completion.splits)

lemma forEach_caught_effect:
  "forEach (\<lambda>callback. try_catch (invoke callback data)
                     (\<lambda>err t. Normal (console_error err t))) ls s
   = Normal (s\<lparr>env := all_listeners_run ls data (env s),
                console := console s @ raised_errors ls data (env s)\<rparr>)"
proof (induction ls arbitrary: s)
  case Nil
  show ?case by simp
next
  case (Cons l ls)
  let ?F = "\<lambda>callback. try_catch (invoke callback data) (\<lambda>err t. Normal (console_error err t))"
  let ?s1 = "case l data (env s) of
               Normal e' \<Rightarrow> s\<lparr>env := e'\<rparr>
             | Thrown err e' \<Rightarrow> console_error err (s\<lparr>env := e'\<rparr>)"
  have "forEach ?F (l # ls) s = forEach ?F ls ?s1"
    by (simp add: listener_step)
  also have "\<dots> = Normal (?s1\<lparr>env := all_listeners_run ls data (env ?s1),
                console := console ?s1 @ raised_errors ls data (env ?s1)\<rparr>)"
    by (rule Cons.IH)
  also have "\<dots> = Normal (s\<lparr>env := all_listeners_run (l # ls) data (env s),
                console := console s @ raised_errors (l # ls) data (env s)\<rparr>)"
    by (cases "l data (env s)") (simp_all add: console_error_def)
  finally show ?case .
qed

lemma emit_effect:
  "emit event data s =
     Normal (s\<lparr>env := all_listeners_run (listeners_of event s) data (env s),
                console := console s @ raised_errors (listeners_of event s) data (env s)\<rparr>)"
  by (simp add: emit_def listeners_of_def forEach_caught_effect split: option.splits)

text \<open>
  Claim C8 (listener exception isolation). For every event name, payload and store state,
  whatever the registered subscribers do: \<open>emit\<close> completes normally, so no exception of a
  handler leaves the emitter loop; every subscriber of the event's list has run, in order,
  also those registered after one that raised; each exception is logged with
  \<^verbatim>\<open>console.error\<close>, one entry per raising handler; and the store's records, active
  overlay, video state, subscriber lists and the project projection are what they were.
\<close>

theorem emit_isolates_listeners:
  "\<exists>s'. emit event data s = Normal s'
      \<and> env s' = all_listeners_run (listeners_of event s) data (env s)
      \<and> console s' = console s @ raised_errors (listeners_of event s) data (env s)
      \<and> overlays s' = overlays s
      \<and> activeOverlay s' = activeOverlay s
      \<and> videoState s' = videoState s
      \<and> eventListeners s' = eventListeners s
      \<and> currentProject_overlays s' = currentProject_overlays s"
  by (simp add: emit_effect)

subsection \<open>Clearing the store\<close>

text \<open>
  Claim C10 (\<open>clear\<close> skips the projection). For every prior state, \<open>clear\<close> empties the
  records and resets the active overlay and the video state, and it neither reconciles the
  project projection nor notifies a subscriber: \<^verbatim>\<open>currentProject.overlays\<close>, the
  subscribers' world, the subscriber lists and the console are exactly what they were
  before the call, so entries synced earlier stay in the projection of an empty store.
\<close>

theorem clear_skips_projection:
  "currentProject_overlays (clear s) = currentProject_overlays s
   \<and> env (clear s) = env s
   \<and> console (clear s) = console s
   \<and> eventListeners (clear s) = eventListeners s
   \<and> overlays (clear s) = []
   \<and> activeOverlay (clear s) = None
   \<and> videoState (clear s) = \<lparr>isReady = False, vs_duration = 0, vs_currentTime = 0\<rparr>"
  by (simp add: clear_def)

subsection \<open>Reconciliation with the project\<close>

lemma currentOverlaysMap_snoc:
  "currentOverlaysMap (po @ [p]) = AList.update (p_id p) (length po) (currentOverlaysMap po)"
  by (simp add: currentOverlaysMap_def enumerate_append_eq)

lemma currentOverlaysMap_keys:
  "fst ` set (currentOverlaysMap po) = p_id ` set po"
proof (induction po rule: rev_induct)
  case Nil
  show ?case by (simp add: currentOverlaysMap_def)
next
  case (snoc p po)
  then show ?case by (simp add: currentOverlaysMap_snoc dom_update)
qed

lemma currentOverlaysMap_index:
  "distinct (map p_id po) \<Longrightarrow> i < length po \<Longrightarrow>
   map_of (currentOverlaysMap po) (p_id (po ! i)) = Some i"
proof (induction po rule: rev_induct)
  case Nil
  then show ?case by simp
next
  case (snoc p po)
  show ?case
  proof (cases "i < length po")
    case True
    then have "po ! i \<in> set po" by simp
    with snoc.prems have "p_id (po ! i) \<noteq> p_id p" by (metis distinct_append image_eqI list.simps(9) map_append set_map list.set_intros(1) disjoint_iff)
    with True snoc show ?thesis
      by (simp add: currentOverlaysMap_snoc update_conv' nth_append)
  next
    case False
    with snoc.prems have "i = length po" by simp
    then show ?thesis by (simp add: currentOverlaysMap_snoc update_conv')
  qed
qed

lemma currentOverlaysMap_absent:
  "k \<notin> p_id ` set po \<Longrightarrow> map_of (currentOverlaysMap po) k = None"
  by (simp add: map_of_eq_None_iff currentOverlaysMap_keys)

lemma delete_key_set: "fst ` set (AList.delete k al) = fst ` set al - {k}"
  by (induction al) auto

lemma find_snoc:
  "find P (xs @ [x]) = (case find P xs of Some y \<Rightarrow> Some y | None \<Rightarrow> if P x then Some x else None)"
  by (induction xs) auto

lemma find_None_iff_ids: "find (\<lambda>ov. oid ov = k) seen = None \<longleftrightarrow> k \<notin> oid ` set seen"
  by (auto simp: find_None_iff)

lemma p_id_assignProject [simp]: "p_id (assignProject p q) = p_id q"
  by (simp add: assignProject_def)

lemma p_id_overlayData [simp]: "p_id (overlayData ov) = oid ov"
  by (simp add: overlayData_def)

lemma p_id_synced [simp]: "p_id (synced seen p) = p_id p"
  by (auto simp: synced_def split: option.splits dest: find_Some_iff[THEN iffD1])

lemma find_Some_ids: "find (\<lambda>ov. oid ov = k) seen = Some x \<Longrightarrow> k \<in> oid ` set seen"
  by (auto simp: find_Some_iff)

lemma synced_snoc:
  "synced (seen @ [ov]) p =
     (if p_id p \<in> oid ` set seen then synced seen p
      else if oid ov = p_id p then assignProject p (overlayData ov) else p)"
proof (cases "find (\<lambda>ov. oid ov = p_id p) seen")
  case None
  then have "p_id p \<notin> oid ` set seen" by (simp add: find_None_iff_ids)
  with None show ?thesis by (simp add: synced_def find_snoc)
next
  case (Some x)
  then have "p_id p \<in> oid ` set seen" by (rule find_Some_ids)
  with Some show ?thesis by (simp add: synced_def find_snoc)
qed

lemma synced_absent: "p_id p \<notin> oid ` set seen \<Longrightarrow> synced seen p = p"
  by (simp add: synced_def find_None_iff_ids[THEN iffD2])

lemma synced_Nil [simp]: "synced [] p = p"
  by (simp add: synced_def)

lemma loop_inv_init: "loop_inv po [] (po, currentOverlaysMap po)"
  by (simp add: loop_inv_def appended_def currentOverlaysMap_keys map_idI)

lemma loop_inv_step:
  assumes inv: "loop_inv po seen st"
    and dpo: "distinct (map p_id po)"
    and fresh: "oid ov \<notin> oid ` set seen"
  shows "loop_inv po (seen @ [ov]) (syncOverlay ov st)"
proof (cases "oid ov \<in> p_id ` set po")
  case True
  then obtain i where i: "i < length po" "p_id (po ! i) = oid ov"
    by (auto simp: in_set_conv_nth)
  obtain po' m' where st: "st = (po', m')" by (cases st)
  from inv st have po': "po' = map (synced seen) po @ appended po seen"
    and m': "map_of m' = (\<lambda>k. if k \<in> oid ` set seen then None else map_of (currentOverlaysMap po) k)"
    and keys: "fst ` set m' = p_id ` set po - oid ` set seen"
    by (simp_all add: loop_inv_def)
  have look: "map_of m' (oid ov) = Some i"
    using m' fresh currentOverlaysMap_index[OF dpo i(1)] i(2) by simp
  have at_i: "po' ! i = po ! i"
    using i fresh by (simp add: po' nth_append synced_absent)
  have upd: "(map (synced seen) po)[i := assignProject (po ! i) (overlayData ov)]
             = map (synced (seen @ [ov])) po"
  proof (rule nth_equalityI)
    show "length ((map (synced seen) po)[i := assignProject (po ! i) (overlayData ov)])
          = length (map (synced (seen @ [ov])) po)" by simp
  next
    fix j assume "j < length ((map (synced seen) po)[i := assignProject (po ! i) (overlayData ov)])"
    then have j: "j < length po" by simp
    show "(map (synced seen) po)[i := assignProject (po ! i) (overlayData ov)] ! j
          = map (synced (seen @ [ov])) po ! j"
    proof (cases "j = i")
      case True
      then show ?thesis using i fresh by (simp add: synced_snoc)
    next
      case False
      with dpo i j have "p_id (po ! j) \<noteq> oid ov"
        by (metis distinct_conv_nth length_map nth_map)
      with False j show ?thesis by (simp add: synced_snoc synced_absent)
    qed
  qed
  have app: "appended po (seen @ [ov]) = appended po seen"
    using True by (simp add: appended_def)
  have "syncOverlay ov st =
          (po'[i := assignProject (po' ! i) (overlayData ov)], AList.delete (oid ov) m')"
    by (simp add: syncOverlay_def st look)
  moreover have "po'[i := assignProject (po' ! i) (overlayData ov)]
                 = map (synced (seen @ [ov])) po @ appended po (seen @ [ov])"
    unfolding at_i using i(1) by (simp add: po' list_update_append upd app)
  moreover have "map_of (AList.delete (oid ov) m') =
      (\<lambda>k. if k \<in> oid ` set (seen @ [ov]) then None else map_of (currentOverlaysMap po) k)"
    by (auto simp: delete_conv' m' fun_eq_iff)
  moreover have "fst ` set (AList.delete (oid ov) m') = p_id ` set po - oid ` set (seen @ [ov])"
    by (simp add: delete_key_set keys) blast
  ultimately show ?thesis
    by (simp add: loop_inv_def)
next
  case False
  obtain po' m' where st: "st = (po', m')" by (cases st)
  from inv st have po': "po' = map (synced seen) po @ appended po seen"
    and m': "map_of m' = (\<lambda>k. if k \<in> oid ` set seen then None else map_of (currentOverlaysMap po) k)"
    and keys: "fst ` set m' = p_id ` set po - oid ` set seen"
    by (simp_all add: loop_inv_def)
  have look: "map_of m' (oid ov) = None"
    using m' False by (simp add: currentOverlaysMap_absent)
  have same: "map (synced (seen @ [ov])) po = map (synced seen) po"
    using False by (auto simp: synced_snoc synced_absent)
  have app: "appended po (seen @ [ov]) = appended po seen @ [overlayData ov]"
    using False by (simp add: appended_def)
  have "syncOverlay ov st = (po' @ [overlayData ov], m')"
    by (simp add: syncOverlay_def st look)
  then show ?thesis
    using m' keys False
    by (auto simp: loop_inv_def po' same app fun_eq_iff currentOverlaysMap_absent)
qed

lemma loop_inv_fold:
  "loop_inv po seen st \<Longrightarrow> distinct (map p_id po) \<Longrightarrow> distinct (map oid (seen @ rest)) \<Longrightarrow>
   loop_inv po (seen @ rest) (fold syncOverlay rest st)"
proof (induction rest arbitrary: seen st)
  case Nil
  then show ?case by simp
next
  case (Cons ov rest)
  from Cons.prems have "oid ov \<notin> oid ` set seen" by auto
  with Cons.prems have "loop_inv po (seen @ [ov]) (syncOverlay ov st)"
    by (intro loop_inv_step) simp_all
  moreover from Cons.prems have "distinct (map oid ((seen @ [ov]) @ rest))" by simp
  ultimately have "loop_inv po ((seen @ [ov]) @ rest) (fold syncOverlay rest (syncOverlay ov st))"
    using Cons.prems(2) by (intro Cons.IH)
  then show ?case by simp
qed


lemma reconcile_alt:
  "reconcile ovs po =
     map (synced ovs) (filter (\<lambda>p. p_id p \<in> oid ` set ovs) po) @ appended po ovs"
proof -
  have "concat (map (\<lambda>p. case find (\<lambda>ov. oid ov = p_id p) ovs of
                         Some ov \<Rightarrow> [assignProject p (overlayData ov)]
                       | None \<Rightarrow> []) po)
        = map (synced ovs) (filter (\<lambda>p. p_id p \<in> oid ` set ovs) po)"
  proof (induction po)
    case Nil
    show ?case by simp
  next
    case (Cons p po)
    show ?case
    proof (cases "find (\<lambda>ov. oid ov = p_id p) ovs")
      case None
      then have "p_id p \<notin> oid ` set ovs" by (simp add: find_None_iff_ids)
      with None Cons show ?thesis by simp
    next
      case (Some x)
      then have "p_id p \<in> oid ` set ovs" by (rule find_Some_ids)
      with Some Cons show ?thesis by (simp add: synced_def)
    qed
  qed
  then show ?thesis by (simp add: reconcile_def appended_def)
qed

lemma sync_is_reconcile:
  assumes po: "currentProject_overlays s = Some po"
    and dpo: "distinct (map p_id po)"
    and dov: "distinct (map oid (overlays s))"
  shows "syncWithProject s = s\<lparr>currentProject_overlays := Some (reconcile (overlays s) po)\<rparr>"
proof -
  obtain po' m' where f: "fold syncOverlay (overlays s) (po, currentOverlaysMap po) = (po', m')"
    by (cases "fold syncOverlay (overlays s) (po, currentOverlaysMap po)")
  have "loop_inv po ([] @ overlays s) (fold syncOverlay (overlays s) (po, currentOverlaysMap po))"
    using loop_inv_init dpo dov by (intro loop_inv_fold) simp_all
  with f have po': "po' = map (synced (overlays s)) po @ appended po (overlays s)"
    and keys: "fst ` set m' = p_id ` set po - oid ` set (overlays s)"
    by (simp_all add: loop_inv_def)
  have new: "filter (\<lambda>p. p_id p \<notin> fst ` set m') (appended po (overlays s)) = appended po (overlays s)"
    by (auto simp: keys appended_def filter_id_conv)
  have old: "filter (\<lambda>p. p_id p \<notin> fst ` set m') (map (synced (overlays s)) po)
             = map (synced (overlays s)) (filter (\<lambda>p. p_id p \<in> oid ` set (overlays s)) po)"
  proof -
    have "filter (\<lambda>p. p_id p \<notin> fst ` set m') po
          = filter (\<lambda>p. p_id p \<in> oid ` set (overlays s)) po"
      by (rule filter_cong) (auto simp: keys)
    then show ?thesis by (simp add: filter_map comp_def)
  qed
  have filt: "filter (\<lambda>p. p_id p \<notin> fst ` set m') po' = reconcile (overlays s) po"
    by (simp add: po' new old reconcile_alt)
  have "(if 0 < length (map fst m') then filter (\<lambda>p. p_id p \<notin> set (map fst m')) po' else po')
        = reconcile (overlays s) po"
  proof (cases "m' = []")
    case True
    then have "filter (\<lambda>p. p_id p \<notin> fst ` set m') po' = po'" by simp
    with True filt show ?thesis by simp
  next
    case False
    with filt show ?thesis by simp
  qed
  then show ?thesis
    by (simp add: syncWithProject_def po f)
qed


lemma same_id_same_record:
  "distinct (map oid ovs) \<Longrightarrow> x \<in> set ovs \<Longrightarrow> y \<in> set ovs \<Longrightarrow> oid x = oid y \<Longrightarrow> x = y"
  by (auto simp: distinct_map dest: inj_onD)

lemma synced_fields:
  assumes "distinct (map oid ovs)" "ov \<in> set ovs" "p_id p = oid ov"
  shows "p_start (synced ovs p) = startTime ov \<and> p_duration (synced ovs p) = duration ov"
proof (cases "find (\<lambda>ov. oid ov = p_id p) ovs")
  case None
  with assms show ?thesis by (auto simp: find_None_iff)
next
  case (Some x)
  then have "x \<in> set ovs" "oid x = p_id p" by (auto simp: find_Some_iff)
  with assms have "x = ov" by (auto intro: same_id_same_record)
  with Some show ?thesis by (simp add: synced_def assignProject_def overlayData_def)
qed

lemma reconcile_ids:
  "map p_id (reconcile ovs po) =
     filter (\<lambda>k. k \<in> oid ` set ovs) (map p_id po) @ filter (\<lambda>k. k \<notin> p_id ` set po) (map oid ovs)"
  by (simp add: reconcile_alt appended_def filter_map comp_def)

lemma reconcile_consistent:
  assumes dpo: "distinct (map p_id po)" and dov: "distinct (map oid ovs)"
  shows "distinct (map p_id (reconcile ovs po))"
    and "set (map p_id (reconcile ovs po)) = set (map oid ovs)"
    and "\<forall>ov \<in> set ovs. \<forall>p \<in> set (reconcile ovs po).
           p_id p = oid ov \<longrightarrow> p_start p = startTime ov \<and> p_duration p = duration ov"
proof -
  show "distinct (map p_id (reconcile ovs po))"
    unfolding reconcile_ids using dpo dov by (auto simp: distinct_filter)
  show "set (map p_id (reconcile ovs po)) = set (map oid ovs)"
    unfolding reconcile_ids by auto
  show "\<forall>ov \<in> set ovs. \<forall>p \<in> set (reconcile ovs po).
           p_id p = oid ov \<longrightarrow> p_start p = startTime ov \<and> p_duration p = duration ov"
  proof (intro ballI impI)
    fix ov p assume ov: "ov \<in> set ovs" and p: "p \<in> set (reconcile ovs po)" and eq: "p_id p = oid ov"
    from p consider q where "q \<in> set po" "p = synced ovs q"
      | ov' where "ov' \<in> set ovs" "p = overlayData ov'"
      by (auto simp: reconcile_alt appended_def)
    then show "p_start p = startTime ov \<and> p_duration p = duration ov"
    proof cases
      case 1
      with eq have "p_id q = oid ov" by simp
      with 1 dov ov show ?thesis by (simp add: synced_fields)
    next
      case 2
      with eq have "oid ov' = oid ov" by simp
      with 2 dov ov have "ov' = ov" by (auto intro: same_id_same_record)
      with 2 show ?thesis by (simp add: overlayData_def)
    qed
  qed
qed

lemma sync_consistent:
  assumes "currentProject_overlays s = Some po" "distinct (map p_id po)" "unique_ids s"
  shows "projection_consistent (syncWithProject s)" "unique_ids (syncWithProject s)"
  using assms reconcile_consistent[of po "overlays s"]
  by (simp_all add: sync_is_reconcile unique_ids_def projection_consistent_def)

lemma assignFirst_ids: "c_id data = None \<Longrightarrow> map oid (assignFirst ident data ovs) = map oid ovs"
  by (induction ovs) (simp_all add: assignOverlay_def)

lemma projection_consistent_console [simp]:
  "projection_consistent (s\<lparr>console := c\<rparr>) = projection_consistent s"
  by (simp add: projection_consistent_def cong: option.case_cong)

lemma projection_consistent_env [simp]:
  "projection_consistent (s\<lparr>env := e\<rparr>) = projection_consistent s"
  by (simp add: projection_consistent_def cong: option.case_cong)

lemma unique_ids_console [simp]: "unique_ids (s\<lparr>console := c\<rparr>) = unique_ids s"
  by (simp add: unique_ids_def)

lemma unique_ids_env [simp]: "unique_ids (s\<lparr>env := e\<rparr>) = unique_ids s"
  by (simp add: unique_ids_def)

lemma call_preserves:
  assumes u: "unique_ids s" and c: "projection_consistent s" and k: "keeps_ids_unique c s"
  shows "\<exists>s'. call c s = Normal s' \<and> unique_ids s' \<and> projection_consistent s'"
proof -
  from c obtain po where po: "currentProject_overlays s = Some po" and dpo: "distinct (map p_id po)"
    by (auto simp: projection_consistent_def split: option.splits)
  show ?thesis
  proof (cases c)
    case (AddOverlay generated overlay)
    let ?ov = "if oid overlay = [] then overlay\<lparr>oid := generated\<rparr> else overlay"
    let ?s1 = "s\<lparr>overlays := overlays s @ [?ov]\<rparr>"
    from k u AddOverlay have "unique_ids ?s1" by (auto simp: unique_ids_def)
    moreover have "currentProject_overlays ?s1 = Some po" using po by simp
    ultimately have "projection_consistent (syncWithProject ?s1)" "unique_ids (syncWithProject ?s1)"
      using dpo by (rule sync_consistent[rotated 2])+
    with AddOverlay show ?thesis by (simp add: addOverlay_def Let_def)
  next
    case (RemoveOverlay ident)
    let ?s1 = "s\<lparr>overlays := filter (\<lambda>ov. oid ov \<noteq> ident) (overlays s)\<rparr>"
    from u have "unique_ids ?s1" by (simp add: unique_ids_def distinct_map_filter)
    moreover have "currentProject_overlays ?s1 = Some po" using po by simp
    ultimately have "projection_consistent (syncWithProject ?s1)" "unique_ids (syncWithProject ?s1)"
      using dpo by (rule sync_consistent[rotated 2])+
    with RemoveOverlay show ?thesis by (simp add: removeOverlay_def)
  next
    case (UpdateOverlay ident data)
    with k have noid: "c_id data = None" by simp
    show ?thesis
    proof (cases "find (\<lambda>ov. oid ov = ident) (overlays s)")
      case None
      with UpdateOverlay u c show ?thesis
        by (simp add: updateOverlay_def console_warn_def)
    next
      case (Some overlay)
      let ?s1 = "s\<lparr>overlays := assignFirst ident data (overlays s)\<rparr>"
      from u noid have "unique_ids ?s1" by (simp add: unique_ids_def assignFirst_ids)
      moreover have "currentProject_overlays ?s1 = Some po" using po by simp
      ultimately have "projection_consistent (syncWithProject ?s1)" "unique_ids (syncWithProject ?s1)"
        using dpo by (rule sync_consistent[rotated 2])+
      with UpdateOverlay Some show ?thesis
        by (simp add: updateOverlay_def Let_def emit_effect)
    qed
  qed
qed

lemma calls_preserve:
  "unique_ids s \<Longrightarrow> projection_consistent s \<Longrightarrow> admissible cs s \<Longrightarrow>
   \<exists>s'. calls cs s = Normal s' \<and> unique_ids s' \<and> projection_consistent s'"
proof (induction cs arbitrary: s)
  case Nil
  then show ?case by simp
next
  case (Cons c cs)
  from Cons.prems obtain s1 where s1: "call c s = Normal s1" "unique_ids s1" "projection_consistent s1"
    using call_preserves[of s c] by auto
  with Cons.prems have "admissible cs s1" by simp
  with s1 Cons.IH[of s1] show ?case by simp
qed


lemmas store_defs = addOverlay_def removeOverlay_def updateOverlay_def
  syncWithProject_def syncOverlay_def currentOverlaysMap_def overlayData_def assignProject_def
  assignOverlay_def initialState_def sampleOverlay_def noChanges_def emit_def console_warn_def
  AList.delete_eq sampleEntry_def

text \<open>
  Claim C2 as stated fails. \<open>addOverlay\<close> accepts a record whose id is already in the
  store; the lookup map of \<open>syncWithProject\<close> is built before the loop and never learns of
  an entry it pushes, so every later reconciliation pushes one more entry for the second
  record of that id: after two adds of id \<open>a\<close> and one further mutation, the projection
  holds three entries of id \<open>a\<close> for two store records.
\<close>

theorem projection_duplicate_id_counterexample:
  "map_option (map p_id) (currentProject_overlays (final_state
      (calls [AddOverlay ''g1'' (sampleOverlay ''a'' 10 5),
              AddOverlay ''g2'' (sampleOverlay ''a'' 20 5),
              RemoveOverlay ''zzz''] (initialState ()))))
     = Some [''a'', ''a'', ''a'']
   \<and> map oid (overlays (final_state
      (calls [AddOverlay ''g1'' (sampleOverlay ''a'' 10 5),
              AddOverlay ''g2'' (sampleOverlay ''a'' 20 5),
              RemoveOverlay ''zzz''] (initialState ())))) = [''a'', ''a'']
   \<and> \<not> projection_consistent (final_state
      (calls [AddOverlay ''g1'' (sampleOverlay ''a'' 10 5),
              AddOverlay ''g2'' (sampleOverlay ''a'' 20 5),
              RemoveOverlay ''zzz''] (initialState ())))"
  by (simp add: store_defs projection_consistent_def Let_def)

text \<open>
  Claim C2, amended (store/projection consistency). From a state whose store ids are unique
  and whose projection is consistent with it (the initial state is one), every sequence of
  add/update/remove calls in which each add brings an id that is not in the store yet
  (given, or generated when absent) and no update rewrites the id completes and leaves the
  projection with exactly one entry per store id, carrying the record's \<open>startTime\<close> and
  \<open>duration\<close> as \<open>start\<close> and \<open>duration\<close>. And on a store with unique ids and a
  projection with unique ids, \<open>syncWithProject\<close> is the id-based diff \<open>reconcile\<close>:
  entries of surviving ids are updated where they stand and keep their other properties,
  entries of vanished ids are removed, records of new ids are appended.
\<close>

theorem store_projection_consistent:
  "(unique_ids s \<and> projection_consistent s \<and> admissible cs s \<longrightarrow>
      (\<exists>s'. calls cs s = Normal s' \<and> unique_ids s' \<and> projection_consistent s'))
   \<and> (unique_ids t \<and> currentProject_overlays t = Some po \<and> distinct (map p_id po) \<longrightarrow>
      syncWithProject t = t\<lparr>currentProject_overlays := Some (reconcile (overlays t) po)\<rparr>)"
  using calls_preserve[of s cs] sync_is_reconcile[of t po]
  by (auto simp: unique_ids_def)


lemma sample_admissible:
  "unique_ids (initialState ()) \<and> projection_consistent (initialState ())
   \<and> admissible sampleCalls (initialState ())"
  by (simp add: store_defs sampleCalls_def unique_ids_def projection_consistent_def Let_def)

lemma sample_state_ok:
  "unique_ids sampleState \<and> currentProject_overlays sampleState = Some sampleProjection
   \<and> distinct (map p_id sampleProjection)"
  by (simp add: store_defs sampleState_def sampleProjection_def unique_ids_def)

lemma sample_diff_not_rebuild:
  "map p_id (reconcile (overlays sampleState) sampleProjection) = [''b'', ''a'', ''c'']
   \<and> map p_id (rebuild (overlays sampleState)) = [''a'', ''b'', ''c'']
   \<and> map p_other (reconcile (overlays sampleState) sampleProjection)
       = [[(''end'', ''1'')], [(''end'', ''1'')], []]"
  by (simp add: store_defs sampleState_def sampleProjection_def reconcile_def rebuild_def)

theorem store_projection_consistent_witness:
  "unique_ids (initialState ()) \<and> projection_consistent (initialState ())
   \<and> admissible sampleCalls (initialState ())
   \<and> (\<exists>s'. calls sampleCalls (initialState ()) = Normal s' \<and> unique_ids s'
            \<and> projection_consistent s')
   \<and> unique_ids sampleState \<and> currentProject_overlays sampleState = Some sampleProjection
   \<and> distinct (map p_id sampleProjection)
   \<and> syncWithProject sampleState
       = sampleState\<lparr>currentProject_overlays :=
                        Some (reconcile (overlays sampleState) sampleProjection)\<rparr>"
  using store_projection_consistent[of "initialState ()" sampleCalls sampleState sampleProjection]
    sample_admissible sample_state_ok
  by blast

section \<open>Properties of the time formatting\<close>

lemma formatTime_samples:
  "formatTime (Number (Num 0)) True = ''00:00.000''
   \<and> formatTime (Number (Num (59999/1000))) True = ''00:59.999''
   \<and> formatTime (Number (Num 60)) True = ''01:00.000''
   \<and> formatTime (Number (Num 0)) False = ''00:00''
   \<and> formatTime (Number (Num (59999/1000))) False = ''00:59''
   \<and> formatTime (Number (Num 60)) False = ''01:00''"
  by code_simp

lemma formatTime_samples_shape:
  "shape_MM_SS_mmm (formatTime (Number (Num 0)) True)
   \<and> shape_MM_SS_mmm (formatTime (Number (Num (59999/1000))) True)
   \<and> shape_MM_SS_mmm (formatTime (Number (Num 60)) True)
   \<and> shape_MM_SS (formatTime (Number (Num 0)) False)
   \<and> shape_MM_SS (formatTime (Number (Num (59999/1000))) False)
   \<and> shape_MM_SS (formatTime (Number (Num 60)) False)"
  by code_simp

lemma formatTime_outside_shape:
  "formatTime (Number (Num (-1))) False = ''-1:-1''
   \<and> formatTime (Number (Num 6000)) False = ''100:00''"
  by code_simp

lemma OverlayUtils_formatTime_samples:
  "OverlayUtils_formatTime (Number (Num 0)) = ''0:00''
   \<and> OverlayUtils_formatTime (Number (Num 75)) = ''1:15''
   \<and> OverlayUtils_formatTimeWithMilliseconds (Number NaN) = ''0:00.000''
   \<and> OverlayUtils_formatTimeWithMilliseconds (Number (Num (59999/1000))) = ''00:59.999''"
  by code_simp

lemma digit_char: "k < 10 \<Longrightarrow> is_digit (''0123456789'' ! k)"
  by (simp add: is_digit_def del: set_simps)

lemma digits_one: "n < 10 \<Longrightarrow> digits n = [''0123456789'' ! n]"
  by (subst digits.simps) simp

lemma digits_two: "10 \<le> n \<Longrightarrow> n < 100 \<Longrightarrow>
  digits n = [''0123456789'' ! (n div 10), ''0123456789'' ! (n mod 10)]"
  by (subst digits.simps) (simp add: digits_one)

lemma digits_three:
  assumes "100 \<le> n" "n < 1000"
  shows "digits n = [''0123456789'' ! (n div 100), ''0123456789'' ! (n div 10 mod 10),
              ''0123456789'' ! (n mod 10)]"
proof -
  from assms have a: "10 \<le> n div 10" "n div 10 < 100" by simp_all
  have b: "n div 10 div 10 = n div 100" by (simp add: div_mult2_eq[symmetric])
  from assms have "digits n = digits (n div 10) @ [''0123456789'' ! (n mod 10)]"
    by (subst digits.simps) simp
  with digits_two[OF a] b show ?thesis by simp
qed

lemma pad2_shape:
  assumes "n < 100"
  shows "\<exists>a b. padStart 2 CHR ''0'' (digits n) = [a, b] \<and> is_digit a \<and> is_digit b"
proof (cases "n < 10")
  case True
  then have "padStart 2 CHR ''0'' (digits n) = [CHR ''0'', ''0123456789'' ! n]"
    by (simp add: padStart_def digits_one)
  moreover have "is_digit CHR ''0''" by (simp add: is_digit_def)
  ultimately show ?thesis using True digit_char by simp
next
  case False
  with assms have "padStart 2 CHR ''0'' (digits n)
      = [''0123456789'' ! (n div 10), ''0123456789'' ! (n mod 10)]"
    by (simp add: padStart_def digits_two)
  moreover from assms have "n div 10 < 10" "n mod 10 < 10" by simp_all
  ultimately show ?thesis using digit_char by simp
qed

lemma pad3_shape:
  assumes "n < 1000"
  shows "\<exists>a b c. padStart 3 CHR ''0'' (digits n) = [a, b, c]
           \<and> is_digit a \<and> is_digit b \<and> is_digit c"
proof -
  have z: "is_digit CHR ''0''" by (simp add: is_digit_def)
  consider "n < 10" | "10 \<le> n" "n < 100" | "100 \<le> n" using assms by linarith
  then show ?thesis
  proof cases
    case 1
    then have "padStart 3 CHR ''0'' (digits n) = [CHR ''0'', CHR ''0'', ''0123456789'' ! n]"
      by (simp add: padStart_def digits_one numeral_2_eq_2)
    with 1 z digit_char show ?thesis by simp
  next
    case 2
    then have "padStart 3 CHR ''0'' (digits n)
        = [CHR ''0'', ''0123456789'' ! (n div 10), ''0123456789'' ! (n mod 10)]"
      by (simp add: padStart_def digits_two)
    moreover from 2 have "n div 10 < 10" "n mod 10 < 10" by simp_all
    ultimately show ?thesis using z digit_char by simp
  next
    case 3
    with assms have "padStart 3 CHR ''0'' (digits n)
        = [''0123456789'' ! (n div 100), ''0123456789'' ! (n div 10 mod 10),
              ''0123456789'' ! (n mod 10)]"
      by (simp add: padStart_def digits_three)
    moreover from assms have "n div 100 < 10" "n div 10 mod 10 < 10" "n mod 10 < 10" by simp_all
    ultimately show ?thesis using digit_char by simp
  qed
qed

text \<open>On a finite argument from 0 up to, but excluding, 6000 seconds the global
  \<open>formatTime\<close> yields the shape \<^verbatim>\<open>MM:SS\<close>, and \<^verbatim>\<open>MM:SS.mmm\<close> with milliseconds.\<close>

lemma formatTime_shape:
  assumes "0 \<le> x" "x < 6000"
  shows "shape_MM_SS (formatTime (Number (Num x)) False)"
    and "shape_MM_SS_mmm (formatTime (Number (Num x)) True)"
proof -
  define m where "m = \<lfloor>x / 60\<rfloor>"
  define r where "r = x - 60 * of_int m"
  define s where "s = \<lfloor>r\<rfloor>"
  define fr where "fr = r - of_int s"
  define k where "k = \<lfloor>fr * 1000\<rfloor>"
  from assms have m: "0 \<le> m" "m < 100"
    by (simp_all add: m_def floor_less_iff)
  have "of_int m \<le> x / 60" "x / 60 < of_int m + 1" unfolding m_def by linarith+
  then have r: "0 \<le> r" "r < 60" by (simp_all add: r_def field_simps)
  then have s: "0 \<le> s" "s < 60" by (simp_all add: s_def floor_less_iff)
  have "of_int s \<le> r" "r < of_int s + 1" unfolding s_def by linarith+
  then have "0 \<le> fr" "fr < 1" by (simp_all add: fr_def)
  then have "0 \<le> fr * 1000" "fr * 1000 < 1000" by simp_all
  then have k: "0 \<le> k" "k < 1000" by (simp_all add: k_def floor_less_iff)
  have tr: "js_trunc (x / 60) = m" using assms by (simp add: js_trunc_def m_def)
  have nat_m: "nat m < 100" and nat_s: "nat s < 100" and nat_k: "nat k < 1000"
    using m s k by linarith+
  from m obtain a b where mm: "padStart 2 CHR ''0'' (digits (nat m)) = [a, b]"
    "is_digit a" "is_digit b"
    using pad2_shape[of "nat m"] nat_m by blast
  from s obtain c d where ss: "padStart 2 CHR ''0'' (digits (nat s)) = [c, d]"
    "is_digit c" "is_digit d"
    using pad2_shape[of "nat s"] nat_s by blast
  from k obtain e f g where kk: "padStart 3 CHR ''0'' (digits (nat k)) = [e, f, g]"
    "is_digit e" "is_digit f" "is_digit g"
    using pad3_shape[of "nat k"] nat_k by blast
  have neg: "\<not> (of_int m :: rat) < 0" "\<not> (of_int s :: rat) < 0" "\<not> (of_int k :: rat) < 0"
    using m s k by simp_all
  have base: "formatTime (Number (Num x)) False = [a, b] @ '':'' @ [c, d]"
    using mm ss neg
    by (simp add: formatTime_def Let_def tr m_def[symmetric] r_def[symmetric] s_def[symmetric]
         )
  have full: "formatTime (Number (Num x)) True = [a, b] @ '':'' @ [c, d] @ ''.'' @ [e, f, g]"
    using mm ss kk neg
    by (simp add: formatTime_def Let_def tr m_def[symmetric] r_def[symmetric] s_def[symmetric]
          fr_def[symmetric] k_def[symmetric])
  show "shape_MM_SS (formatTime (Number (Num x)) False)"
    unfolding base using mm ss by simp
  show "shape_MM_SS_mmm (formatTime (Number (Num x)) True)"
    unfolding full using mm ss kk by simp
qed

text \<open>
  Claim C9 (\<open>formatTime\<close> total fallback), evaluated on the code. The global
  \<open>formatTime\<close> is total, on \<open>0\<close>, \<open>59.999\<close> and \<open>60\<close> it yields \<^verbatim>\<open>MM:SS\<close> or
  \<^verbatim>\<open>MM:SS.mmm\<close> (\<open>formatTime_samples_shape\<close>), as on every finite argument from 0 up to
  6000 seconds (\<open>formatTime_shape\<close>), but it has no guard for a non-finite or
  undefined argument: \<^verbatim>\<open>NaN\<close> and \<^verbatim>\<open>undefined\<close> format as \<^verbatim>\<open>NaN:NaN\<close> and
  \<^verbatim>\<open>NaN:NaN.NaN\<close>, an infinity as \<^verbatim>\<open>Infinity:NaN\<close>, none of which is the fallback
  \<^verbatim>\<open>0:00\<close> or has the shape \<^verbatim>\<open>MM:SS\<close>. The guard the claim describes exists in the
  sibling \<open>OverlayUtils.formatTime\<close>, which does return \<^verbatim>\<open>0:00\<close> there.
\<close>

theorem formatTime_no_fallback:
  "formatTime (Number NaN) False = ''NaN:NaN''
   \<and> formatTime Undefined True = ''NaN:NaN.NaN''
   \<and> formatTime (Number PosInfinity) False = ''Infinity:NaN''
   \<and> \<not> shape_MM_SS (formatTime (Number NaN) False)
   \<and> \<not> shape_MM_SS_mmm (formatTime Undefined True)
   \<and> OverlayUtils_formatTime (Number NaN) = ''0:00''
   \<and> OverlayUtils_formatTime Undefined = ''0:00''"
  by code_simp

section \<open>Properties of the Selection/Trim Controller\<close>

lemmas editor_defs = markSelectionEnd_def validateSelection_def cut_selection_def requestTrim_def
  no_path_def showNotification_def cancelSelection_def js_quot_def js_greater_def
  js_greater_eq_def sampleEditor_def reloadingEditor_def knownPath_def blobCancelled_def Let_def

text \<open>On finite numbers the selection workflow does what it is meant to do. Marking the
  end in selection mode, with a finite start, a finite duration and a timeline of positive
  width, stores \<open>max startTime clickTime\<close> and keeps the start.\<close>

lemma finite_selection_end:
  assumes "isSelectionModeActive s" "ve_startTime s = Some (Num st)"
    "videoPlayer_duration s = Num d" "0 < rect_width"
  shows "markSelectionEnd clientX rect_left rect_width s
         = s\<lparr>ve_endTime := Some (Num (max st ((clientX - rect_left) / rect_width * d)))\<rparr>"
  using assms by (simp add: markSelectionEnd_def js_quot_def Let_def)

text \<open>With finite bounds and a finite duration, validation passes exactly for
  \<open>start < end\<close>, \<open>0 \<le> start\<close>, \<open>end \<le> duration\<close> and \<open>end - start \<ge> 0.5\<close>.\<close>

lemma finite_validateSelection:
  assumes "ve_startTime s = Some (Num a)" "ve_endTime s = Some (Num b)"
    "videoPlayer_duration s = Num d"
  shows "fst (validateSelection s) \<longleftrightarrow> a < b \<and> 0 \<le> a \<and> b \<le> d \<and> 1 / 2 \<le> b - a"
  using assms by (auto simp: validateSelection_def js_greater_def js_greater_eq_def)

lemma validateSelection_True: "fst (validateSelection s) \<Longrightarrow> snd (validateSelection s) = s"
  by (auto simp: validateSelection_def split: option.splits if_splits)

lemma validateSelection_requests:
  "trimRequests (snd (validateSelection s)) = trimRequests s"
  by (auto simp: validateSelection_def showNotification_def split: option.splits)

text \<open>A selection that fails validation issues no request, whatever the context.\<close>

lemma cut_rejected:
  "\<not> fst (validateSelection s) \<Longrightarrow>
   trimRequests (final_state (cut_selection ctx s)) = trimRequests s"
  using validateSelection_requests[of s]
  by (cases "validateSelection s") (auto simp: cut_selection_def)

text \<open>Outside the blob branch, a selection that passes validation is requested with the
  bounds that were validated.\<close>

lemma cut_direct:
  assumes "fst (validateSelection s)" "videoPath ctx = Some path" "path \<noteq> []"
  shows "cut_selection ctx s
         = Normal (s\<lparr>trimRequests := trimRequests s @ [(path, ve_startTime s, ve_endTime s)]\<rparr>)"
  using assms validateSelection_True[of s]
  by (cases "validateSelection s") (simp add: cut_selection_def requestTrim_def no_path_def)

lemma sample_selection:
  "markSelectionEnd 150 100 100 sampleEditor = sampleEditor\<lparr>ve_endTime := Some (Num 50)\<rparr>
   \<and> trimRequests (final_state
         (cut_selection knownPath (markSelectionEnd 150 100 100 sampleEditor)))
       = [(''in.mp4'', Some (Num 20), Some (Num 50))]
   \<and> trimRequests (final_state
         (cut_selection knownPath (markSelectionEnd 100 100 100 sampleEditor))) = []
   \<and> trimRequests (final_state (cut_selection knownPath sampleEditor)) = []"
  by (simp add: editor_defs)

text \<open>In the blob branch \<^verbatim>\<open>cut()\<close> is suspended up to three times between the validation
  and the request, and the request reads the bounds only then. When Escape cancels the
  selection during the download, the request carries the bounds 0 and 0, which were never
  validated.\<close>

lemma cut_reads_bounds_after_awaits:
  "fst (validateSelection (sampleEditor\<lparr>ve_endTime := Some (Num 50)\<rparr>))
   \<and> trimRequests (final_state
         (cut_selection blobCancelled (sampleEditor\<lparr>ve_endTime := Some (Num 50)\<rparr>)))
       = [(''tmp.mp4'', Some (Num 0), Some (Num 0))]
   \<and> \<not> fst (validateSelection (final_state
         (cut_selection blobCancelled (sampleEditor\<lparr>ve_endTime := Some (Num 50)\<rparr>))))"
  by (simp add: editor_defs)

text \<open>
  Claim C5 (trim gating and selection ordering), evaluated on the code. The claim holds
  while every number is finite (\<open>finite_selection_end\<close>, \<open>finite_validateSelection\<close>,
  \<open>cut_rejected\<close>, \<open>cut_direct\<close>). \<open>markSelectionEnd\<close>, however, lacks the guard on the
  duration that \<open>performSelection\<close> and \<open>seekToClickPosition\<close> have: when the end is marked
  while the player reports \<^verbatim>\<open>NaN\<close> as its duration, the click time and with it
  \<open>Math.max(startTime, clickTime)\<close> are \<^verbatim>\<open>NaN\<close>, so the end is not ordered after the
  start. Every check of \<open>validateSelection\<close> is a comparison that rejects, and a comparison
  with \<^verbatim>\<open>NaN\<close> is false: the selection passes validation, whatever the duration is by
  then, and a trim is requested with the end \<^verbatim>\<open>NaN\<close>.
\<close>

theorem nan_end_passes_validation:
  "markSelectionEnd 700 0 1000 reloadingEditor = reloadingEditor\<lparr>ve_endTime := Some NaN\<rparr>
   \<and> \<not> js_greater_eq NaN (Num 20)
   \<and> validateSelection (reloadingEditor\<lparr>ve_endTime := Some NaN\<rparr>)
       = (True, reloadingEditor\<lparr>ve_endTime := Some NaN\<rparr>)
   \<and> validateSelection (sampleEditor\<lparr>ve_endTime := Some NaN\<rparr>)
       = (True, sampleEditor\<lparr>ve_endTime := Some NaN\<rparr>)
   \<and> trimRequests (final_state
         (cut_selection knownPath (markSelectionEnd 700 0 1000 reloadingEditor)))
       = [(''in.mp4'', Some (Num 20), Some NaN)]"
  by (simp add: editor_defs)

section \<open>Properties of the Visual State Manager\<close>

subsection \<open>Re-entrancy\<close>

lemmas vsm_defs = setState_def applyState_def applyDirty_def detectChanges_def detectObject_def
  detectMap_def updateState_def assignOpt_def mergeMap_def resetDirtyFlags_def vsm_warn_def
  hasObjectChanged_def Object_keys_def Object_assign_def getProp_def strict_neq_def
  try_finally_def sections_def initialVsm_def emptyUpdates_def reentrant_def noRender_def
  logRender_def failingRender_def scheduleBatchUpdate_def animationFrame_def busyVsm_def
  dirtyVsm_def idleVsm_def playheadAt50_def progressAt7_def markerSelected_def
  Let_def

lemma setState_dropped:
  "isApplyingState s \<Longrightarrow>
   setState step now upd batch s =
     Normal (vsm_warn ''VisualStateManager is applying state - recursive call ignored'' s)"
  by (simp add: setState_def)

lemma dirty_vsm_warn [simp]: "dirty sec (vsm_warn msg s) = dirty sec s"
  by (cases sec) (simp_all add: vsm_warn_def)

lemma dirty_other_fields [simp]:
  "dirty sec (s\<lparr>isApplyingState := a\<rparr>) = dirty sec s"
  "dirty sec (s\<lparr>performance := p\<rparr>) = dirty sec s"
  "dirty sec (s\<lparr>vsm_console := c\<rparr>) = dirty sec s"
  "dirty sec (s\<lparr>dom := d\<rparr>) = dirty sec s"
  by (cases sec; simp)+

lemma forEach_reentrant:
  "isApplyingState t \<Longrightarrow>
   forEach (\<lambda>sec t. if dirty sec t then reentrant inner n upd batch sec t else Normal t) secs t =
     Normal (t\<lparr>vsm_console := vsm_console t @
        replicate (length (filter (\<lambda>sec. dirty sec t) secs))
          (LogWarn ''VisualStateManager is applying state - recursive call ignored'')\<rparr>)"
proof (induction secs arbitrary: t)
  case Nil
  show ?case by simp
next
  case (Cons sec secs)
  let ?w = "LogWarn ''VisualStateManager is applying state - recursive call ignored''"
  show ?case
  proof (cases "dirty sec t")
    case True
    let ?t1 = "vsm_warn ''VisualStateManager is applying state - recursive call ignored'' t"
    have a: "isApplyingState ?t1" using Cons.prems by (simp add: vsm_warn_def)
    have "forEach (\<lambda>sec t. if dirty sec t then reentrant inner n upd batch sec t else Normal t)
            (sec # secs) t
          = forEach (\<lambda>sec t. if dirty sec t then reentrant inner n upd batch sec t else Normal t)
              secs ?t1"
      using True Cons.prems by (simp add: reentrant_def setState_dropped)
    also have "\<dots> = Normal (?t1\<lparr>vsm_console := vsm_console ?t1 @
        replicate (length (filter (\<lambda>sec. dirty sec ?t1) secs)) ?w\<rparr>)"
      using a by (rule Cons.IH)
    also have "\<dots> = Normal (t\<lparr>vsm_console := vsm_console t @
        replicate (length (filter (\<lambda>sec. dirty sec t) (sec # secs))) ?w\<rparr>)"
      using True by (simp add: vsm_warn_def[of _ t] replicate_append_same)
    finally show ?thesis .
  next
    case False
    then show ?thesis using Cons.IH[OF Cons.prems] by simp
  qed
qed

lemma applyState_releases:
  "\<not> isApplyingState s \<Longrightarrow> \<not> isApplyingState (final_state (applyState step now s))"
  by (simp add: applyState_def try_finally_def split: completion.splits)

lemma applyState_reentrant:
  assumes "\<not> isApplyingState s"
  shows "applyState (reentrant inner n upd batch) now s =
     Normal (s\<lparr>performance := (performance s)\<lparr>updateCount := updateCount (performance s) + 1,
                                              lastUpdateTime := now\<rparr>,
               dirtyFlags := \<lparr>d_playhead = False, d_progress = False, d_selection = False,
                       d_timeline = False, d_body = False, d_markers = False,
                       d_overlays = False\<rparr>,
               vsm_console := vsm_console s @
                 replicate (length (filter (\<lambda>sec. dirty sec s) sections))
                   (LogWarn ''VisualStateManager is applying state - recursive call ignored''),
               isApplyingState := False\<rparr>)"
proof -
  let ?s1 = "s\<lparr>isApplyingState := True,
               performance := (performance s)\<lparr>updateCount := updateCount (performance s) + 1,
                                              lastUpdateTime := now\<rparr>\<rparr>"
  have "forEach (\<lambda>sec t. if dirty sec t then reentrant inner n upd batch sec t else Normal t)
          sections ?s1
        = Normal (?s1\<lparr>vsm_console := vsm_console ?s1 @
            replicate (length (filter (\<lambda>sec. dirty sec ?s1) sections))
              (LogWarn ''VisualStateManager is applying state - recursive call ignored'')\<rparr>)"
    by (rule forEach_reentrant) simp
  then show ?thesis
    using assms by (simp add: applyState_def try_finally_def applyDirty_def resetDirtyFlags_def)
qed

subsection \<open>Dirty checking\<close>

lemma Object_assign_other:
  "key \<notin> fst ` set source \<Longrightarrow> map_of (Object_assign target source) key = map_of target key"
  unfolding Object_assign_def
  by (induction source arbitrary: target) (auto simp: update_conv')

lemma Object_assign_written:
  "distinct (map fst source) \<Longrightarrow> (key, v) \<in> set source \<Longrightarrow>
   map_of (Object_assign target source) key = Some v"
proof (induction source arbitrary: target)
  case Nil
  then show ?case by simp
next
  case (Cons kv source)
  obtain k w where kv: "kv = (k, w)" by (cases kv)
  show ?case
  proof (cases "(key, v) = kv")
    case True
    with kv Cons.prems have "key \<notin> fst ` set source" by auto
    then have "map_of (Object_assign (AList.update k w target) source) key
               = map_of (AList.update k w target) key"
      by (rule Object_assign_other)
    with True kv show ?thesis by (simp add: Object_assign_def update_conv')
  next
    case False
    with Cons.prems have "(key, v) \<in> set source" "distinct (map fst source)" by auto
    then have "map_of (Object_assign (AList.update k w target) source) key = Some v"
      by (intro Cons.IH)
    with kv show ?thesis by (simp add: Object_assign_def)
  qed
qed

lemma assigned_unchanged:
  assumes "plain_object inc"
  shows "\<not> hasObjectChanged (Object_assign current inc) inc"
proof -
  have "\<not> strict_neq (getProp (Object_assign current inc) key) (getProp inc key)"
    if "key \<in> fst ` set inc" for key
  proof -
    from that obtain v where v: "(key, v) \<in> set inc" by auto
    with assms have "map_of inc key = Some v" "v \<noteq> JNaN"
      by (force simp: plain_object_def)+
    moreover from assms v have "map_of (Object_assign current inc) key = Some v"
      by (simp add: plain_object_def Object_assign_written)
    ultimately show ?thesis by (simp add: strict_neq_def getProp_def)
  qed
  then show ?thesis
    by (auto simp: hasObjectChanged_def Object_keys_def list_ex_iff)
qed

lemma changedOpt_assigned:
  "plain_opt incoming \<Longrightarrow> \<not> changedOpt (assignOpt current incoming) incoming"
  by (cases incoming) (simp_all add: changedOpt_def assignOpt_def plain_opt_def assigned_unchanged)

lemma detectChanges_diffable:
  assumes "u_markers upd = None" "u_overlays upd = None"
  shows "detectChanges upd s = (any_changed upd s, s\<lparr>dirtyFlags := flagsAfter upd s\<rparr>)"
proof -
  have 1: "detectObject Playhead (st_playhead s) (u_playhead upd) (False, s)
        = (changedOpt (st_playhead s) (u_playhead upd),
           s\<lparr>dirtyFlags := (dirtyFlags s)
               \<lparr>d_playhead := flagAfter (d_playhead (dirtyFlags s)) (st_playhead s) (u_playhead upd)\<rparr>\<rparr>)"
    by (cases "u_playhead upd") (simp_all add: detectObject_def changedOpt_def flagAfter_def Let_def)
  have 2: "detectObject Progress (st_progress s) (u_progress upd) (h, t)
        = (changedOpt (st_progress s) (u_progress upd) \<or> h,
           t\<lparr>dirtyFlags := (dirtyFlags t)
               \<lparr>d_progress := flagAfter (d_progress (dirtyFlags t)) (st_progress s) (u_progress upd)\<rparr>\<rparr>)"
    for h and t :: "'a vsm"
    by (cases "u_progress upd") (simp_all add: detectObject_def changedOpt_def flagAfter_def Let_def)
  have 3: "detectObject Selection (st_selection s) (u_selection upd) (h, t)
        = (changedOpt (st_selection s) (u_selection upd) \<or> h,
           t\<lparr>dirtyFlags := (dirtyFlags t)
               \<lparr>d_selection := flagAfter (d_selection (dirtyFlags t)) (st_selection s) (u_selection upd)\<rparr>\<rparr>)"
    for h and t :: "'a vsm"
    by (cases "u_selection upd") (simp_all add: detectObject_def changedOpt_def flagAfter_def Let_def)
  have 4: "detectObject Timeline (st_timeline s) (u_timeline upd) (h, t)
        = (changedOpt (st_timeline s) (u_timeline upd) \<or> h,
           t\<lparr>dirtyFlags := (dirtyFlags t)
               \<lparr>d_timeline := flagAfter (d_timeline (dirtyFlags t)) (st_timeline s) (u_timeline upd)\<rparr>\<rparr>)"
    for h and t :: "'a vsm"
    by (cases "u_timeline upd") (simp_all add: detectObject_def changedOpt_def flagAfter_def Let_def)
  have 5: "detectObject Body (st_body s) (u_body upd) (h, t)
        = (changedOpt (st_body s) (u_body upd) \<or> h,
           t\<lparr>dirtyFlags := (dirtyFlags t)
               \<lparr>d_body := flagAfter (d_body (dirtyFlags t)) (st_body s) (u_body upd)\<rparr>\<rparr>)"
    for h and t :: "'a vsm"
    by (cases "u_body upd") (simp_all add: detectObject_def changedOpt_def flagAfter_def Let_def)
  show ?thesis
    unfolding detectChanges_def 1 2 3 4 5
    using assms by (auto simp: detectMap_def any_changed_def flagsAfter_def)
qed

lemma forEach_renders:
  assumes "renders_only step"
  shows "\<exists>d. forEach (\<lambda>sec t. if dirty sec t then step sec t else Normal t) secs t
              = Normal (t\<lparr>dom := d\<rparr>)"
proof (induction secs arbitrary: t)
  case Nil
  have "t = t\<lparr>dom := dom t\<rparr>" by simp
  then show ?case by (metis forEach.simps(1))
next
  case (Cons sec secs)
  from assms obtain d1 where d1: "step sec t = Normal (t\<lparr>dom := d1\<rparr>)"
    unfolding renders_only_def by blast
  let ?t1 = "if dirty sec t then t\<lparr>dom := d1\<rparr> else t"
  from Cons.IH[of ?t1] obtain d where
    d: "forEach (\<lambda>sec t. if dirty sec t then step sec t else Normal t) secs ?t1 = Normal (?t1\<lparr>dom := d\<rparr>)"
    by blast
  have "forEach (\<lambda>sec t. if dirty sec t then step sec t else Normal t) (sec # secs) t
        = Normal (t\<lparr>dom := d\<rparr>)"
    using d1 d by (cases "dirty sec t") simp_all
  then show ?case by blast
qed

lemma applyState_renders:
  assumes "renders_only step" "\<not> isApplyingState s"
  shows "\<exists>d. applyState step now s =
     Normal (s\<lparr>performance := (performance s)\<lparr>updateCount := updateCount (performance s) + 1,
                                              lastUpdateTime := now\<rparr>,
               dirtyFlags := cleanFlags, dom := d, isApplyingState := False\<rparr>)"
proof -
  let ?s1 = "s\<lparr>isApplyingState := True,
               performance := (performance s)\<lparr>updateCount := updateCount (performance s) + 1,
                                              lastUpdateTime := now\<rparr>\<rparr>"
  from forEach_renders[OF assms(1), of sections ?s1] obtain d where
    "forEach (\<lambda>sec t. if dirty sec t then step sec t else Normal t) sections ?s1
       = Normal (?s1\<lparr>dom := d\<rparr>)" by blast
  then have "applyState step now s =
     Normal (s\<lparr>performance := (performance s)\<lparr>updateCount := updateCount (performance s) + 1,
                                              lastUpdateTime := now\<rparr>,
               dirtyFlags := cleanFlags, dom := d, isApplyingState := False\<rparr>)"
    using assms(2)
    by (simp add: applyState_def try_finally_def applyDirty_def resetDirtyFlags_def cleanFlags_def)
  then show ?thesis by blast
qed

lemma setState_sync_diffable:
  assumes "u_markers upd = None" "u_overlays upd = None" "\<not> isApplyingState s"
  shows "setState step now upd False s =
     (if \<not> any_changed upd s
      then Normal (s\<lparr>dirtyFlags := flagsAfter upd s,
                     performance := (performance s)\<lparr>skippedUpdates := skippedUpdates (performance s) + 1\<rparr>\<rparr>)
      else applyState step now (updateState upd (s\<lparr>dirtyFlags := flagsAfter upd s\<rparr>)))"
  using assms by (simp add: setState_def detectChanges_diffable Let_def)

lemma any_changed_fields [simp]:
  "any_changed upd (s\<lparr>dirtyFlags := f\<rparr>) = any_changed upd s"
  "any_changed upd (s\<lparr>performance := p\<rparr>) = any_changed upd s"
  "any_changed upd (s\<lparr>dom := d\<rparr>) = any_changed upd s"
  "any_changed upd (s\<lparr>isApplyingState := a\<rparr>) = any_changed upd s"
  by (simp_all add: any_changed_def)

lemma flagsAfter_again:
  "flagsAfter upd (s\<lparr>dirtyFlags := flagsAfter upd s, performance := p\<rparr>) = flagsAfter upd s"
  by (simp add: flagsAfter_def flagAfter_def split: option.splits)

lemma any_changed_updated:
  assumes "diffable upd"
  shows "\<not> any_changed upd (updateState upd s)"
  using assms changedOpt_assigned
  by (simp add: any_changed_def updateState_def diffable_def)

lemma flagsAfter_clean:
  assumes "\<not> any_changed upd s" "dirtyFlags s = cleanFlags"
  shows "flagsAfter upd s = cleanFlags"
  using assms
  by (simp add: flagsAfter_def flagAfter_def any_changed_def changedOpt_def cleanFlags_def
           split: option.splits)

lemma repeat_skipped:
  assumes d: "diffable upd" and free: "\<not> isApplyingState s" and r: "renders_only step"
  shows "\<exists>s1. setState step now upd False s = Normal s1
     \<and> setState step now' upd False s1 =
         Normal (s1\<lparr>performance := (performance s1)
                       \<lparr>skippedUpdates := skippedUpdates (performance s1) + 1\<rparr>\<rparr>)
     \<and> updateCount (performance s1)
         = updateCount (performance s) + (if any_changed upd s then 1 else 0)
     \<and> skippedUpdates (performance s1)
         = skippedUpdates (performance s) + (if any_changed upd s then 0 else 1)
     \<and> pendingFrames s1 = pendingFrames s"
proof -
  from d have m: "u_markers upd = None" "u_overlays upd = None"
    by (simp_all add: diffable_def)
  show ?thesis
  proof (cases "any_changed upd s")
    case False
    let ?s1 = "s\<lparr>dirtyFlags := flagsAfter upd s,
                 performance := (performance s)\<lparr>skippedUpdates := skippedUpdates (performance s) + 1\<rparr>\<rparr>"
    have first: "setState step now upd False s = Normal ?s1"
      using False free by (simp add: setState_sync_diffable[OF m])
    have "\<not> isApplyingState ?s1" using free by simp
    then have "setState step now' upd False ?s1 =
        Normal (?s1\<lparr>dirtyFlags := flagsAfter upd ?s1,
                     performance := (performance ?s1)
                        \<lparr>skippedUpdates := skippedUpdates (performance ?s1) + 1\<rparr>\<rparr>)"
      using False by (simp add: setState_sync_diffable[OF m])
    also have "flagsAfter upd ?s1 = flagsAfter upd s" by (rule flagsAfter_again)
    finally have second: "setState step now' upd False ?s1 =
        Normal (?s1\<lparr>performance := (performance ?s1)
                        \<lparr>skippedUpdates := skippedUpdates (performance ?s1) + 1\<rparr>\<rparr>)"
      by simp
    from first second False show ?thesis by simp
  next
    case True
    let ?S = "updateState upd (s\<lparr>dirtyFlags := flagsAfter upd s\<rparr>)"
    have freeS: "\<not> isApplyingState ?S" using free by (simp add: updateState_def)
    from applyState_renders[OF r freeS, of now] obtain dm where
      ap: "applyState step now ?S =
        Normal (?S\<lparr>performance := (performance ?S)\<lparr>updateCount := updateCount (performance ?S) + 1,
                                              lastUpdateTime := now\<rparr>,
               dirtyFlags := cleanFlags, dom := dm, isApplyingState := False\<rparr>)" by blast
    let ?s1 = "?S\<lparr>performance := (performance ?S)\<lparr>updateCount := updateCount (performance ?S) + 1,
                                              lastUpdateTime := now\<rparr>,
               dirtyFlags := cleanFlags, dom := dm, isApplyingState := False\<rparr>"
    have first: "setState step now upd False s = Normal ?s1"
      using True free ap by (simp add: setState_sync_diffable[OF m])
    have settled: "\<not> any_changed upd ?s1"
      using any_changed_updated[OF d, of "s\<lparr>dirtyFlags := flagsAfter upd s\<rparr>"] by simp
    then have fl: "flagsAfter upd ?s1 = cleanFlags"
      by (rule flagsAfter_clean) simp
    have "setState step now' upd False ?s1 =
        Normal (?s1\<lparr>dirtyFlags := flagsAfter upd ?s1,
                     performance := (performance ?s1)
                        \<lparr>skippedUpdates := skippedUpdates (performance ?s1) + 1\<rparr>\<rparr>)"
      using settled by (subst setState_sync_diffable[OF m]) simp_all
    then have second: "setState step now' upd False ?s1 =
        Normal (?s1\<lparr>performance := (performance ?s1)
                        \<lparr>skippedUpdates := skippedUpdates (performance ?s1) + 1\<rparr>\<rparr>)"
      unfolding fl by simp
    have counts: "updateCount (performance ?s1) = updateCount (performance s) + 1"
      "skippedUpdates (performance ?s1) = skippedUpdates (performance s)"
      "pendingFrames ?s1 = pendingFrames s"
      by (simp_all add: updateState_def)
    from first second counts True show ?thesis by simp
  qed
qed

lemma detectChanges_map_always:
  "u_markers upd \<noteq> None \<or> u_overlays upd \<noteq> None \<Longrightarrow> fst (detectChanges upd s)"
  by (auto simp: detectChanges_def detectMap_def split: prod.splits option.splits)

subsection \<open>The guard and a later call\<close>

lemma reentrant_final:
  assumes "\<not> isApplyingState s"
  shows "final_state (applyState (reentrant inner n upd batch) now s) =
     s\<lparr>performance := (performance s)\<lparr>updateCount := updateCount (performance s) + 1,
                                              lastUpdateTime := now\<rparr>,
               dirtyFlags := cleanFlags,
               vsm_console := vsm_console s @
                 replicate (length (filter (\<lambda>sec. dirty sec s) sections))
                   (LogWarn ''VisualStateManager is applying state - recursive call ignored''),
               isApplyingState := False\<rparr>"
  using applyState_reentrant[OF assms, of inner n upd batch now]
  by (simp add: cleanFlags_def)

lemma any_changed_console [simp]:
  "any_changed upd (s\<lparr>vsm_console := c\<rparr>) = any_changed upd s"
  by (simp add: any_changed_def)

text \<open>After an \<open>applyState\<close> that was entered with the guard free, whatever its steps did,
  a call of \<open>setState\<close> is processed: diffed, and then skipped, scheduled or applied.\<close>

lemma later_setState_processed:
  assumes free: "\<not> isApplyingState s" and m: "u_markers upd' = None" "u_overlays upd' = None"
  shows "setState step' now' upd' batch' (final_state (applyState step now s)) =
     (let S = final_state (applyState step now s)
      in if any_changed upd' S
         then (if batch'
               then Normal (scheduleBatchUpdate
                              (updateState upd' (S\<lparr>dirtyFlags := flagsAfter upd' S\<rparr>)))
               else applyState step' now' (updateState upd' (S\<lparr>dirtyFlags := flagsAfter upd' S\<rparr>)))
         else Normal (S\<lparr>dirtyFlags := flagsAfter upd' S,
                        performance := (performance S)
                          \<lparr>skippedUpdates := skippedUpdates (performance S) + 1\<rparr>\<rparr>))"
proof -
  let ?S = "final_state (applyState step now s)"
  have f: "\<not> isApplyingState ?S" using free by (rule applyState_releases)
  show ?thesis
    using f by (simp add: setState_def detectChanges_diffable[OF m] Let_def)
qed

lemma later_setState_applies:
  assumes free: "\<not> isApplyingState s" and d: "diffable upd'" and r: "renders_only step'"
    and ch: "any_changed upd' s"
  shows "\<exists>dm. setState step' now' upd' False
                  (final_state (applyState (reentrant inner n upd batch) now s)) =
     Normal ((updateState upd' (final_state (applyState (reentrant inner n upd batch) now s)))
        \<lparr>performance := \<lparr>updateCount = updateCount (performance s) + 2,
                          skippedUpdates = skippedUpdates (performance s),
                          lastUpdateTime = now'\<rparr>,
         dom := dm\<rparr>)"
proof -
  let ?S = "final_state (applyState (reentrant inner n upd batch) now s)"
  from d have m: "u_markers upd' = None" "u_overlays upd' = None"
    by (simp_all add: diffable_def)
  let ?T = "updateState upd' (?S\<lparr>dirtyFlags := flagsAfter upd' ?S\<rparr>)"
  have c: "any_changed upd' ?S"
    using ch unfolding reentrant_final[OF free] by simp
  have fT: "\<not> isApplyingState ?T"
    using applyState_releases[OF free, of "reentrant inner n upd batch" now]
    by (simp add: updateState_def)
  from applyState_renders[OF r fT, of now'] obtain dm where
    ap: "applyState step' now' ?T =
      Normal (?T\<lparr>performance := (performance ?T)\<lparr>updateCount := updateCount (performance ?T) + 1,
                                              lastUpdateTime := now'\<rparr>,
               dirtyFlags := cleanFlags, dom := dm, isApplyingState := False\<rparr>)" by blast
  have eq: "?T\<lparr>performance := (performance ?T)\<lparr>updateCount := updateCount (performance ?T) + 1,
                                              lastUpdateTime := now'\<rparr>,
               dirtyFlags := cleanFlags, dom := dm, isApplyingState := False\<rparr>
        = (updateState upd' ?S)
        \<lparr>performance := \<lparr>updateCount = updateCount (performance s) + 2,
                          skippedUpdates = skippedUpdates (performance s),
                          lastUpdateTime = now'\<rparr>,
         dom := dm\<rparr>"
    unfolding reentrant_final[OF free] by (simp add: updateState_def)
  have "setState step' now' upd' False ?S = applyState step' now' ?T"
    using later_setState_processed[OF free m, of step' now' False "reentrant inner n upd batch" now] c
    by (simp only: Let_def if_True if_False)
  with ap eq show ?thesis by auto
qed

text \<open>
  Claim C3 (re-entrancy guard). A \<open>setState\<close> that arrives while \<open>applyState\<close> is in
  progress is dropped: it completes normally and changes nothing but the console, which
  receives the warning, so the sections, the dirty flags and the counters are untouched.
  \<open>applyState\<close> entered with the guard free leaves it free on every exit path, whatever
  the apply steps do, also when one raises. When every apply step calls \<open>setState\<close>
  synchronously, \<open>applyState\<close> ends as it would without those calls, one warning logged per
  dirty section: the update count is incremented once, all dirty flags are cleared and the
  guard is released. After any such \<open>applyState\<close>, also one that raised, a later
  independent \<open>setState\<close> is processed as usual: its payload is diffed against the state,
  and it is skipped when nothing differs, scheduled when batched, and applied otherwise. In
  particular, after an \<open>applyState\<close> whose steps called \<open>setState\<close>, a later synchronous call
  whose payload differs from the state, with steps that only render, completes with the
  payload merged into the state and the update count incremented a second time, and logs
  no warning.
\<close>

theorem reentrancy_guard:
  "(isApplyingState s \<longrightarrow>
      setState step now upd batch s =
        Normal (s\<lparr>vsm_console := vsm_console s @
           [LogWarn ''VisualStateManager is applying state - recursive call ignored'']\<rparr>))
   \<and> (\<not> isApplyingState s \<longrightarrow> \<not> isApplyingState (final_state (applyState step now s)))
   \<and> (\<not> isApplyingState s \<longrightarrow>
        applyState (reentrant inner n upd batch) now s =
          Normal (s\<lparr>performance := (performance s)\<lparr>updateCount := updateCount (performance s) + 1,
                                              lastUpdateTime := now\<rparr>,
               dirtyFlags := \<lparr>d_playhead = False, d_progress = False, d_selection = False,
                       d_timeline = False, d_body = False, d_markers = False,
                       d_overlays = False\<rparr>,
               vsm_console := vsm_console s @
                 replicate (length (filter (\<lambda>sec. dirty sec s) sections))
                   (LogWarn ''VisualStateManager is applying state - recursive call ignored''),
               isApplyingState := False\<rparr>))
   \<and> (\<not> isApplyingState s \<and> u_markers upd' = None \<and> u_overlays upd' = None \<longrightarrow>
        setState step' now' upd' batch' (final_state (applyState step now s)) =
          (let S = final_state (applyState step now s)
           in if any_changed upd' S
              then (if batch'
                    then Normal (scheduleBatchUpdate
                                   (updateState upd' (S\<lparr>dirtyFlags := flagsAfter upd' S\<rparr>)))
                    else applyState step' now'
                           (updateState upd' (S\<lparr>dirtyFlags := flagsAfter upd' S\<rparr>)))
              else Normal (S\<lparr>dirtyFlags := flagsAfter upd' S,
                             performance := (performance S)
                               \<lparr>skippedUpdates := skippedUpdates (performance S) + 1\<rparr>\<rparr>)))
   \<and> (\<not> isApplyingState s \<and> diffable upd' \<and> renders_only step' \<and> any_changed upd' s \<longrightarrow>
        (\<exists>dm. setState step' now' upd' False
                  (final_state (applyState (reentrant inner n upd batch) now s)) =
           Normal ((updateState upd' (final_state (applyState (reentrant inner n upd batch) now s)))
              \<lparr>performance := \<lparr>updateCount = updateCount (performance s) + 2,
                                skippedUpdates = skippedUpdates (performance s),
                                lastUpdateTime = now'\<rparr>,
               dom := dm\<rparr>)))"
proof -
  have 1: "isApplyingState s \<longrightarrow>
      setState step now upd batch s =
        Normal (s\<lparr>vsm_console := vsm_console s @
           [LogWarn ''VisualStateManager is applying state - recursive call ignored'']\<rparr>)"
    using setState_dropped[of s step now upd batch] by (simp add: vsm_warn_def)
  have 2: "\<not> isApplyingState s \<longrightarrow> \<not> isApplyingState (final_state (applyState step now s))"
    using applyState_releases[of s step now] by simp
  have 3: "\<not> isApplyingState s \<longrightarrow>
        applyState (reentrant inner n upd batch) now s =
          Normal (s\<lparr>performance := (performance s)\<lparr>updateCount := updateCount (performance s) + 1,
                                              lastUpdateTime := now\<rparr>,
               dirtyFlags := \<lparr>d_playhead = False, d_progress = False, d_selection = False,
                       d_timeline = False, d_body = False, d_markers = False,
                       d_overlays = False\<rparr>,
               vsm_console := vsm_console s @
                 replicate (length (filter (\<lambda>sec. dirty sec s) sections))
                   (LogWarn ''VisualStateManager is applying state - recursive call ignored''),
               isApplyingState := False\<rparr>)"
    using applyState_reentrant[of s inner n upd batch now] by simp
  note 4 = later_setState_processed[of s upd' step' now' batch' step now]
  note 5 = later_setState_applies[of s upd' step' now' inner n upd batch now]
  from 1 2 3 4 5 show ?thesis by blast
qed

lemma sample_later_call:
  "diffable progressAt7 \<and> renders_only logRender \<and> any_changed progressAt7 dirtyVsm"
proof -
  have "renders_only logRender"
    unfolding renders_only_def logRender_def by blast
  then show ?thesis
    by (simp add: diffable_def plain_opt_def plain_object_def any_changed_def changedOpt_def
          vsm_defs)
qed

theorem reentrancy_guard_witness:
  "isApplyingState busyVsm
   \<and> setState logRender 1 playheadAt50 False busyVsm =
       Normal (busyVsm\<lparr>vsm_console :=
          [LogWarn ''VisualStateManager is applying state - recursive call ignored'']\<rparr>)
   \<and> \<not> isApplyingState dirtyVsm
   \<and> applyState failingRender 1 dirtyVsm =
       Thrown ''TypeError''
         (dirtyVsm\<lparr>performance := \<lparr>updateCount = 1, skippedUpdates = 0, lastUpdateTime = 1\<rparr>\<rparr>)
   \<and> \<not> isApplyingState (final_state (applyState failingRender 1 dirtyVsm))
   \<and> applyState (reentrant logRender 1 playheadAt50 False) 1 dirtyVsm =
       Normal ((initialVsm [])
         \<lparr>performance := \<lparr>updateCount = 1, skippedUpdates = 0, lastUpdateTime = 1\<rparr>,
          vsm_console := [LogWarn ''VisualStateManager is applying state - recursive call ignored'']\<rparr>)
   \<and> u_markers progressAt7 = None \<and> u_overlays progressAt7 = None
   \<and> setState logRender 2 progressAt7 False (final_state (applyState failingRender 1 dirtyVsm)) =
       Normal ((initialVsm [])
         \<lparr>st_progress := [(''width'', JNum 7), (''display'', JStr ''block''),
                          (''isHidden'', JBool False)],
          performance := \<lparr>updateCount = 2, skippedUpdates = 0, lastUpdateTime = 2\<rparr>,
          dom := [Playhead, Progress]\<rparr>)
   \<and> diffable progressAt7 \<and> renders_only logRender \<and> any_changed progressAt7 dirtyVsm
   \<and> setState logRender 2 progressAt7 False
        (final_state (applyState (reentrant logRender 1 playheadAt50 False) 1 dirtyVsm)) =
       Normal ((initialVsm [])
         \<lparr>st_progress := [(''width'', JNum 7), (''display'', JStr ''block''),
                          (''isHidden'', JBool False)],
          performance := \<lparr>updateCount = 2, skippedUpdates = 0, lastUpdateTime = 2\<rparr>,
          vsm_console := [LogWarn ''VisualStateManager is applying state - recursive call ignored''],
          dom := [Progress]\<rparr>)
   \<and> (\<exists>dm. setState logRender 2 progressAt7 False
               (final_state (applyState (reentrant logRender 1 playheadAt50 False) 1 dirtyVsm)) =
          Normal ((updateState progressAt7
                     (final_state (applyState (reentrant logRender 1 playheadAt50 False) 1 dirtyVsm)))
            \<lparr>performance := \<lparr>updateCount = updateCount (performance dirtyVsm) + 2,
                              skippedUpdates = skippedUpdates (performance dirtyVsm),
                              lastUpdateTime = 2\<rparr>,
             dom := dm\<rparr>))"
proof -
  have busy: "isApplyingState busyVsm" by (simp add: busyVsm_def)
  have free: "\<not> isApplyingState dirtyVsm" by (simp add: dirtyVsm_def initialVsm_def)
  have later: "diffable progressAt7" "renders_only logRender" "any_changed progressAt7 dirtyVsm"
    using sample_later_call by blast+
  then have maps: "u_markers progressAt7 = None" "u_overlays progressAt7 = None"
    by (simp_all add: diffable_def)
  have thrown: "applyState failingRender 1 dirtyVsm =
       Thrown ''TypeError''
         (dirtyVsm\<lparr>performance := \<lparr>updateCount = 1, skippedUpdates = 0, lastUpdateTime = 1\<rparr>\<rparr>)"
    by (simp add: vsm_defs)
  from busy reentrancy_guard[where s = busyVsm and step = logRender and now = 1
      and upd = playheadAt50 and batch = False]
  have a: "setState logRender 1 playheadAt50 False busyVsm =
       Normal (busyVsm\<lparr>vsm_console :=
          [LogWarn ''VisualStateManager is applying state - recursive call ignored'']\<rparr>)"
    by (simp add: busyVsm_def initialVsm_def)
  from free reentrancy_guard[where s = dirtyVsm and step = failingRender and now = 1]
  have b: "\<not> isApplyingState (final_state (applyState failingRender 1 dirtyVsm))"
    by blast
  from free reentrancy_guard[where s = dirtyVsm and now = 1 and inner = logRender and n = 1
      and upd = playheadAt50 and batch = False]
  have c: "applyState (reentrant logRender 1 playheadAt50 False) 1 dirtyVsm =
       Normal ((initialVsm [])
         \<lparr>performance := \<lparr>updateCount = 1, skippedUpdates = 0, lastUpdateTime = 1\<rparr>,
          vsm_console := [LogWarn ''VisualStateManager is applying state - recursive call ignored'']\<rparr>)"
    by (simp add: dirtyVsm_def initialVsm_def sections_def)
  from free maps
    reentrancy_guard[where s = dirtyVsm and step = failingRender and now = 1
      and step' = logRender and now' = 2 and upd' = progressAt7 and batch' = False]
  have "setState logRender 2 progressAt7 False (final_state (applyState failingRender 1 dirtyVsm)) =
      (let S = final_state (applyState failingRender 1 dirtyVsm)
       in if any_changed progressAt7 S
          then (if False
                then Normal (scheduleBatchUpdate
                               (updateState progressAt7 (S\<lparr>dirtyFlags := flagsAfter progressAt7 S\<rparr>)))
                else applyState logRender 2
                       (updateState progressAt7 (S\<lparr>dirtyFlags := flagsAfter progressAt7 S\<rparr>)))
          else Normal (S\<lparr>dirtyFlags := flagsAfter progressAt7 S,
                         performance := (performance S)
                           \<lparr>skippedUpdates := skippedUpdates (performance S) + 1\<rparr>\<rparr>))"
    by blast
  then have x: "setState logRender 2 progressAt7 False
        (final_state (applyState failingRender 1 dirtyVsm)) =
       Normal ((initialVsm [])
         \<lparr>st_progress := [(''width'', JNum 7), (''display'', JStr ''block''),
                          (''isHidden'', JBool False)],
          performance := \<lparr>updateCount = 2, skippedUpdates = 0, lastUpdateTime = 2\<rparr>,
          dom := [Playhead, Progress]\<rparr>)"
    unfolding thrown
    by (simp add: vsm_defs flagsAfter_def flagAfter_def any_changed_def changedOpt_def)
  from free maps
    reentrancy_guard[where s = dirtyVsm and step = "reentrant logRender 1 playheadAt50 False"
      and now = 1 and step' = logRender and now' = 2 and upd' = progressAt7 and batch' = False]
  have "setState logRender 2 progressAt7 False
        (final_state (applyState (reentrant logRender 1 playheadAt50 False) 1 dirtyVsm)) =
      (let S = final_state (applyState (reentrant logRender 1 playheadAt50 False) 1 dirtyVsm)
       in if any_changed progressAt7 S
          then (if False
                then Normal (scheduleBatchUpdate
                               (updateState progressAt7 (S\<lparr>dirtyFlags := flagsAfter progressAt7 S\<rparr>)))
                else applyState logRender 2
                       (updateState progressAt7 (S\<lparr>dirtyFlags := flagsAfter progressAt7 S\<rparr>)))
          else Normal (S\<lparr>dirtyFlags := flagsAfter progressAt7 S,
                         performance := (performance S)
                           \<lparr>skippedUpdates := skippedUpdates (performance S) + 1\<rparr>\<rparr>))"
    by blast
  then have d: "setState logRender 2 progressAt7 False
        (final_state (applyState (reentrant logRender 1 playheadAt50 False) 1 dirtyVsm)) =
       Normal ((initialVsm [])
         \<lparr>st_progress := [(''width'', JNum 7), (''display'', JStr ''block''),
                          (''isHidden'', JBool False)],
          performance := \<lparr>updateCount = 2, skippedUpdates = 0, lastUpdateTime = 2\<rparr>,
          vsm_console := [LogWarn ''VisualStateManager is applying state - recursive call ignored''],
          dom := [Progress]\<rparr>)"
    unfolding c
    by (simp add: vsm_defs flagsAfter_def flagAfter_def any_changed_def changedOpt_def)
  from free later
    reentrancy_guard[where s = dirtyVsm and now = 1 and inner = logRender and n = 1
      and upd = playheadAt50 and batch = False and step' = logRender and now' = 2
      and upd' = progressAt7]
  have e: "\<exists>dm. setState logRender 2 progressAt7 False
               (final_state (applyState (reentrant logRender 1 playheadAt50 False) 1 dirtyVsm)) =
          Normal ((updateState progressAt7
                     (final_state (applyState (reentrant logRender 1 playheadAt50 False) 1 dirtyVsm)))
            \<lparr>performance := \<lparr>updateCount = updateCount (performance dirtyVsm) + 2,
                              skippedUpdates = skippedUpdates (performance dirtyVsm),
                              lastUpdateTime = 2\<rparr>,
             dom := dm\<rparr>)"
    by blast
  from busy free thrown a b c maps x later d e show ?thesis by blast
qed

subsection \<open>Repeated payloads\<close>

text \<open>The five object sections are diffed key by key (\<open>detectChanges_diffable\<close>): a
  synchronous call that repeats a payload without map sections and without \<^verbatim>\<open>NaN\<close> is
  skipped (\<open>repeat_skipped\<close>). A markers or overlays map is marked changed whatever it
  holds (\<open>detectChanges_map_always\<close>).\<close>

lemma sample_repeat_skipped:
  "performance (final_state (setState logRender 2 playheadAt50 False
       (final_state (setState logRender 1 playheadAt50 False idleVsm))))
     = \<lparr>updateCount = 1, skippedUpdates = 1, lastUpdateTime = 1\<rparr>
   \<and> dom (final_state (setState logRender 2 playheadAt50 False
       (final_state (setState logRender 1 playheadAt50 False idleVsm)))) = [Playhead]"
  by (simp add: vsm_defs)

text \<open>
  Claim C4 (dirty-checked no-op skipping), evaluated on the code. \<open>detectChanges\<close> is to
  find the sections that really changed, and does so for the five object sections. For
  the two map sections it sets the dirty flag without a diff: the second of two identical
  calls that carry a markers map is applied again, two render passes in all, and the
  skipped counter stays at zero. For an object section it assigns the outcome of the diff
  to the dirty flag: in batched mode the second of two identical calls is skipped, but its
  diff, now against the state the first call wrote, clears the flag that the pending frame
  was to act on. The frame then renders nothing although the playhead moved to 50; after a
  single batched call it renders the playhead.
\<close>

theorem identical_payload_not_skipped:
  "performance (final_state (setState logRender 2 markerSelected False
       (final_state (setState logRender 1 markerSelected False idleVsm))))
     = \<lparr>updateCount = 2, skippedUpdates = 0, lastUpdateTime = 2\<rparr>
   \<and> dom (final_state (setState logRender 2 markerSelected False
       (final_state (setState logRender 1 markerSelected False idleVsm))))
     = [Markers, Markers]
   \<and> dom (final_state (animationFrame logRender 3
       (final_state (setState logRender 2 playheadAt50 True
          (final_state (setState logRender 1 playheadAt50 True idleVsm)))))) = []
   \<and> getProp (st_playhead (final_state (animationFrame logRender 3
       (final_state (setState logRender 2 playheadAt50 True
          (final_state (setState logRender 1 playheadAt50 True idleVsm)))))))
        ''position'' = JNum 50
   \<and> dom (final_state (animationFrame logRender 3
          (final_state (setState logRender 1 playheadAt50 True idleVsm)))) = [Playhead]"
  by (simp add: vsm_defs)

section \<open>Properties of the selection synchronisation\<close>

lemmas tl_defs = syncSelectedOverlayStates_def getValidatedSelectedOverlay_def querySelector_def
  querySelectorAll_def updateElement_def element_of_def classList_add_def classList_remove_def
  contains_def tl_warn_def tl_error_def sampleElement_def idleDrag_def idleEditor_def
  timelineWith_def sampleTimeline_def detachedTimeline_def initialState_def Let_def

lemma find_map_ref:
  assumes "\<And>el. ref (f el) = ref el"
  shows "find (\<lambda>el. ref el = r) (map f xs) = map_option f (find (\<lambda>el. ref el = r) xs)"
  by (induction xs) (simp_all add: assms)

lemma classList_add_fields [simp]:
  "ref (classList_add c el) = ref el"
  "parentNode (classList_add c el) = parentNode el"
  "inDocument (classList_add c el) = inDocument el"
  "set (classList (classList_add c el)) = insert c (set (classList el))"
  by (auto simp: classList_add_def)

lemma classList_remove_fields [simp]:
  "ref (classList_remove cs el) = ref el"
  "parentNode (classList_remove cs el) = parentNode el"
  "inDocument (classList_remove cs el) = inDocument el"
  "set (classList (classList_remove cs el)) = set (classList el) - set cs"
  by (auto simp: classList_remove_def)

lemma classList_remove_idem [simp]:
  "classList_remove cs (classList_remove cs el) = classList_remove cs el"
  by (simp add: classList_remove_def)

lemma updateElement_fields [simp]:
  "selectedOverlay (updateElement r f w) = selectedOverlay w"
  "elements (updateElement r f w) = map (\<lambda>el. if ref el = r then f el else el) (elements w)"
  by (simp_all add: updateElement_def)

text \<open>What a \<^verbatim>\<open>forEach\<close> that strips classes from some of the listed elements leaves.\<close>

lemma fold_strip:
  "elements (fold (\<lambda>el w'. if P (ref el) then updateElement (ref el) (classList_remove cs) w' else w')
                   xs w)
     = map (\<lambda>el. if ref el \<in> ref ` {x \<in> set xs. P (ref x)} then classList_remove cs el else el)
           (elements w)
   \<and> selectedOverlay (fold (\<lambda>el w'. if P (ref el)
                                        then updateElement (ref el) (classList_remove cs) w' else w')
                   xs w) = selectedOverlay w"
proof (induction xs arbitrary: w)
  case Nil
  show ?case by (simp add: map_idI)
next
  case (Cons x xs)
  show ?case
  proof (cases "P (ref x)")
    case True
    have "map (\<lambda>el. if ref el \<in> ref ` {y \<in> set xs. P (ref y)} then classList_remove cs el else el)
              (map (\<lambda>el. if ref el = ref x then classList_remove cs el else el) (elements w))
          = map (\<lambda>el. if ref el \<in> ref ` {y \<in> set (x # xs). P (ref y)}
                       then classList_remove cs el else el) (elements w)"
      using True by (auto simp: image_iff)
    with True Cons.IH[of "updateElement (ref x) (classList_remove cs) w"] show ?thesis
      by simp
  next
    case False
    have "ref ` {y \<in> set (x # xs). P (ref y)} = ref ` {y \<in> set xs. P (ref y)}"
      using False by auto
    with False Cons.IH[of w] show ?thesis by simp
  qed
qed

lemmas fold_strip_all = fold_strip[where P = "\<lambda>r. True", simplified]

lemmas fold_strip_but = fold_strip[where P = "\<lambda>x. x \<noteq> r" for r]

lemma sync_selected [simp]:
  "selectedOverlay (syncSelectedOverlayStates x w) = x"
  by (cases x) (simp_all add: syncSelectedOverlayStates_def Let_def fold_strip_but fold_strip_all)

lemma sync_some_only_marked:
  "only_marked (Some r) (syncSelectedOverlayStates (Some r) w)"
  unfolding only_marked_def
  by (auto simp: syncSelectedOverlayStates_def Let_def fold_strip_but querySelectorAll_def
        contains_def image_iff split: if_splits)

lemma sync_none_only_marked:
  "only_marked None (syncSelectedOverlayStates None w)"
  unfolding only_marked_def
  by (auto simp: syncSelectedOverlayStates_def Let_def fold_strip_all querySelectorAll_def
        contains_def image_iff split: if_splits)

lemma element_of_sync_some:
  "element_of r (syncSelectedOverlayStates (Some r) w) =
     map_option (classList_add ''keyboard-active'' \<circ> classList_add ''selected'') (element_of r w)"
proof -
  let ?g1 = "\<lambda>el. if ref el = r then classList_add ''selected'' el else el"
  let ?g2 = "\<lambda>el. if ref el = r then classList_add ''keyboard-active'' el else el"
  let ?w3 = "updateElement r (classList_add ''keyboard-active'')
               (updateElement r (classList_add ''selected'') (w\<lparr>selectedOverlay := Some r\<rparr>))"
  let ?R = "ref ` {x \<in> set (querySelectorAll [''selected'', ''keyboard-active''] ?w3). ref x \<noteq> r}"
  let ?k = "\<lambda>el. if ref el \<in> ?R then classList_remove [''selected'', ''keyboard-active''] el else el"
  have els: "elements (syncSelectedOverlayStates (Some r) w) = map ?k (map ?g2 (map ?g1 (elements w)))"
    by (simp add: syncSelectedOverlayStates_def Let_def fold_strip_but)
  have k: "find (\<lambda>el. ref el = r) (map ?k xs) = map_option ?k (find (\<lambda>el. ref el = r) xs)" for xs
    by (rule find_map_ref) simp
  have g2: "find (\<lambda>el. ref el = r) (map ?g2 xs) = map_option ?g2 (find (\<lambda>el. ref el = r) xs)" for xs
    by (rule find_map_ref) simp
  have g1: "find (\<lambda>el. ref el = r) (map ?g1 xs) = map_option ?g1 (find (\<lambda>el. ref el = r) xs)" for xs
    by (rule find_map_ref) simp
  have "find (\<lambda>el. ref el = r) (map ?k (map ?g2 (map ?g1 (elements w))))
        = map_option ?k (map_option ?g2 (map_option ?g1 (find (\<lambda>el. ref el = r) (elements w))))"
    by (simp only: k g2 g1)
  also have "\<dots> = map_option (classList_add ''keyboard-active'' \<circ> classList_add ''selected'')
                      (find (\<lambda>el. ref el = r) (elements w))"
  proof (cases "find (\<lambda>el. ref el = r) (elements w)")
    case None
    then show ?thesis by simp
  next
    case (Some el)
    then have "ref el = r" by (auto simp: find_Some_iff)
    moreover have "r \<notin> ?R" by auto
    ultimately show ?thesis using Some by simp
  qed
  finally show ?thesis by (simp only: element_of_def els)
qed

lemma getValidated_after_sync_some:
  assumes "attached r w"
  shows "getValidatedSelectedOverlay (syncSelectedOverlayStates (Some r) w)
         = (Some r, syncSelectedOverlayStates (Some r) w)"
proof -
  from assms obtain el where "element_of r w = Some el" "parentNode el"
    by (auto simp: attached_def split: option.splits)
  then show ?thesis
    by (simp add: getValidatedSelectedOverlay_def element_of_sync_some)
qed

lemma unmarked_no_match:
  assumes "only_marked None w" "c = ''selected'' \<or> c = ''keyboard-active''"
  shows "querySelector c w = None"
proof -
  have "querySelectorAll [c] w = []"
    using assms by (auto simp: querySelectorAll_def only_marked_def filter_empty_conv)
  then show ?thesis by (simp add: querySelector_def)
qed

lemma getValidated_after_sync_none:
  "getValidatedSelectedOverlay (syncSelectedOverlayStates None w)
     = (None, tl_warn ''no selected overlay found'' (syncSelectedOverlayStates None w))"
  using unmarked_no_match[OF sync_none_only_marked, of _ w]
  by (simp add: getValidatedSelectedOverlay_def)

text \<open>
  Claim C7 as stated fails for an element that is not attached: the lookup trusts the
  in-memory reference only while the element has a parent node, and the class queries
  search the document, so for a detached element the lookup finds nothing.
\<close>

theorem detached_selection_counterexample:
  "fst (getValidatedSelectedOverlay (syncSelectedOverlayStates (Some 1) detachedTimeline)) = None
   \<and> selectedOverlay (syncSelectedOverlayStates (Some 1) detachedTimeline) = Some 1"
  by (simp add: tl_defs)

text \<open>
  Claim C7, amended (selection-state synchronisation). After \<open>syncSelectedOverlayStates\<close>
  with an overlay element \<open>X\<close> that has a parent node, the in-memory reference is \<open>X\<close>,
  \<open>X\<close> carries both the \<open>selected\<close> and the \<open>keyboard-active\<close> class,
  \<open>getValidatedSelectedOverlay\<close> returns \<open>X\<close> and changes nothing, and no other overlay
  segment of the document carries either class. After the call with \<^verbatim>\<open>null\<close> the reference
  is empty, no overlay segment of the document carries either class, and the lookup
  returns \<^verbatim>\<open>null\<close>.
\<close>

theorem selection_sync_roundtrip:
  "(attached r w \<longrightarrow>
      getValidatedSelectedOverlay (syncSelectedOverlayStates (Some r) w)
        = (Some r, syncSelectedOverlayStates (Some r) w)
      \<and> selectedOverlay (syncSelectedOverlayStates (Some r) w) = Some r
      \<and> (\<exists>el. element_of r (syncSelectedOverlayStates (Some r) w) = Some el
               \<and> contains ''selected'' el \<and> contains ''keyboard-active'' el)
      \<and> only_marked (Some r) (syncSelectedOverlayStates (Some r) w))
   \<and> fst (getValidatedSelectedOverlay (syncSelectedOverlayStates None w)) = None
   \<and> selectedOverlay (syncSelectedOverlayStates None w) = None
   \<and> only_marked None (syncSelectedOverlayStates None w)"
proof (intro conjI impI)
  assume a: "attached r w"
  then show "getValidatedSelectedOverlay (syncSelectedOverlayStates (Some r) w)
        = (Some r, syncSelectedOverlayStates (Some r) w)"
    by (rule getValidated_after_sync_some)
  from a obtain el where "element_of r w = Some el"
    by (auto simp: attached_def split: option.splits)
  then show "\<exists>el. element_of r (syncSelectedOverlayStates (Some r) w) = Some el
               \<and> contains ''selected'' el \<and> contains ''keyboard-active'' el"
    by (simp add: element_of_sync_some contains_def)
qed (simp_all add: sync_some_only_marked sync_none_only_marked getValidated_after_sync_none)

lemma sample_sync:
  "map classList (elements (syncSelectedOverlayStates (Some 1) sampleTimeline))
     = [[''overlay-segment'', ''selected'', ''keyboard-active''],
        [''overlay-segment''], [''overlay-segment'']]
   \<and> map classList (elements (syncSelectedOverlayStates None sampleTimeline))
     = [[''overlay-segment''], [''overlay-segment''], [''overlay-segment'']]"
  by (simp add: tl_defs)

theorem selection_sync_roundtrip_witness:
  "attached 1 sampleTimeline
   \<and> getValidatedSelectedOverlay (syncSelectedOverlayStates (Some 1) sampleTimeline)
       = (Some 1, syncSelectedOverlayStates (Some 1) sampleTimeline)
   \<and> only_marked (Some 1) (syncSelectedOverlayStates (Some 1) sampleTimeline)
   \<and> fst (getValidatedSelectedOverlay (syncSelectedOverlayStates None sampleTimeline)) = None"
proof -
  have a: "attached 1 sampleTimeline"
    by (simp add: attached_def tl_defs)
  with selection_sync_roundtrip[of 1 sampleTimeline] show ?thesis by blast
qed

section \<open>Properties of the drag/resize controller\<close>

lemmas drag_defs = handleAdvancedMouseMove_def handleOverlayResize_def handleAdvancedMouseUp_def
  startOverlayInteraction_def endCurrentInteraction_def updateUnifiedCursor_def
  restoreDefaultCursor_def resetDragState_def deref_def withStore_def duration_or_100_def
  startChanges_def resizeChanges_def durationChanges_def moveSelectedOverlay_def
  resizeSelectedOverlay_def handleEscapeKey_def cancelSelection_def wideTimeline_def
  selectedTimeline_def nearEndTimeline_def shortTimeline_def geometry_def getOverlay_def

lemma updateElement_frame [simp]:
  "dragState (updateElement r f w) = dragState w"
  "overlayState (updateElement r f w) = overlayState w"
  "editor (updateElement r f w) = editor w"
  "videoDuration (updateElement r f w) = videoDuration w"
  "currentMarkers (updateElement r f w) = currentMarkers w"
  "tl_console (updateElement r f w) = tl_console w"
  by (simp_all add: updateElement_def)

lemma duration_or_100_updateElement [simp]:
  "duration_or_100 (updateElement r f w) = duration_or_100 w"
  by (simp add: duration_or_100_def)

lemma overlays_syncWithProject [simp]: "overlays (syncWithProject s) = overlays s"
  by (simp add: syncWithProject_def Let_def split: option.splits prod.splits)

lemma updateOverlay_total: "\<exists>s'. updateOverlay ident data s = Normal s'"
  by (simp add: updateOverlay_def Let_def emit_effect split: option.splits)

lemma updateOverlay_found:
  assumes "find (\<lambda>ov. oid ov = ident) (overlays s) = Some ov"
  shows "\<exists>s'. updateOverlay ident data s = Normal s'
              \<and> overlays s' = assignFirst ident data (overlays s)"
  using assms by (simp add: updateOverlay_def Let_def emit_effect)

lemma find_assignFirst:
  assumes "find (\<lambda>ov. oid ov = ident) ovs = Some ov" "c_id data = None"
  shows "find (\<lambda>ov. oid ov = ident) (assignFirst ident data ovs) = Some (assignOverlay ov data)"
  using assms by (induction ovs) (auto simp: assignOverlay_def)

lemma withStore_updateOverlay:
  "\<exists>w'. withStore (updateOverlay ident data) w = Normal w'
        \<and> elements w' = elements w \<and> dragState w' = dragState w
        \<and> selectedOverlay w' = selectedOverlay w"
  using updateOverlay_total[of ident data "overlayState w"]
  by (auto simp: withStore_def)

lemma withStore_updateOverlay_found:
  assumes "getOverlay ident (overlayState w) = Some ov" "c_id data = None"
  shows "\<exists>w'. withStore (updateOverlay ident data) w = Normal w'
        \<and> elements w' = elements w \<and> dragState w' = dragState w
        \<and> getOverlay ident (overlayState w') = Some (assignOverlay ov data)"
proof -
  from assms(1) have f: "find (\<lambda>ov. oid ov = ident) (overlays (overlayState w)) = Some ov"
    by (simp add: getOverlay_def)
  from updateOverlay_found[OF f, of data] obtain s' where
    s': "updateOverlay ident data (overlayState w) = Normal s'"
        "overlays s' = assignFirst ident data (overlays (overlayState w))" by blast
  with find_assignFirst[OF f assms(2)] show ?thesis
    by (simp add: withStore_def getOverlay_def)
qed

lemma element_of_updateElement:
  assumes "\<And>el. ref (f el) = ref el"
  shows "element_of r (updateElement r f w) = map_option f (element_of r w)"
proof -
  have "find (\<lambda>el. ref el = r) (map (\<lambda>el. if ref el = r then f el else el) (elements w))
        = map_option (\<lambda>el. if ref el = r then f el else el) (find (\<lambda>el. ref el = r) (elements w))"
    by (rule find_map_ref) (simp add: assms)
  also have "\<dots> = map_option f (find (\<lambda>el. ref el = r) (elements w))"
  proof (cases "find (\<lambda>el. ref el = r) (elements w)")
    case None
    then show ?thesis by simp
  next
    case (Some el)
    then have "ref el = r" by (auto simp: find_Some_iff)
    with Some show ?thesis by simp
  qed
  finally show ?thesis by (simp add: element_of_def)
qed

lemma element_of_ref: "element_of r w = Some el \<Longrightarrow> ref el = r"
  by (auto simp: element_of_def find_Some_iff)

lemma element_of_cong: "elements w' = elements w \<Longrightarrow> element_of r w' = element_of r w"
  by (simp add: element_of_def)

lemma geometry_cong: "elements w' = elements w \<Longrightarrow> geometry r w' = geometry r w"
  by (simp add: geometry_def element_of_def)

lemma geometry_updateElement:
  assumes "\<And>el. ref (f el) = ref el" "element_of r w = Some el"
  shows "geometry r (updateElement r f w) = Some (style_left (f el), style_width (f el))"
  using assms by (simp add: geometry_def element_of_updateElement)

text \<open>A pointer-move step of a move: the left edge is clamped to \<open>[0, 100]\<close>, whatever the
  width, which stays.\<close>

lemma move_step:
  assumes d: "dragging_overlay r t w" and el: "element_of r w = Some el"
    and t: "t \<noteq> ''resize-left''" "t \<noteq> ''resize-right''" and tw: "0 < trackWidth"
  shows "\<exists>w'. handleAdvancedMouseMove clientX trackWidth w = Normal w'
      \<and> geometry r w' =
          Some (max 0 (min 100 (initialLeft (dragState w)
                                + (clientX - initialX (dragState w)) / trackWidth * 100)),
                style_width el)
      \<and> dragState w' = dragState w"
proof -
  let ?newPosition = "max 0 (min 100 (initialLeft (dragState w)
                                + (clientX - initialX (dragState w)) / trackWidth * 100))"
  let ?newTime = "(?newPosition / 100) * duration_or_100 w"
  let ?f = "\<lambda>el. el\<lparr>style_left := ?newPosition, data_start := ?newTime\<rparr>"
  let ?w1 = "updateElement r ?f w"
  from el have r: "ref el = r" by (rule element_of_ref)
  from d el have cls: "contains ''overlay-segment'' el" "\<not> contains ''marker-item'' el"
    by (simp_all add: dragging_overlay_def)
  have g1: "geometry r ?w1 = Some (?newPosition, style_width el)"
    using el by (subst geometry_updateElement[where el = el]) simp_all
  have step: "handleAdvancedMouseMove clientX trackWidth w =
      (if data_id el \<noteq> [] then withStore (updateOverlay (data_id el) (startChanges ?newTime)) ?w1
       else Normal ?w1)"
    using d el t tw cls r
    by (simp add: handleAdvancedMouseMove_def dragging_overlay_def deref_def Let_def)
  show ?thesis
  proof (cases "data_id el = []")
    case True
    with step g1 show ?thesis by simp
  next
    case False
    from withStore_updateOverlay[of "data_id el" "startChanges ?newTime" ?w1] obtain w' where
      w': "withStore (updateOverlay (data_id el) (startChanges ?newTime)) ?w1 = Normal w'"
          "elements w' = elements ?w1" "dragState w' = dragState ?w1" by blast
    from w'(2) have "geometry r w' = geometry r ?w1" by (rule geometry_cong)
    with False step w' g1 show ?thesis by simp
  qed
qed

text \<open>A pointer-move step of a resize keeps the segment within the track and at least 1%
  wide.\<close>

lemma resize_step:
  assumes d: "dragging_overlay r t w" and el: "element_of r w = Some el"
    and t: "t = ''resize-left'' \<or> t = ''resize-right''" and tw: "0 < trackWidth"
  shows "\<exists>w' l wd. handleAdvancedMouseMove clientX trackWidth w = Normal w'
      \<and> geometry r w' = Some (l, wd)
      \<and> 0 \<le> l \<and> 1 \<le> wd \<and> l + wd \<le> 100
      \<and> dragState w' = dragState w"
proof -
  let ?delta = "(clientX - initialX (dragState w)) / trackWidth * 100"
  let ?il = "initialLeft (dragState w)"
  let ?iw = "initialWidth (dragState w)"
  let ?newLeft = "if t = ''resize-left''
                  then max 0 (min (?il + (?delta / 100) * 100) (?il + ?iw - 1)) else ?il"
  let ?newWidth = "if t = ''resize-left'' then ?iw - (?newLeft - ?il)
                   else if t = ''resize-right'' then max 1 (min (?iw + ?delta) (100 - ?il))
                   else ?iw"
  let ?start = "(?newLeft / 100) * duration_or_100 w"
  let ?end = "((?newLeft + ?newWidth) / 100) * duration_or_100 w"
  let ?f = "\<lambda>el. el\<lparr>style_left := ?newLeft, style_width := ?newWidth,
                        data_start := ?start, data_duration := ?end - ?start\<rparr>"
  let ?w1 = "updateElement r ?f w"
  from el have r: "ref el = r" by (rule element_of_ref)
  from d el have cls: "contains ''overlay-segment'' el" "\<not> contains ''marker-item'' el"
    by (simp_all add: dragging_overlay_def)
  from d have geo: "0 \<le> ?il" "1 \<le> ?iw" "?il + ?iw \<le> 100"
    by (simp_all add: dragging_overlay_def)
  have bounds: "0 \<le> ?newLeft \<and> 1 \<le> ?newWidth \<and> ?newLeft + ?newWidth \<le> 100"
    using geo t by (auto simp: max_def min_def)
  have g1: "geometry r ?w1 = Some (?newLeft, ?newWidth)"
    using el by (subst geometry_updateElement[where el = el]) simp_all
  have step: "handleAdvancedMouseMove clientX trackWidth w =
      (if data_id el \<noteq> []
       then withStore (updateOverlay (data_id el) (resizeChanges ?start (?end - ?start) ?end)) ?w1
       else Normal ?w1)"
    using d el t tw cls r
    by (auto simp: handleAdvancedMouseMove_def handleOverlayResize_def dragging_overlay_def
          deref_def Let_def)
  show ?thesis
  proof (cases "data_id el = []")
    case True
    with step g1 bounds show ?thesis by simp
  next
    case False
    from withStore_updateOverlay[of "data_id el" "resizeChanges ?start (?end - ?start) ?end" ?w1]
    obtain w' where
      w': "withStore (updateOverlay (data_id el) (resizeChanges ?start (?end - ?start) ?end)) ?w1
             = Normal w'"
          "elements w' = elements ?w1" "dragState w' = dragState ?w1" by blast
    from w'(2) have "geometry r w' = geometry r ?w1" by (rule geometry_cong)
    with False step w' g1 bounds show ?thesis by simp
  qed
qed

text \<open>The keyboard resize never leaves the selected segment narrower than 1%.\<close>

lemma keyboard_resize_floor:
  assumes sel: "selectedOverlay w = Some r" and el: "element_of r w = Some el"
    and att: "parentNode el"
    and geo: "0 \<le> style_left el" "1 \<le> style_width el" "style_left el + style_width el \<le> 100"
  shows "\<exists>w' wd. resizeSelectedOverlay direction isLargeStep w = Normal w'
      \<and> geometry r w' = Some (style_left el, wd) \<and> 1 \<le> wd"
proof -
  let ?step = "if isLargeStep then 5 else (1::rat)"
  let ?newWidth = "if direction = ''left'' then max 5 (style_width el - ?step)
                   else min (100 - style_left el) (style_width el + ?step)"
  let ?f = "\<lambda>el. el\<lparr>style_width := ?newWidth\<rparr>"
  let ?w1 = "updateElement r ?f w"
  have v: "getValidatedSelectedOverlay w = (Some r, w)"
    using sel el att by (simp add: getValidatedSelectedOverlay_def)
  have b: "1 \<le> ?newWidth" using geo by (auto simp: max_def min_def)
  have g1: "geometry r ?w1 = Some (style_left el, ?newWidth)"
    using el by (subst geometry_updateElement[where el = el]) simp_all
  have step: "resizeSelectedOverlay direction isLargeStep w =
      (if data_id el \<noteq> []
       then withStore (updateOverlay (data_id el)
              (durationChanges ((?newWidth / 100) * duration_or_100 w))) ?w1
       else Normal (tl_warn ''could not update OverlayState'' ?w1))"
    using v el by (simp add: resizeSelectedOverlay_def Let_def)
  show ?thesis
  proof (cases "data_id el = []")
    case True
    have "geometry r (tl_warn ''could not update OverlayState'' ?w1) = geometry r ?w1"
      by (rule geometry_cong) (simp add: tl_warn_def)
    with True step g1 b show ?thesis by simp
  next
    case False
    from withStore_updateOverlay[of "data_id el"
        "durationChanges ((?newWidth / 100) * duration_or_100 w)" ?w1]
    obtain w' where
      w': "withStore (updateOverlay (data_id el)
              (durationChanges ((?newWidth / 100) * duration_or_100 w))) ?w1 = Normal w'"
          "elements w' = elements ?w1" by blast
    from w'(2) have "geometry r w' = geometry r ?w1" by (rule geometry_cong)
    with False step w' g1 b show ?thesis by simp
  qed
qed

text \<open>A pointer-move step of a move writes the new start time to the store at once; the
  release writes the start time held by the element once more and ends the drag.\<close>

lemma move_commits:
  assumes d: "dragging_segment r ''move'' w" and el: "element_of r w = Some el"
    and ident: "data_id el \<noteq> []" and ov: "getOverlay (data_id el) (overlayState w) = Some ov"
    and tw: "0 < trackWidth"
  shows "\<exists>w'. handleAdvancedMouseMove clientX trackWidth w = Normal w'
      \<and> getOverlay (data_id el) (overlayState w') =
          Some (assignOverlay ov (startChanges
             (max 0 (min 100 (initialLeft (dragState w)
                               + (clientX - initialX (dragState w)) / trackWidth * 100))
              / 100 * duration_or_100 w)))
      \<and> isDragging (dragState w')"
proof -
  let ?newPosition = "max 0 (min 100 (initialLeft (dragState w)
                                + (clientX - initialX (dragState w)) / trackWidth * 100))"
  let ?newTime = "(?newPosition / 100) * duration_or_100 w"
  let ?f = "\<lambda>el. el\<lparr>style_left := ?newPosition, data_start := ?newTime\<rparr>"
  let ?w1 = "updateElement r ?f w"
  from el have r: "ref el = r" by (rule element_of_ref)
  from d el have cls: "contains ''overlay-segment'' el" "\<not> contains ''marker-item'' el"
    by (simp_all add: dragging_segment_def)
  have step: "handleAdvancedMouseMove clientX trackWidth w =
      withStore (updateOverlay (data_id el) (startChanges ?newTime)) ?w1"
    using d el tw cls r ident
    by (simp add: handleAdvancedMouseMove_def dragging_segment_def deref_def Let_def)
  have "getOverlay (data_id el) (overlayState ?w1) = Some ov" using ov by simp
  from withStore_updateOverlay_found[OF this, of "startChanges ?newTime"]
  obtain w' where "withStore (updateOverlay (data_id el) (startChanges ?newTime)) ?w1 = Normal w'"
    "dragState w' = dragState ?w1"
    "getOverlay (data_id el) (overlayState w') = Some (assignOverlay ov (startChanges ?newTime))"
    by (auto simp: startChanges_def noChanges_def)
  with step d show ?thesis by (simp add: dragging_segment_def)
qed

lemma release_commits:
  assumes d: "dragging_segment r t w" and el: "element_of r w = Some el"
    and ident: "data_id el \<noteq> []" and ov: "getOverlay (data_id el) (overlayState w) = Some ov"
  shows "\<exists>w'. handleAdvancedMouseUp w = Normal w'
      \<and> getOverlay (data_id el) (overlayState w') =
          Some (assignOverlay ov (startChanges (data_start el)))
      \<and> \<not> isDragging (dragState w')"
proof -
  from d el have cls: "contains ''overlay-segment'' el"
    by (simp add: dragging_segment_def)
  from withStore_updateOverlay_found[OF ov, of "startChanges (data_start el)"]
  obtain w1 where w1: "withStore (updateOverlay (data_id el) (startChanges (data_start el))) w = Normal w1"
    "getOverlay (data_id el) (overlayState w1) = Some (assignOverlay ov (startChanges (data_start el)))"
    by (auto simp: startChanges_def noChanges_def)
  then show ?thesis
    using d el cls ident ov
    by (simp add: handleAdvancedMouseUp_def dragging_segment_def deref_def Let_def)
qed

lemma escape_frame:
  "overlayState (handleEscapeKey targetIsInput w) = overlayState w
   \<and> dragState (handleEscapeKey targetIsInput w) = dragState w
   \<and> elements (handleEscapeKey targetIsInput w) = elements w"
  by (simp add: handleEscapeKey_def)

lemma sample_drag_started:
  "dragging_segment 1 ''move'' (startOverlayInteraction 1 ''move'' 0 wideTimeline)
   \<and> element_of 1 (startOverlayInteraction 1 ''move'' 0 wideTimeline)
       = Some ((sampleElement 1 [''dragging'', ''moving''])
                 \<lparr>style_left := 50, style_width := 20, data_start := 50, data_duration := 20\<rparr>)
   \<and> getOverlay ''a'' (overlayState (startOverlayInteraction 1 ''move'' 0 wideTimeline))
       = Some (sampleOverlay ''a'' 50 20)"
  by (simp add: dragging_segment_def drag_defs tl_defs store_defs)

text \<open>
  Claim C1 (clamping of drag/resize geometry), evaluated on the code. A resize step keeps
  the segment inside \<open>[0, 100]\<close> and at least 1% wide (\<open>resize_step\<close>), and so does the
  keyboard resize (\<open>keyboard_resize_floor\<close>). The pointer move, however, clamps the left
  edge to \<open>[0, 100]\<close> and not to \<open>[0, 100 - width]\<close> (\<open>move_step\<close>): a segment of width 20
  at 50 that is dragged 60% to the right ends at left 100, and the store receives start
  time 100 s for a 20 s overlay of a 100 s video. The keyboard move clamps to
  \<open>100 - width\<close>: from left 78 a 5% step ends at 80, where the same 5% by pointer ends at
  83.
\<close>

theorem move_ignores_width:
  "geometry 1 (final_state (handleAdvancedMouseMove 600 1000
       (startOverlayInteraction 1 ''move'' 0 wideTimeline))) = Some (100, 20)
   \<and> map (\<lambda>ov. (startTime ov, duration ov)) (overlays (overlayState (final_state
       (handleAdvancedMouseMove 600 1000 (startOverlayInteraction 1 ''move'' 0 wideTimeline)))))
       = [(100, 20)]
   \<and> geometry 1 (final_state (handleAdvancedMouseMove 50 1000
       (startOverlayInteraction 1 ''move'' 0 nearEndTimeline))) = Some (83, 20)
   \<and> geometry 1 (final_state (moveSelectedOverlay ''right'' True nearEndTimeline))
       = Some (80, 20)"
  by (simp add: drag_defs tl_defs store_defs)

text \<open>
  Claim C6 as stated fails. No key handler cancels an overlay drag: the store is written
  at every pointer-move step, and Escape neither ends the drag nor restores the store. After
  one move step from 50 s to 60 s and Escape, the store holds 60 s and the drag goes on.
\<close>

theorem escape_does_not_revert_counterexample:
  "map startTime (overlays (overlayState wideTimeline)) = [50]
   \<and> map startTime (overlays (overlayState (handleEscapeKey False (final_state
        (handleAdvancedMouseMove 100 1000 (startOverlayInteraction 1 ''move'' 0 wideTimeline))))))
       = [60]
   \<and> isDragging (dragState (handleEscapeKey False (final_state
        (handleAdvancedMouseMove 100 1000 (startOverlayInteraction 1 ''move'' 0 wideTimeline)))))"
  by (simp add: drag_defs tl_defs store_defs)

lemma short_drag_started:
  "dragging_segment 1 ''move'' (startOverlayInteraction 1 ''move'' 0 shortTimeline)
   \<and> element_of 1 (startOverlayInteraction 1 ''move'' 0 shortTimeline)
       = Some ((sampleElement 1 [''dragging'', ''moving''])
                 \<lparr>style_left := 50, style_width := 5 / 6, data_start := 300, data_duration := 5\<rparr>)
   \<and> getOverlay ''a'' (overlayState (startOverlayInteraction 1 ''move'' 0 shortTimeline))
       = Some (sampleOverlay ''a'' 300 5)"
  by (simp add: dragging_segment_def drag_defs tl_defs store_defs)

lemma sample_resize_started:
  "dragging_segment 1 ''resize-right'' (startOverlayInteraction 1 ''resize-right'' 0 wideTimeline)
   \<and> element_of 1 (startOverlayInteraction 1 ''resize-right'' 0 wideTimeline)
       = Some ((sampleElement 1 [''dragging'', ''resizing'', ''resizing-right''])
                 \<lparr>style_left := 50, style_width := 20, data_start := 50, data_duration := 20\<rparr>)
   \<and> getOverlay ''a'' (overlayState (startOverlayInteraction 1 ''resize-right'' 0 wideTimeline))
       = Some (sampleOverlay ''a'' 50 20)"
  by (simp add: dragging_segment_def drag_defs tl_defs store_defs)

text \<open>A pointer-move step of a resize writes the new start time, duration and end time to
  the store at once.\<close>

lemma resize_commits:
  assumes d: "dragging_segment r t w" and el: "element_of r w = Some el"
    and t: "t = ''resize-left'' \<or> t = ''resize-right''"
    and ident: "data_id el \<noteq> []" and ov: "getOverlay (data_id el) (overlayState w) = Some ov"
    and tw: "0 < trackWidth"
  shows "\<exists>w'. handleAdvancedMouseMove clientX trackWidth w = Normal w'
      \<and> getOverlay (data_id el) (overlayState w') =
          Some (let delta = (clientX - initialX (dragState w)) / trackWidth * 100;
                    il = initialLeft (dragState w);
                    iw = initialWidth (dragState w);
                    newLeft = (if t = ''resize-left''
                               then max 0 (min (il + (delta / 100) * 100) (il + iw - 1)) else il);
                    newWidth = (if t = ''resize-left'' then iw - (newLeft - il)
                                else max 1 (min (iw + delta) (100 - il)));
                    newStart = newLeft / 100 * duration_or_100 w;
                    newEnd = (newLeft + newWidth) / 100 * duration_or_100 w
                in assignOverlay ov (resizeChanges newStart (newEnd - newStart) newEnd))
      \<and> isDragging (dragState w')"
proof -
  let ?delta = "(clientX - initialX (dragState w)) / trackWidth * 100"
  let ?il = "initialLeft (dragState w)"
  let ?iw = "initialWidth (dragState w)"
  let ?newLeft = "if t = ''resize-left''
                  then max 0 (min (?il + (?delta / 100) * 100) (?il + ?iw - 1)) else ?il"
  let ?newWidth = "if t = ''resize-left'' then ?iw - (?newLeft - ?il)
                   else max 1 (min (?iw + ?delta) (100 - ?il))"
  let ?start = "(?newLeft / 100) * duration_or_100 w"
  let ?end = "((?newLeft + ?newWidth) / 100) * duration_or_100 w"
  let ?f = "\<lambda>el. el\<lparr>style_left := ?newLeft, style_width := ?newWidth,
                        data_start := ?start, data_duration := ?end - ?start\<rparr>"
  let ?w1 = "updateElement r ?f w"
  from el have r: "ref el = r" by (rule element_of_ref)
  from d el have cls: "contains ''overlay-segment'' el" "\<not> contains ''marker-item'' el"
    by (simp_all add: dragging_segment_def)
  have step: "handleAdvancedMouseMove clientX trackWidth w =
       withStore (updateOverlay (data_id el) (resizeChanges ?start (?end - ?start) ?end)) ?w1"
    using d el t tw cls r ident
    by (auto simp: handleAdvancedMouseMove_def handleOverlayResize_def dragging_segment_def
          deref_def Let_def)
  have "getOverlay (data_id el) (overlayState ?w1) = Some ov" using ov by simp
  from withStore_updateOverlay_found[OF this, of "resizeChanges ?start (?end - ?start) ?end"]
  obtain w' where
    "withStore (updateOverlay (data_id el) (resizeChanges ?start (?end - ?start) ?end)) ?w1 = Normal w'"
    "dragState w' = dragState ?w1"
    "getOverlay (data_id el) (overlayState w')
       = Some (assignOverlay ov (resizeChanges ?start (?end - ?start) ?end))"
    by (auto simp: resizeChanges_def noChanges_def)
  with step d show ?thesis by (simp add: dragging_segment_def Let_def)
qed

lemma escape_editor:
  "editor (handleEscapeKey targetIsInput w)
     = (if targetIsInput then editor w else cancelSelection (editor w))"
  by (simp add: handleEscapeKey_def cancelSelection_def)

text \<open>
  Claim C6, amended (what cancellation and commit do). Escape leaves the Overlay Store, the
  drag state and the elements exactly as they are; unless typed into an input field it
  cancels an active trim selection, and nothing else. While a drag is in progress on an
  overlay segment whose \<^verbatim>\<open>data-id\<close> names a record of the store, whatever the geometry
  of the segment, a pointer-move step on a track of positive width writes to the store at
  once and the drag continues: a move writes the start time computed from the pointer
  position, a resize the start time, duration and end time computed from it. The release
  of a drag of any kind on such a segment writes the start time held by the element once
  more and ends the drag. So the store always holds the result of the last step, whether
  or not the interaction is completed.
\<close>

theorem escape_leaves_store:
  "overlayState (handleEscapeKey targetIsInput w) = overlayState w
   \<and> dragState (handleEscapeKey targetIsInput w) = dragState w
   \<and> elements (handleEscapeKey targetIsInput w) = elements w
   \<and> editor (handleEscapeKey targetIsInput w)
       = (if targetIsInput then editor w else cancelSelection (editor w))
   \<and> (dragging_segment r ''move'' w \<and> element_of r w = Some el \<and> data_id el \<noteq> []
        \<and> getOverlay (data_id el) (overlayState w) = Some ov \<and> 0 < trackWidth \<longrightarrow>
       (\<exists>w'. handleAdvancedMouseMove clientX trackWidth w = Normal w'
          \<and> getOverlay (data_id el) (overlayState w') =
              Some (assignOverlay ov (startChanges
                 (max 0 (min 100 (initialLeft (dragState w)
                                   + (clientX - initialX (dragState w)) / trackWidth * 100))
                  / 100 * duration_or_100 w)))
          \<and> isDragging (dragState w')))
   \<and> (dragging_segment r t w \<and> (t = ''resize-left'' \<or> t = ''resize-right'')
        \<and> element_of r w = Some el \<and> data_id el \<noteq> []
        \<and> getOverlay (data_id el) (overlayState w) = Some ov \<and> 0 < trackWidth \<longrightarrow>
       (\<exists>w'. handleAdvancedMouseMove clientX trackWidth w = Normal w'
          \<and> getOverlay (data_id el) (overlayState w') =
              Some (let delta = (clientX - initialX (dragState w)) / trackWidth * 100;
                        il = initialLeft (dragState w);
                        iw = initialWidth (dragState w);
                        newLeft = (if t = ''resize-left''
                                   then max 0 (min (il + (delta / 100) * 100) (il + iw - 1))
                                   else il);
                        newWidth = (if t = ''resize-left'' then iw - (newLeft - il)
                                    else max 1 (min (iw + delta) (100 - il)));
                        newStart = newLeft / 100 * duration_or_100 w;
                        newEnd = (newLeft + newWidth) / 100 * duration_or_100 w
                    in assignOverlay ov (resizeChanges newStart (newEnd - newStart) newEnd))
          \<and> isDragging (dragState w')))
   \<and> (dragging_segment r t w \<and> element_of r w = Some el \<and> data_id el \<noteq> []
        \<and> getOverlay (data_id el) (overlayState w) = Some ov \<longrightarrow>
       (\<exists>w'. handleAdvancedMouseUp w = Normal w'
          \<and> getOverlay (data_id el) (overlayState w') =
              Some (assignOverlay ov (startChanges (data_start el)))
          \<and> \<not> isDragging (dragState w')))"
  using escape_frame[of targetIsInput w] escape_editor[of targetIsInput w]
    move_commits[of r w el ov trackWidth clientX]
    resize_commits[of r t w el ov trackWidth clientX]
    release_commits[of r t w el ov]
  by blast

theorem escape_leaves_store_witness:
  "dragging_segment 1 ''move'' (startOverlayInteraction 1 ''move'' 0 wideTimeline)
   \<and> (0::rat) < 1000
   \<and> (\<exists>w'. handleAdvancedMouseMove 100 1000 (startOverlayInteraction 1 ''move'' 0 wideTimeline)
              = Normal w'
          \<and> map_option startTime (getOverlay ''a'' (overlayState w')) = Some 60
          \<and> isDragging (dragState w'))
   \<and> (\<exists>w'. handleAdvancedMouseUp (startOverlayInteraction 1 ''move'' 0 wideTimeline) = Normal w'
          \<and> map_option startTime (getOverlay ''a'' (overlayState w')) = Some 50
          \<and> \<not> isDragging (dragState w'))
   \<and> dragging_segment 1 ''move'' (startOverlayInteraction 1 ''move'' 0 shortTimeline)
   \<and> (\<exists>w'. handleAdvancedMouseMove 100 1000 (startOverlayInteraction 1 ''move'' 0 shortTimeline)
              = Normal w'
          \<and> map_option startTime (getOverlay ''a'' (overlayState w')) = Some 360
          \<and> isDragging (dragState w'))
   \<and> dragging_segment 1 ''resize-right''
        (startOverlayInteraction 1 ''resize-right'' 0 wideTimeline)
   \<and> (\<exists>w'. handleAdvancedMouseMove 100 1000
               (startOverlayInteraction 1 ''resize-right'' 0 wideTimeline) = Normal w'
          \<and> map_option (\<lambda>ov. (startTime ov, duration ov)) (getOverlay ''a'' (overlayState w'))
               = Some (50, 30)
          \<and> isDragging (dragState w'))"
proof -
  let ?w = "startOverlayInteraction 1 ''move'' 0 wideTimeline"
  let ?el = "(sampleElement 1 [''dragging'', ''moving''])
                 \<lparr>style_left := 50, style_width := 20, data_start := 50, data_duration := 20\<rparr>"
  have h: "dragging_segment 1 ''move'' ?w" "element_of 1 ?w = Some ?el"
    "getOverlay ''a'' (overlayState ?w) = Some (sampleOverlay ''a'' 50 20)"
    using sample_drag_started by blast+
  have i: "data_id ?el = ''a''" "data_start ?el = 50" by (simp_all add: sampleElement_def)
  have v: "initialLeft (dragState ?w) = 50" "initialX (dragState ?w) = 0" "duration_or_100 ?w = 100"
    by (simp_all add: drag_defs tl_defs)
  from h i escape_leaves_store[of _ ?w 1 ?el "sampleOverlay ''a'' 50 20" 1000 100 "''move''"]
  have m: "\<exists>w'. handleAdvancedMouseMove 100 1000 ?w = Normal w'
          \<and> getOverlay ''a'' (overlayState w') =
              Some (assignOverlay (sampleOverlay ''a'' 50 20) (startChanges
                 (max 0 (min 100 (initialLeft (dragState ?w)
                                   + (100 - initialX (dragState ?w)) / 1000 * 100))
                  / 100 * duration_or_100 ?w)))
          \<and> isDragging (dragState w')"
    and u: "\<exists>w'. handleAdvancedMouseUp ?w = Normal w'
          \<and> getOverlay ''a'' (overlayState w') =
              Some (assignOverlay (sampleOverlay ''a'' 50 20) (startChanges 50))
          \<and> \<not> isDragging (dragState w')"
    by simp_all
  from m have m': "\<exists>w'. handleAdvancedMouseMove 100 1000 ?w = Normal w'
          \<and> map_option startTime (getOverlay ''a'' (overlayState w')) = Some 60
          \<and> isDragging (dragState w')"
    unfolding v by (auto simp: assignOverlay_def startChanges_def noChanges_def)
  from u have u': "\<exists>w'. handleAdvancedMouseUp ?w = Normal w'
          \<and> map_option startTime (getOverlay ''a'' (overlayState w')) = Some 50
          \<and> \<not> isDragging (dragState w')"
    by (auto simp: assignOverlay_def startChanges_def noChanges_def)
  let ?ws = "startOverlayInteraction 1 ''move'' 0 shortTimeline"
  let ?es = "(sampleElement 1 [''dragging'', ''moving''])
                 \<lparr>style_left := 50, style_width := 5 / 6, data_start := 300, data_duration := 5\<rparr>"
  have hs: "dragging_segment 1 ''move'' ?ws" "element_of 1 ?ws = Some ?es"
    "getOverlay ''a'' (overlayState ?ws) = Some (sampleOverlay ''a'' 300 5)"
    using short_drag_started by blast+
  have ids: "data_id ?es = ''a''" by (simp add: sampleElement_def)
  have vs: "initialLeft (dragState ?ws) = 50" "initialX (dragState ?ws) = 0"
    "duration_or_100 ?ws = 600"
    by (simp_all add: drag_defs tl_defs)
  from hs ids escape_leaves_store[of _ ?ws 1 ?es "sampleOverlay ''a'' 300 5" 1000 100 "''move''"]
  have "\<exists>w'. handleAdvancedMouseMove 100 1000 ?ws = Normal w'
          \<and> getOverlay ''a'' (overlayState w') =
              Some (assignOverlay (sampleOverlay ''a'' 300 5) (startChanges
                 (max 0 (min 100 (initialLeft (dragState ?ws)
                                   + (100 - initialX (dragState ?ws)) / 1000 * 100))
                  / 100 * duration_or_100 ?ws)))
          \<and> isDragging (dragState w')"
    by simp
  then have s': "\<exists>w'. handleAdvancedMouseMove 100 1000 ?ws = Normal w'
          \<and> map_option startTime (getOverlay ''a'' (overlayState w')) = Some 360
          \<and> isDragging (dragState w')"
    unfolding vs by (auto simp: assignOverlay_def startChanges_def noChanges_def)
  let ?wr = "startOverlayInteraction 1 ''resize-right'' 0 wideTimeline"
  let ?er = "(sampleElement 1 [''dragging'', ''resizing'', ''resizing-right''])
                 \<lparr>style_left := 50, style_width := 20, data_start := 50, data_duration := 20\<rparr>"
  have hr: "dragging_segment 1 ''resize-right'' ?wr" "element_of 1 ?wr = Some ?er"
    "getOverlay ''a'' (overlayState ?wr) = Some (sampleOverlay ''a'' 50 20)"
    using sample_resize_started by blast+
  have idr: "data_id ?er = ''a''" by (simp add: sampleElement_def)
  have vr: "initialLeft (dragState ?wr) = 50" "initialWidth (dragState ?wr) = 20"
    "initialX (dragState ?wr) = 0" "duration_or_100 ?wr = 100"
    by (simp_all add: drag_defs tl_defs)
  from hr idr
    escape_leaves_store[of _ ?wr 1 ?er "sampleOverlay ''a'' 50 20" 1000 100 "''resize-right''"]
  have "\<exists>w'. handleAdvancedMouseMove 100 1000 ?wr = Normal w'
          \<and> getOverlay ''a'' (overlayState w') =
              Some (let delta = (100 - initialX (dragState ?wr)) / 1000 * 100;
                        il = initialLeft (dragState ?wr);
                        iw = initialWidth (dragState ?wr);
                        newLeft = (if ''resize-right'' = ''resize-left''
                                   then max 0 (min (il + (delta / 100) * 100) (il + iw - 1))
                                   else il);
                        newWidth = (if ''resize-right'' = ''resize-left'' then iw - (newLeft - il)
                                    else max 1 (min (iw + delta) (100 - il)));
                        newStart = newLeft / 100 * duration_or_100 ?wr;
                        newEnd = (newLeft + newWidth) / 100 * duration_or_100 ?wr
                    in assignOverlay (sampleOverlay ''a'' 50 20)
                         (resizeChanges newStart (newEnd - newStart) newEnd))
          \<and> isDragging (dragState w')"
    by simp
  then have r': "\<exists>w'. handleAdvancedMouseMove 100 1000 ?wr = Normal w'
          \<and> map_option (\<lambda>ov. (startTime ov, duration ov)) (getOverlay ''a'' (overlayState w'))
               = Some (50, 30)
          \<and> isDragging (dragState w')"
    unfolding vr by (auto simp: assignOverlay_def resizeChanges_def noChanges_def Let_def)
  from h(1) m' u' hs(1) s' hr(1) r' show ?thesis by simp
qed

end
